theory Spec2Isabelle
  imports Complex_Main
begin

section \<open>Numbers and elementary helpers\<close>

text \<open>
  The simulation core is written in JavaScript; every quantity is a \<open>Number\<close>.
  The geometry is embedded with a Number read as an exact real: there rounding,
  signed zeros, infinities and NaN are not modelled. The functions whose properties
  depend on rounding, on underflow or on NaN are embedded a second time in binary64
  arithmetic (section \<open>Binary64 arithmetic\<close>).
\<close>

definition DEG :: real where
  "DEG = pi / 180"

definition RAD :: real where
  "RAD = 180 / pi"

text \<open>\<open>Math.trunc\<close>: rounding towards zero, as the remainder operator uses it.\<close>

definition js_trunc :: "real \<Rightarrow> int" where
  "js_trunc x = (if 0 \<le> x then \<lfloor>x\<rfloor> else \<lceil>x\<rceil>)"

text \<open>The operator \<open>a % b\<close> on Numbers: the remainder takes the sign of the dividend.\<close>

definition js_mod :: "real \<Rightarrow> real \<Rightarrow> real" where
  "js_mod a b = a - b * of_int (js_trunc (a / b))"

text \<open>\<open>clamp(value, min, max) = Math.max(min, Math.min(max, value))\<close>\<close>

definition clamp :: "real \<Rightarrow> real \<Rightarrow> real \<Rightarrow> real" where
  "clamp v lo hi = max lo (min hi v)"

definition normalize180 :: "real \<Rightarrow> real" where
  "normalize180 angle =
     (let value = js_mod angle 360;
          value = (if value > 180 then value - 360 else value);
          value = (if value < -180 then value + 360 else value)
      in value)"

definition normalize360 :: "real \<Rightarrow> real" where
  "normalize360 angle =
     (let value = js_mod angle 360;
          value = (if value < 0 then value + 360 else value)
      in value)"

section \<open>Disk overlap\<close>

definition overlapFraction :: "real \<Rightarrow> real \<Rightarrow> real \<Rightarrow> real" where
  "overlapFraction sunRadiusDeg moonRadiusDeg separationDeg =
     (let r1 = sunRadiusDeg; r2 = moonRadiusDeg; d = separationDeg in
      if d \<ge> r1 + r2 then 0
      else if d \<le> \<bar>r1 - r2\<bar> then
        (if r2 \<ge> r1 then 1 else clamp ((r2 * r2) / (r1 * r1)) 0 1)
      else
        (let r1Sq = r1 * r1;
             r2Sq = r2 * r2;
             alpha = 2 * arccos (clamp ((d * d + r1Sq - r2Sq) / (2 * d * r1)) (-1) 1);
             beta = 2 * arccos (clamp ((d * d + r2Sq - r1Sq) / (2 * d * r2)) (-1) 1);
             area = 0.5 * r1Sq * (alpha - sin alpha) + 0.5 * r2Sq * (beta - sin beta)
         in clamp (area / (pi * r1Sq)) 0 1))"

section \<open>Binary64 arithmetic\<close>

text \<open>
  A Number is an IEEE 754 binary64 value, and every arithmetic operation returns the
  binary64 value nearest to the exact result, a tie going to the even significand.
  Where a property turns on that rounding, on underflow or on NaN, the functions
  concerned are modelled a second time below, with the suffix \<open>_double\<close>, on the type
  \<open>number\<close>. The two zeros are one value there.

  \<open>round_half_even\<close> is the nearest integer. \<open>ulp_exponent x\<close> is the exponent of
  the unit in the last place of \<open>x\<close>: a significand has 53 bits, and below
  \<open>2^-1022\<close> the spacing stays \<open>2^-1074\<close>. \<open>round_double\<close> is the nearest point
  of that grid.
\<close>

definition round_half_even :: "real \<Rightarrow> int" where
  "round_half_even q =
     (let f = \<lfloor>q\<rfloor>; r = q - of_int f in
      if r < 1 / 2 then f
      else if 1 / 2 < r then f + 1
      else if even f then f else f + 1)"

definition ulp_exponent :: "real \<Rightarrow> int" where
  "ulp_exponent x = max \<lfloor>log 2 \<bar>x\<bar>\<rfloor> (- 1022) - 52"

definition round_double :: "real \<Rightarrow> real" where
  "round_double x =
     (if x = 0 then 0
      else of_int (round_half_even (x / 2 powr of_int (ulp_exponent x)))
             * 2 powr of_int (ulp_exponent x))"

datatype number = Num real | PosInfinity | NegInfinity | NaN

text \<open>The Number of an exact result: a rounded value of \<open>2^1024\<close> or more is an infinity.\<close>

definition to_number :: "real \<Rightarrow> number" where
  "to_number x =
     (let r = round_double x in
      if 2 ^ 1024 \<le> r then PosInfinity
      else if r \<le> - (2 ^ 1024) then NegInfinity
      else Num r)"

text \<open>The operators \<open>-a\<close>, \<open>a + b\<close>, \<open>a - b\<close>, \<open>a * b\<close>, \<open>a / b\<close> and \<open>a % b\<close>.\<close>

fun num_neg :: "number \<Rightarrow> number" where
  "num_neg (Num a) = Num (- a)"
| "num_neg PosInfinity = NegInfinity"
| "num_neg NegInfinity = PosInfinity"
| "num_neg NaN = NaN"

fun num_add :: "number \<Rightarrow> number \<Rightarrow> number" where
  "num_add (Num a) (Num b) = to_number (a + b)"
| "num_add NaN b = NaN"
| "num_add a NaN = NaN"
| "num_add PosInfinity NegInfinity = NaN"
| "num_add NegInfinity PosInfinity = NaN"
| "num_add PosInfinity b = PosInfinity"
| "num_add a PosInfinity = PosInfinity"
| "num_add NegInfinity b = NegInfinity"
| "num_add a NegInfinity = NegInfinity"

definition num_sub :: "number \<Rightarrow> number \<Rightarrow> number" where
  "num_sub a b = num_add a (num_neg b)"

fun num_mul :: "number \<Rightarrow> number \<Rightarrow> number" where
  "num_mul (Num a) (Num b) = to_number (a * b)"
| "num_mul NaN b = NaN"
| "num_mul a NaN = NaN"
| "num_mul (Num a) PosInfinity =
     (if a = 0 then NaN else if 0 < a then PosInfinity else NegInfinity)"
| "num_mul (Num a) NegInfinity =
     (if a = 0 then NaN else if 0 < a then NegInfinity else PosInfinity)"
| "num_mul PosInfinity (Num b) =
     (if b = 0 then NaN else if 0 < b then PosInfinity else NegInfinity)"
| "num_mul NegInfinity (Num b) =
     (if b = 0 then NaN else if 0 < b then NegInfinity else PosInfinity)"
| "num_mul PosInfinity PosInfinity = PosInfinity"
| "num_mul PosInfinity NegInfinity = NegInfinity"
| "num_mul NegInfinity PosInfinity = NegInfinity"
| "num_mul NegInfinity NegInfinity = PosInfinity"

text \<open>A quotient by zero is NaN for a zero dividend and an infinity otherwise.\<close>

fun num_div :: "number \<Rightarrow> number \<Rightarrow> number" where
  "num_div (Num a) (Num b) =
     (if b = 0 then (if a = 0 then NaN else if 0 < a then PosInfinity else NegInfinity)
      else to_number (a / b))"
| "num_div NaN b = NaN"
| "num_div a NaN = NaN"
| "num_div (Num a) b = Num 0"
| "num_div PosInfinity (Num b) = (if 0 \<le> b then PosInfinity else NegInfinity)"
| "num_div NegInfinity (Num b) = (if 0 \<le> b then NegInfinity else PosInfinity)"
| "num_div a b = NaN"

text \<open>The remainder of two finite Numbers is exact.\<close>

fun num_rem :: "number \<Rightarrow> number \<Rightarrow> number" where
  "num_rem (Num a) (Num b) = (if b = 0 then NaN else Num (js_mod a b))"
| "num_rem (Num a) PosInfinity = Num a"
| "num_rem (Num a) NegInfinity = Num a"
| "num_rem a b = NaN"

text \<open>The comparisons \<open>a < b\<close> and \<open>a <= b\<close>; both are false when an operand is NaN.\<close>

fun num_less :: "number \<Rightarrow> number \<Rightarrow> bool" where
  "num_less (Num a) (Num b) = (a < b)"
| "num_less NaN b = False"
| "num_less a NaN = False"
| "num_less a NegInfinity = False"
| "num_less PosInfinity b = False"
| "num_less a b = True"

fun num_le :: "number \<Rightarrow> number \<Rightarrow> bool" where
  "num_le (Num a) (Num b) = (a \<le> b)"
| "num_le NaN b = False"
| "num_le a NaN = False"
| "num_le NegInfinity b = True"
| "num_le a PosInfinity = True"
| "num_le a b = False"

text \<open>
  \<open>Math.abs\<close>, \<open>Math.min\<close>, \<open>Math.max\<close>, and \<open>Math.acos\<close>, \<open>Math.sin\<close> and
  \<open>Math.PI\<close> taken as correctly rounded.
\<close>

fun num_abs :: "number \<Rightarrow> number" where
  "num_abs (Num a) = Num \<bar>a\<bar>"
| "num_abs NaN = NaN"
| "num_abs a = PosInfinity"

fun num_min :: "number \<Rightarrow> number \<Rightarrow> number" where
  "num_min NaN b = NaN"
| "num_min a NaN = NaN"
| "num_min a b = (if num_le a b then a else b)"

fun num_max :: "number \<Rightarrow> number \<Rightarrow> number" where
  "num_max NaN b = NaN"
| "num_max a NaN = NaN"
| "num_max a b = (if num_le a b then b else a)"

fun num_acos :: "number \<Rightarrow> number" where
  "num_acos (Num a) = (if - 1 \<le> a \<and> a \<le> 1 then to_number (arccos a) else NaN)"
| "num_acos a = NaN"

fun num_sin :: "number \<Rightarrow> number" where
  "num_sin (Num a) = to_number (sin a)"
| "num_sin a = NaN"

definition PI_double :: number where
  "PI_double = to_number pi"

definition clamp_double :: "number \<Rightarrow> number \<Rightarrow> number \<Rightarrow> number" where
  "clamp_double v lo hi = num_max lo (num_min hi v)"

definition normalize180_double :: "number \<Rightarrow> number" where
  "normalize180_double angle =
     (let value = num_rem angle (Num 360);
          value = (if num_less (Num 180) value then num_sub value (Num 360) else value);
          value = (if num_less value (Num (- 180)) then num_add value (Num 360) else value)
      in value)"

definition normalize360_double :: "number \<Rightarrow> number" where
  "normalize360_double angle =
     (let value = num_rem angle (Num 360);
          value = (if num_less value (Num 0) then num_add value (Num 360) else value)
      in value)"

definition overlapFraction_double :: "number \<Rightarrow> number \<Rightarrow> number \<Rightarrow> number" where
  "overlapFraction_double sunRadiusDeg moonRadiusDeg separationDeg =
     (let r1 = sunRadiusDeg; r2 = moonRadiusDeg; d = separationDeg in
      if num_le (num_add r1 r2) d then Num 0
      else if num_le d (num_abs (num_sub r1 r2)) then
        (if num_le r1 r2 then Num 1
         else clamp_double (num_div (num_mul r2 r2) (num_mul r1 r1)) (Num 0) (Num 1))
      else
        (let r1Sq = num_mul r1 r1;
             r2Sq = num_mul r2 r2;
             alpha = num_mul (Num 2) (num_acos (clamp_double
               (num_div (num_sub (num_add (num_mul d d) r1Sq) r2Sq)
                  (num_mul (num_mul (Num 2) d) r1))
               (Num (- 1)) (Num 1)));
             beta = num_mul (Num 2) (num_acos (clamp_double
               (num_div (num_sub (num_add (num_mul d d) r2Sq) r1Sq)
                  (num_mul (num_mul (Num 2) d) r2))
               (Num (- 1)) (Num 1)));
             area = num_add
               (num_mul (num_mul (Num 0.5) r1Sq) (num_sub alpha (num_sin alpha)))
               (num_mul (num_mul (Num 0.5) r2Sq) (num_sub beta (num_sin beta)))
         in clamp_double (num_div area (num_mul PI_double r1Sq)) (Num 0) (Num 1)))"

text \<open>The rates of the propagation: a decimal literal is the Number nearest to it.\<close>

definition EARTH_ROT_DEG_PER_HOUR_double :: number where
  "EARTH_ROT_DEG_PER_HOUR_double = to_number 15.041067"

definition SUN_ECLIPTIC_DEG_PER_HOUR_double :: number where
  "SUN_ECLIPTIC_DEG_PER_HOUR_double =
     num_div (Num 360) (num_mul (to_number 365.2422) (Num 24))"

definition MOON_ECLIPTIC_DEG_PER_HOUR_double :: number where
  "MOON_ECLIPTIC_DEG_PER_HOUR_double = num_div (to_number 13.176358) (Num 24)"

definition MOON_ANOMALY_DEG_PER_HOUR_double :: number where
  "MOON_ANOMALY_DEG_PER_HOUR_double = to_number 0.549"

definition NODE_REGRESSION_DEG_PER_HOUR_double :: number where
  "NODE_REGRESSION_DEG_PER_HOUR_double =
     num_neg (num_div (Num 360)
       (num_mul (num_mul (to_number 18.613) (to_number 365.2422)) (Num 24)))"

text \<open>
  \<open>new Date(ms)\<close> keeps the whole milliseconds of a finite time value of at most
  8.64e15 in absolute value; any other time value is NaN, an invalid date.
\<close>

fun newDate_double :: "number \<Rightarrow> number" where
  "newDate_double (Num ms) =
     (if \<bar>ms\<bar> \<le> 8640000000000000 then Num (of_int (js_trunc ms)) else NaN)"
| "newDate_double a = NaN"

definition toJulianDate_double :: "number \<Rightarrow> number" where
  "toJulianDate_double date_ms = num_add (num_div date_ms (Num 86400000)) (Num 2440587.5)"

definition julianCenturies_double :: "number \<Rightarrow> number" where
  "julianCenturies_double jd = num_div (num_sub jd (Num 2451545.0)) (Num 36525)"

definition greenwichSiderealDeg_double :: "number \<Rightarrow> number" where
  "greenwichSiderealDeg_double jd =
     (let t = julianCenturies_double jd;
          theta = num_sub
            (num_add
               (num_add (to_number 280.46061837)
                  (num_mul (to_number 360.98564736629) (num_sub jd (Num 2451545.0))))
               (num_mul (num_mul (to_number 0.000387933) t) t))
            (num_div (num_mul (num_mul t t) t) (Num 38710000))
      in normalize360_double theta)"

text \<open>
  The parameters and the state with Numbers in their fields (the names carry the
  suffix \<open>_d\<close>), and \<open>deriveSimulationState\<close> on them.
\<close>

record OrbitalParameters_double =
  ascendingNodeLon_d :: number
  sunEclipticLon_d :: number
  moonNodePhase_d :: number
  moonDistanceMode_d :: number
  moonAnomaly_d :: number
  observerLat_d :: number
  observerLon_d :: number
  observerTilt_d :: number
  earthRotation_d :: number

record SimulationState_double = OrbitalParameters_double +
  simHours_d :: number
  date_d :: number
  julianDay_d :: number
  gmst_d :: number
  descendingNodeLon_d :: number
  moonEclipticLon_d :: number

definition deriveSimulationState_double ::
  "'a OrbitalParameters_double_scheme \<Rightarrow> number \<Rightarrow> number \<Rightarrow> SimulationState_double" where
  "deriveSimulationState_double base simH startDate =
     (let dateV = newDate_double (num_add startDate (num_mul simH (Num 3600000)));
          julianD = toJulianDate_double dateV;
          gmstV = greenwichSiderealDeg_double julianD;
          earthRot = normalize360_double
            (num_add (earthRotation_d base) (num_mul simH EARTH_ROT_DEG_PER_HOUR_double));
          sunLon = normalize360_double
            (num_add (sunEclipticLon_d base) (num_mul simH SUN_ECLIPTIC_DEG_PER_HOUR_double));
          ascLon = normalize360_double
            (num_add (ascendingNodeLon_d base)
               (num_mul simH NODE_REGRESSION_DEG_PER_HOUR_double));
          nodePhase = normalize180_double
            (num_add (moonNodePhase_d base)
               (num_mul simH (num_sub MOON_ECLIPTIC_DEG_PER_HOUR_double
                                NODE_REGRESSION_DEG_PER_HOUR_double)));
          moonLon = normalize360_double (num_add ascLon nodePhase);
          moonAnom = normalize360_double
            (num_add (moonAnomaly_d base) (num_mul simH MOON_ANOMALY_DEG_PER_HOUR_double))
      in \<lparr> ascendingNodeLon_d = ascLon,
            sunEclipticLon_d = sunLon,
            moonNodePhase_d = nodePhase,
            moonDistanceMode_d = moonDistanceMode_d base,
            moonAnomaly_d = moonAnom,
            observerLat_d = observerLat_d base,
            observerLon_d = observerLon_d base,
            observerTilt_d = observerTilt_d base,
            earthRotation_d = earthRot,
            simHours_d = simH,
            date_d = dateV,
            julianDay_d = julianD,
            gmst_d = gmstV,
            descendingNodeLon_d = normalize360_double (num_add ascLon (Num 180)),
            moonEclipticLon_d = moonLon \<rparr>)"

section \<open>Constants of the simulation\<close>

definition AU_KM :: real where
  "AU_KM = 149597870.7"

definition EARTH_RADIUS_KM :: real where
  "EARTH_RADIUS_KM = 6371.0"

definition SUN_RADIUS_KM :: real where
  "SUN_RADIUS_KM = 695700.0"

definition MOON_RADIUS_KM :: real where
  "MOON_RADIUS_KM = 1737.4"

definition MOON_PERIGEE_KM :: real where
  "MOON_PERIGEE_KM = 363300"

definition MOON_APOGEE_KM :: real where
  "MOON_APOGEE_KM = 405500"

definition LUNAR_INCLINATION_DEG :: real where
  "LUNAR_INCLINATION_DEG = 5.145"

definition EARTH_ROT_DEG_PER_HOUR :: real where
  "EARTH_ROT_DEG_PER_HOUR = 15.041067"

definition SUN_ECLIPTIC_DEG_PER_HOUR :: real where
  "SUN_ECLIPTIC_DEG_PER_HOUR = 360 / (365.2422 * 24)"

definition MOON_ECLIPTIC_DEG_PER_HOUR :: real where
  "MOON_ECLIPTIC_DEG_PER_HOUR = 13.176358 / 24"

definition MOON_ANOMALY_DEG_PER_HOUR :: real where
  "MOON_ANOMALY_DEG_PER_HOUR = 0.549"

definition NODE_REGRESSION_DEG_PER_HOUR :: real where
  "NODE_REGRESSION_DEG_PER_HOUR = - (360 / (18.613 * 365.2422 * 24))"

section \<open>Vector and matrix kernel\<close>

text \<open>
  \<open>Math.atan2(y, x)\<close> on finite reals (the two zeros of JavaScript are one real 0,
  and \<open>Math.atan2(0, 0)\<close> is 0).
\<close>

definition js_atan2 :: "real \<Rightarrow> real \<Rightarrow> real" where
  "js_atan2 y x =
     (if x > 0 then arctan (y / x)
      else if x < 0 then (if y \<ge> 0 then arctan (y / x) + pi else arctan (y / x) - pi)
      else if y > 0 then pi / 2
      else if y < 0 then - (pi / 2)
      else 0)"

text \<open>
  \<open>Math.min(...values)\<close> of a list of Numbers. Of no argument JavaScript returns
  \<open>Infinity\<close>, which is no real: the only caller tests the list for emptiness first,
  and the first equation is never used.
\<close>

fun js_min_list :: "real list \<Rightarrow> real" where
  "js_min_list [] = 0"
| "js_min_list [v] = v"
| "js_min_list (v # w # vs) = min v (js_min_list (w # vs))"

text \<open>A vector \<open>{x, y, z}\<close>; the fields are named \<open>vx\<close>, \<open>vy\<close>, \<open>vz\<close>.\<close>

record Vector3 =
  vx :: real
  vy :: real
  vz :: real

definition addVector :: "Vector3 \<Rightarrow> Vector3 \<Rightarrow> Vector3" where
  "addVector a b = \<lparr> vx = vx a + vx b, vy = vy a + vy b, vz = vz a + vz b \<rparr>"

definition scaleVector :: "Vector3 \<Rightarrow> real \<Rightarrow> Vector3" where
  "scaleVector v scalar = \<lparr> vx = vx v * scalar, vy = vy v * scalar, vz = vz v * scalar \<rparr>"

definition dotVector :: "Vector3 \<Rightarrow> Vector3 \<Rightarrow> real" where
  "dotVector a b = vx a * vx b + vy a * vy b + vz a * vz b"

definition crossVector :: "Vector3 \<Rightarrow> Vector3 \<Rightarrow> Vector3" where
  "crossVector a b =
     \<lparr> vx = vy a * vz b - vz a * vy b,
       vy = vz a * vx b - vx a * vz b,
       vz = vx a * vy b - vy a * vx b \<rparr>"

definition magnitudeVector :: "Vector3 \<Rightarrow> real" where
  "magnitudeVector v = sqrt (dotVector v v)"

definition normalizeVector :: "Vector3 \<Rightarrow> Vector3" where
  "normalizeVector v =
     (let norm = magnitudeVector v in
      if norm < 1 / 10 ^ 12 then \<lparr> vx = 1, vy = 0, vz = 0 \<rparr>
      else scaleVector v (1 / norm))"

text \<open>A 3x3 matrix is the list of its rows, read with \<open>matrix[i][j]\<close>.\<close>

definition rotationMatrixX :: "real \<Rightarrow> real list list" where
  "rotationMatrixX angleDeg =
     (let angle = angleDeg * DEG; c = cos angle; s = sin angle in
      [[1, 0, 0],
       [0, c, - s],
       [0, s, c]])"

definition rotationMatrixZ :: "real \<Rightarrow> real list list" where
  "rotationMatrixZ angleDeg =
     (let angle = angleDeg * DEG; c = cos angle; s = sin angle in
      [[c, - s, 0],
       [s, c, 0],
       [0, 0, 1]])"

definition applyMatrix3 :: "real list list \<Rightarrow> Vector3 \<Rightarrow> Vector3" where
  "applyMatrix3 matrix v =
     \<lparr> vx = matrix ! 0 ! 0 * vx v + matrix ! 0 ! 1 * vy v + matrix ! 0 ! 2 * vz v,
       vy = matrix ! 1 ! 0 * vx v + matrix ! 1 ! 1 * vy v + matrix ! 1 ! 2 * vz v,
       vz = matrix ! 2 ! 0 * vx v + matrix ! 2 ! 1 * vy v + matrix ! 2 ! 2 * vz v \<rparr>"

text \<open>The result \<open>null\<close> of the source is \<open>None\<close>.\<close>

definition lineSphereIntersection :: "Vector3 \<Rightarrow> Vector3 \<Rightarrow> real \<Rightarrow> Vector3 option" where
  "lineSphereIntersection origin direction radiusKm =
     (let b = 2 * dotVector origin direction;
          c = dotVector origin origin - radiusKm * radiusKm;
          discriminant = b * b - 4 * c
      in if discriminant < 0 then None
         else
           (let sqrtDisc = sqrt discriminant;
                t1 = (- b - sqrtDisc) / 2;
                t2 = (- b + sqrtDisc) / 2;
                candidates = filter (\<lambda>v. v > 0) [t1, t2]
            in if length candidates = 0 then None
               else
                 (let t = js_min_list candidates
                  in Some (addVector origin (scaleVector direction t)))))"

definition sphericalToCartesian :: "real \<Rightarrow> real \<Rightarrow> real \<Rightarrow> Vector3" where
  "sphericalToCartesian distance lonD latD =
     (let lon = lonD * DEG;
          lat = latD * DEG;
          cosLat = cos lat
      in \<lparr> vx = distance * cosLat * cos lon,
            vy = distance * cosLat * sin lon,
            vz = distance * sin lat \<rparr>)"

record GeoPoint =
  latDeg :: real
  lonDeg :: real

text \<open>
  In the next two functions the quotient \<open>vector.z / norm\<close> of a zero vector is NaN
  in JavaScript and 0 here; the callers pass vectors of positive length.
\<close>

definition vectorToLatLon :: "Vector3 \<Rightarrow> GeoPoint" where
  "vectorToLatLon v =
     (let norm = magnitudeVector v;
          latD = arcsin (clamp (vz v / norm) (-1) 1) * RAD;
          lonD = normalize180 (js_atan2 (vy v) (vx v) * RAD)
      in \<lparr> latDeg = latD, lonDeg = lonD \<rparr>)"

definition vectorToEarthLatLon :: "Vector3 \<Rightarrow> real \<Rightarrow> GeoPoint" where
  "vectorToEarthLatLon v gmstD =
     (let norm = magnitudeVector v;
          dec = arcsin (clamp (vz v / norm) (-1) 1) * RAD;
          ra = normalize360 (js_atan2 (vy v) (vx v) * RAD)
      in \<lparr> latDeg = dec, lonDeg = normalize180 (ra - gmstD) \<rparr>)"

definition angularSeparationFromVectors :: "Vector3 \<Rightarrow> Vector3 \<Rightarrow> real" where
  "angularSeparationFromVectors a b =
     (let aNorm = normalizeVector a;
          bNorm = normalizeVector b;
          cosSeparation = clamp (dotVector aNorm bNorm) (-1) 1
      in arccos cosSeparation * RAD)"

definition greatCircleDistanceKm :: "real \<Rightarrow> real \<Rightarrow> real \<Rightarrow> real \<Rightarrow> real" where
  "greatCircleDistanceKm latA lonA latB lonB =
     (let lat1 = latA * DEG;
          lat2 = latB * DEG;
          dLat = (latB - latA) * DEG;
          dLon = (lonB - lonA) * DEG;
          sinHalfLat = sin (dLat / 2);
          sinHalfLon = sin (dLon / 2);
          a = sinHalfLat * sinHalfLat + cos lat1 * cos lat2 * sinHalfLon * sinHalfLon;
          c = 2 * js_atan2 (sqrt a) (sqrt (1 - a))
      in EARTH_RADIUS_KM * c)"

section \<open>Classification and footprint radius\<close>

text \<open>
  The four result strings of \<open>classifyEclipse\<close> (Russian texts for "no solar eclipse",
  "total solar eclipse", "annular solar eclipse" and "partial solar eclipse").
\<close>

datatype EclipseClass = NoEclipse | TotalEclipse | AnnularEclipse | PartialEclipse

definition classifyEclipse :: "real \<Rightarrow> real \<Rightarrow> real \<Rightarrow> real \<Rightarrow> bool \<Rightarrow> EclipseClass" where
  "classifyEclipse bestSeparation sunRadiusDeg moonRadiusDeg dpt hits =
     (if dpt \<le> 0.0005 then NoEclipse
      else
        (let radiusDiff = \<bar>moonRadiusDeg - sunRadiusDeg\<bar> in
         if hits \<and> bestSeparation \<le> radiusDiff then
           (if moonRadiusDeg \<ge> sunRadiusDeg then TotalEclipse else AnnularEclipse)
         else if bestSeparation < sunRadiusDeg + moonRadiusDeg then PartialEclipse
         else NoEclipse))"

definition solveFootprintRadiusDeg :: "real \<Rightarrow> real \<Rightarrow> real" where
  "solveFootprintRadiusDeg parallaxDeg targetOffsetDeg =
     (if parallaxDeg \<le> 0 \<or> targetOffsetDeg \<le> 0 then 0
      else
        (let numerator = sin (targetOffsetDeg * DEG);
             denominator = sin (parallaxDeg * DEG)
         in if denominator \<le> 0 then 0
            else
              (let ratio = numerator / denominator
               in if ratio \<ge> 1 then 89.5
                  else arcsin (clamp ratio (-1) 1) * RAD)))"

section \<open>Ephemeris\<close>

record SunCoordinates =
  sun_lonDeg :: real
  distanceAu :: real
  meanAnomalyDeg :: real

definition sunEclipticCoordinates :: "real \<Rightarrow> SunCoordinates" where
  "sunEclipticCoordinates t =
     (let l0 = normalize360 (280.46646 + 36000.76983 * t + 0.0003032 * t * t);
          meanAnomalyD =
            normalize360 (357.52911 + 35999.05029 * t - 0.0001537 * t * t + (t * t * t) / 24490000);
          meanAnomaly = meanAnomalyD * DEG;
          equationOfCenter =
            (1.914602 - 0.004817 * t - 0.000014 * t * t) * sin meanAnomaly +
            (0.019993 - 0.000101 * t) * sin (2 * meanAnomaly) +
            0.000289 * sin (3 * meanAnomaly);
          lonD = normalize360 (l0 + equationOfCenter);
          distAu = 1.00014 - 0.01671 * cos meanAnomaly - 0.00014 * cos (2 * meanAnomaly)
      in \<lparr> sun_lonDeg = lonD, distanceAu = distAu, meanAnomalyDeg = meanAnomalyD \<rparr>)"

definition meanObliquityDeg :: "real \<Rightarrow> real" where
  "meanObliquityDeg t = 23.439291 - 0.0130042 * t - 0.00000016 * t * t + 0.000000504 * t * t * t"

definition julianCenturies :: "real \<Rightarrow> real" where
  "julianCenturies jd = (jd - 2451545.0) / 36525"

text \<open>
  A \<open>Date\<close> is its time value \<open>getTime()\<close> in milliseconds. The constructor
  \<open>new Date(ms)\<close> drops the fraction of a millisecond; a time value beyond
  8.64e15 ms in absolute value, which JavaScript turns into an invalid date, is outside
  the model.
\<close>

definition newDate :: "real \<Rightarrow> real" where
  "newDate ms = of_int (js_trunc ms)"

definition toJulianDate :: "real \<Rightarrow> real" where
  "toJulianDate date_ms = date_ms / 86400000 + 2440587.5"

definition greenwichSiderealDeg :: "real \<Rightarrow> real" where
  "greenwichSiderealDeg jd =
     (let t = julianCenturies jd;
          theta = 280.46061837 + 360.98564736629 * (jd - 2451545.0) + 0.000387933 * t * t
                  - (t * t * t) / 38710000
      in normalize360 theta)"

section \<open>Parameters and propagated state\<close>

record OrbitalParameters =
  ascendingNodeLon :: real
  sunEclipticLon :: real
  moonNodePhase :: real
  moonDistanceMode :: real
  moonAnomaly :: real
  observerLat :: real
  observerLon :: real
  observerTilt :: real
  earthRotation :: real

record SimulationState = OrbitalParameters +
  simHours :: real
  date :: real
  julianDay :: real
  gmst :: real
  descendingNodeLon :: real
  moonEclipticLon :: real

text \<open>
  \<open>deriveSimulationState(base, simHours, startDate)\<close>. The base is any object with
  the fields of the orbital parameters, a propagated state included; the result copies
  it (\<open>...base\<close>) and sets every other field of a state. \<open>startDate\<close> is the time
  value of the start instant.
\<close>

definition deriveSimulationState ::
  "'a OrbitalParameters_scheme \<Rightarrow> real \<Rightarrow> real \<Rightarrow> SimulationState" where
  "deriveSimulationState base simH startDate =
     (let dateV = newDate (startDate + simH * 3600000);
          julianD = toJulianDate dateV;
          gmstV = greenwichSiderealDeg julianD;
          earthRot = normalize360 (earthRotation base + simH * EARTH_ROT_DEG_PER_HOUR);
          sunLon = normalize360 (sunEclipticLon base + simH * SUN_ECLIPTIC_DEG_PER_HOUR);
          ascLon = normalize360 (ascendingNodeLon base + simH * NODE_REGRESSION_DEG_PER_HOUR);
          nodePhase = normalize180
            (moonNodePhase base + simH * (MOON_ECLIPTIC_DEG_PER_HOUR - NODE_REGRESSION_DEG_PER_HOUR));
          moonLon = normalize360 (ascLon + nodePhase);
          moonAnom = normalize360 (moonAnomaly base + simH * MOON_ANOMALY_DEG_PER_HOUR)
      in \<lparr> ascendingNodeLon = ascLon,
            sunEclipticLon = sunLon,
            moonNodePhase = nodePhase,
            moonDistanceMode = moonDistanceMode base,
            moonAnomaly = moonAnom,
            observerLat = observerLat base,
            observerLon = observerLon base,
            observerTilt = observerTilt base,
            earthRotation = earthRot,
            simHours = simH,
            date = dateV,
            julianDay = julianD,
            gmst = gmstV,
            descendingNodeLon = normalize360 (ascLon + 180),
            moonEclipticLon = moonLon \<rparr>)"

section \<open>Geometry engine\<close>

record BodyFrame =
  sunFromEarthKm :: Vector3
  moonFromEarthKm :: Vector3

record EclipticFrame = BodyFrame +
  earthFromSunKm :: Vector3
  moonFromSunKm :: Vector3
  nodeAscendingUnit :: Vector3
  nodeDescendingUnit :: Vector3
  moonOrbitNormalUnit :: Vector3

record GeometryFrames =
  ecliptic :: EclipticFrame
  equatorial :: BodyFrame
  earthFixed :: BodyFrame

text \<open>The fields of the \<open>options\<close> object are the eight arguments, in its order.\<close>

definition buildGeometryFrames ::
  "real \<Rightarrow> real \<Rightarrow> real \<Rightarrow> real \<Rightarrow> real \<Rightarrow> real \<Rightarrow> real \<Rightarrow> real \<Rightarrow> GeometryFrames" where
  "buildGeometryFrames correctedSunLon correctedMoonLon correctedMoonLat correctedNodeLon
       moonDistKm sunDistKm epsilonDeg gmstD =
     (let sunFromEarthEcliptic = sphericalToCartesian sunDistKm correctedSunLon 0;
          moonFromEarthEcliptic = sphericalToCartesian moonDistKm correctedMoonLon correctedMoonLat;
          earthFromSunEcliptic = scaleVector sunFromEarthEcliptic (-1);
          moonFromSunEcliptic = addVector earthFromSunEcliptic moonFromEarthEcliptic;
          eclipticToEquatorialMatrix = rotationMatrixX epsilonDeg;
          equatorialToEarthFixedMatrix = rotationMatrixZ (- gmstD);
          sunFromEarthEquatorial = applyMatrix3 eclipticToEquatorialMatrix sunFromEarthEcliptic;
          moonFromEarthEquatorial = applyMatrix3 eclipticToEquatorialMatrix moonFromEarthEcliptic;
          sunFromEarthFixed = applyMatrix3 equatorialToEarthFixedMatrix sunFromEarthEquatorial;
          moonFromEarthFixed = applyMatrix3 equatorialToEarthFixedMatrix moonFromEarthEquatorial;
          nodeAscendingEcliptic = sphericalToCartesian 1 correctedNodeLon 0;
          nodeDescendingEcliptic = scaleVector nodeAscendingEcliptic (-1);
          inclination = LUNAR_INCLINATION_DEG * DEG;
          omega = correctedNodeLon * DEG;
          moonOrbitNormalEcliptic = normalizeVector
            \<lparr> vx = sin inclination * sin omega,
              vy = - sin inclination * cos omega,
              vz = cos inclination \<rparr>
      in \<lparr> ecliptic =
              \<lparr> sunFromEarthKm = sunFromEarthEcliptic,
                moonFromEarthKm = moonFromEarthEcliptic,
                earthFromSunKm = earthFromSunEcliptic,
                moonFromSunKm = moonFromSunEcliptic,
                nodeAscendingUnit = nodeAscendingEcliptic,
                nodeDescendingUnit = nodeDescendingEcliptic,
                moonOrbitNormalUnit = moonOrbitNormalEcliptic \<rparr>,
            equatorial =
              \<lparr> sunFromEarthKm = sunFromEarthEquatorial,
                moonFromEarthKm = moonFromEarthEquatorial \<rparr>,
            earthFixed =
              \<lparr> sunFromEarthKm = sunFromEarthFixed,
                moonFromEarthKm = moonFromEarthFixed \<rparr> \<rparr>)"

record ShadowAxis = GeoPoint +
  hitsEarth :: bool

definition shadowAxisOnEarth :: "Vector3 \<Rightarrow> Vector3 \<Rightarrow> real \<Rightarrow> ShadowAxis" where
  "shadowAxisOnEarth sunVector moonVector gmstD =
     (let axisDirection = normalizeVector (scaleVector sunVector (-1));
          intersection = lineSphereIntersection moonVector axisDirection EARTH_RADIUS_KM;
          (surfacePoint, hits) =
            (case intersection of
               Some p \<Rightarrow> (p, True)
             | None \<Rightarrow>
                 (let tClosest = - dotVector moonVector axisDirection;
                      closestPoint = addVector moonVector (scaleVector axisDirection tClosest);
                      norm = magnitudeVector closestPoint
                  in if norm < 1 / 10 ^ 9 then
                       (let fallback = normalizeVector (scaleVector moonVector (-1))
                        in (scaleVector fallback EARTH_RADIUS_KM, False))
                     else (scaleVector closestPoint (EARTH_RADIUS_KM / norm), False)));
          geo = vectorToEarthLatLon surfacePoint gmstD
      in \<lparr> latDeg = latDeg geo, lonDeg = lonDeg geo, hitsEarth = hits \<rparr>)"

record SunView =
  offsetXDeg :: real
  offsetYDeg :: real
  earthAngularRadiusDeg :: real
  sv_moonAngularRadiusDeg :: real

definition sunViewProjection :: "Vector3 \<Rightarrow> Vector3 \<Rightarrow> SunView" where
  "sunViewProjection sunVector moonVector =
     (let earthFromSun = normalizeVector (scaleVector sunVector (-1));
          moonFromSun = normalizeVector (addVector moonVector (scaleVector sunVector (-1)));
          reference = (if \<bar>vz earthFromSun\<bar> > 0.93 then \<lparr> vx = 1, vy = 0, vz = 0 \<rparr>
                       else \<lparr> vx = 0, vy = 0, vz = 1 \<rparr>);
          axisX = crossVector reference earthFromSun;
          axisX = normalizeVector axisX;
          axisY = normalizeVector (crossVector earthFromSun axisX);
          xD = js_atan2 (dotVector moonFromSun axisX) (dotVector moonFromSun earthFromSun) * RAD;
          yD = js_atan2 (dotVector moonFromSun axisY) (dotVector moonFromSun earthFromSun) * RAD;
          moonDistanceFromSunKm = magnitudeVector (addVector moonVector (scaleVector sunVector (-1)));
          earthAngularRadiusD = arcsin (clamp (EARTH_RADIUS_KM / magnitudeVector sunVector) (-1) 1) * RAD;
          moonAngularRadiusD = arcsin (clamp (MOON_RADIUS_KM / moonDistanceFromSunKm) (-1) 1) * RAD
      in \<lparr> offsetXDeg = xD,
            offsetYDeg = yD,
            earthAngularRadiusDeg = earthAngularRadiusD,
            sv_moonAngularRadiusDeg = moonAngularRadiusD \<rparr>)"

text \<open>
  The object \<open>computeAstronomy\<close> returns. Six of its fields have the names of fields
  of the state; they carry the prefix \<open>astro_\<close> here.
\<close>

record Astronomy =
  gmstDeg :: real
  astro_sunEclipticLon :: real
  astro_moonEclipticLon :: real
  astro_moonNodePhase :: real
  astro_moonAnomaly :: real
  astro_ascendingNodeLon :: real
  astro_descendingNodeLon :: real
  moonDistanceKm :: real
  sunDistanceKm :: real
  sunToNode :: real
  moonToSun :: real
  sunAngularRadiusDeg :: real
  moonAngularRadiusDeg :: real
  moonEclipticLat :: real
  lunarInclinationDeg :: real
  earthAngularRadiusFromSunDeg :: real
  moonAngularRadiusFromSunDeg :: real
  sunViewOffsetXDeg :: real
  sunViewOffsetYDeg :: real
  separationDeg :: real
  bestSeparationDeg :: real
  depth :: real
  subSolarLat :: real
  subSolarLon :: real
  subLunarLat :: real
  subLunarLon :: real
  centralLat :: real
  centralLon :: real
  axisHitsEarth :: bool
  umbraRadiusDeg :: real
  penumbraRadiusDeg :: real
  geometry :: GeometryFrames
  eclipseClass :: EclipseClass

definition computeAstronomy :: "real \<Rightarrow> SimulationState \<Rightarrow> real \<Rightarrow> Astronomy" where
  "computeAstronomy jd controls rotationOffsetDeg =
     (let t = julianCenturies jd;
          epsilonDeg = meanObliquityDeg t;
          gmstDeg = normalize360 (greenwichSiderealDeg jd + rotationOffsetDeg);
          sun = sunEclipticCoordinates t;
          correctedSunLon = normalize360 (sunEclipticLon controls);
          correctedNodeLon = normalize360 (ascendingNodeLon controls);
          correctedMoonLon = normalize360 (moonEclipticLon controls);
          correctedMoonLat = clamp
            (LUNAR_INCLINATION_DEG * sin (normalize180 (correctedMoonLon - correctedNodeLon) * DEG))
            (-12) 12;
          moonDistanceKm = clamp
            (MOON_PERIGEE_KM + moonDistanceMode controls * (MOON_APOGEE_KM - MOON_PERIGEE_KM))
            MOON_PERIGEE_KM MOON_APOGEE_KM;
          sunDistanceKm = distanceAu sun * AU_KM;
          geometry = buildGeometryFrames correctedSunLon correctedMoonLon correctedMoonLat
            correctedNodeLon moonDistanceKm sunDistanceKm epsilonDeg gmstDeg;
          subSolarGeo = vectorToLatLon (sunFromEarthKm (earthFixed geometry));
          subLunarGeo = vectorToLatLon (moonFromEarthKm (earthFixed geometry));
          subSolarLat = latDeg subSolarGeo;
          subSolarLon = lonDeg subSolarGeo;
          subLunarLat = latDeg subLunarGeo;
          subLunarLon = lonDeg subLunarGeo;
          moonToSun = normalize180 (correctedMoonLon - correctedSunLon);
          moonNodePhase = normalize180 (correctedMoonLon - correctedNodeLon);
          sunToNode = normalize180 (correctedSunLon - correctedNodeLon);
          sunAngularRadiusDeg = arcsin (clamp (SUN_RADIUS_KM / sunDistanceKm) (-1) 1) * RAD;
          moonAngularRadiusDeg = arcsin (clamp (MOON_RADIUS_KM / moonDistanceKm) (-1) 1) * RAD;
          moonParallaxDeg = arcsin (clamp (EARTH_RADIUS_KM / moonDistanceKm) (-1) 1) * RAD;
          separationDeg = angularSeparationFromVectors
            (sunFromEarthKm (equatorial geometry)) (moonFromEarthKm (equatorial geometry));
          bestSeparationDeg = max 0 (separationDeg - moonParallaxDeg);
          depth = overlapFraction sunAngularRadiusDeg moonAngularRadiusDeg bestSeparationDeg;
          sunVector = sunFromEarthKm (equatorial geometry);
          moonVector = moonFromEarthKm (equatorial geometry);
          sunView = sunViewProjection sunVector moonVector;
          penumbraRadiusDeg =
            solveFootprintRadiusDeg moonParallaxDeg (sunAngularRadiusDeg + moonAngularRadiusDeg);
          coreRadiusDeg =
            solveFootprintRadiusDeg moonParallaxDeg \<bar>sunAngularRadiusDeg - moonAngularRadiusDeg\<bar>;
          penumbraRadiusDeg = (if depth \<le> 0 then 0 else penumbraRadiusDeg);
          coreRadiusDeg = (if depth \<le> 0 then 0 else coreRadiusDeg);
          shadowAxis = shadowAxisOnEarth sunVector moonVector gmstDeg
      in \<lparr> gmstDeg = gmstDeg,
            astro_sunEclipticLon = correctedSunLon,
            astro_moonEclipticLon = correctedMoonLon,
            astro_moonNodePhase = moonNodePhase,
            astro_moonAnomaly = normalize360 (moonAnomaly controls),
            astro_ascendingNodeLon = correctedNodeLon,
            astro_descendingNodeLon = normalize360 (correctedNodeLon + 180),
            moonDistanceKm = moonDistanceKm,
            sunDistanceKm = sunDistanceKm,
            sunToNode = sunToNode,
            moonToSun = moonToSun,
            sunAngularRadiusDeg = sunAngularRadiusDeg,
            moonAngularRadiusDeg = moonAngularRadiusDeg,
            moonEclipticLat = correctedMoonLat,
            lunarInclinationDeg = LUNAR_INCLINATION_DEG,
            earthAngularRadiusFromSunDeg = earthAngularRadiusDeg sunView,
            moonAngularRadiusFromSunDeg = sv_moonAngularRadiusDeg sunView,
            sunViewOffsetXDeg = offsetXDeg sunView,
            sunViewOffsetYDeg = offsetYDeg sunView,
            separationDeg = separationDeg,
            bestSeparationDeg = bestSeparationDeg,
            depth = depth,
            subSolarLat = subSolarLat,
            subSolarLon = subSolarLon,
            subLunarLat = subLunarLat,
            subLunarLon = subLunarLon,
            centralLat = latDeg shadowAxis,
            centralLon = lonDeg shadowAxis,
            axisHitsEarth = hitsEarth shadowAxis,
            umbraRadiusDeg = (if hitsEarth shadowAxis then coreRadiusDeg else 0),
            penumbraRadiusDeg = penumbraRadiusDeg,
            geometry = geometry,
            eclipseClass = classifyEclipse bestSeparationDeg sunAngularRadiusDeg
              moonAngularRadiusDeg depth (hitsEarth shadowAxis) \<rparr>)"

text \<open>
  The locals of \<open>computeAstronomy\<close> as functions of its arguments, for the
  statements below: the result does not carry the Moon's horizontal parallax, and the
  vectors and the separation do not depend on the rotation offset.
\<close>

definition ca_sunDistanceKm :: "real \<Rightarrow> real" where
  "ca_sunDistanceKm jd = distanceAu (sunEclipticCoordinates (julianCenturies jd)) * AU_KM"

definition ca_moonDistanceKm :: "SimulationState \<Rightarrow> real" where
  "ca_moonDistanceKm controls =
     clamp (MOON_PERIGEE_KM + moonDistanceMode controls * (MOON_APOGEE_KM - MOON_PERIGEE_KM))
       MOON_PERIGEE_KM MOON_APOGEE_KM"

definition ca_sunAngularRadiusDeg :: "real \<Rightarrow> real" where
  "ca_sunAngularRadiusDeg jd = arcsin (clamp (SUN_RADIUS_KM / ca_sunDistanceKm jd) (-1) 1) * RAD"

definition ca_moonAngularRadiusDeg :: "SimulationState \<Rightarrow> real" where
  "ca_moonAngularRadiusDeg controls =
     arcsin (clamp (MOON_RADIUS_KM / ca_moonDistanceKm controls) (-1) 1) * RAD"

definition ca_moonParallaxDeg :: "SimulationState \<Rightarrow> real" where
  "ca_moonParallaxDeg controls =
     arcsin (clamp (EARTH_RADIUS_KM / ca_moonDistanceKm controls) (-1) 1) * RAD"

definition ca_correctedMoonLat :: "SimulationState \<Rightarrow> real" where
  "ca_correctedMoonLat controls =
     clamp (LUNAR_INCLINATION_DEG *
        sin (normalize180 (normalize360 (moonEclipticLon controls)
              - normalize360 (ascendingNodeLon controls)) * DEG))
       (-12) 12"

definition ca_sunVector :: "real \<Rightarrow> SimulationState \<Rightarrow> Vector3" where
  "ca_sunVector jd controls =
     applyMatrix3 (rotationMatrixX (meanObliquityDeg (julianCenturies jd)))
       (sphericalToCartesian (ca_sunDistanceKm jd) (normalize360 (sunEclipticLon controls)) 0)"

definition ca_moonVector :: "real \<Rightarrow> SimulationState \<Rightarrow> Vector3" where
  "ca_moonVector jd controls =
     applyMatrix3 (rotationMatrixX (meanObliquityDeg (julianCenturies jd)))
       (sphericalToCartesian (ca_moonDistanceKm controls)
          (normalize360 (moonEclipticLon controls)) (ca_correctedMoonLat controls))"

definition ca_bestSeparationDeg :: "real \<Rightarrow> SimulationState \<Rightarrow> real" where
  "ca_bestSeparationDeg jd controls =
     max 0 (angularSeparationFromVectors (ca_sunVector jd controls) (ca_moonVector jd controls)
            - ca_moonParallaxDeg controls)"

definition ca_depth :: "real \<Rightarrow> SimulationState \<Rightarrow> real" where
  "ca_depth jd controls =
     overlapFraction (ca_sunAngularRadiusDeg jd) (ca_moonAngularRadiusDeg controls)
       (ca_bestSeparationDeg jd controls)"

definition ca_shadowAxis :: "real \<Rightarrow> SimulationState \<Rightarrow> real \<Rightarrow> ShadowAxis" where
  "ca_shadowAxis jd controls rotationOffsetDeg =
     shadowAxisOnEarth (ca_sunVector jd controls) (ca_moonVector jd controls)
       (normalize360 (greenwichSiderealDeg jd + rotationOffsetDeg))"


section \<open>Ground track and derived model\<close>

record TrackPoint =
  lon :: real
  lat :: real

text \<open>
  One turn of the loop of \<open>buildGroundTrack\<close>: the controls propagated by \<open>hour\<close>
  hours (the object spread with four fields replaced, then \<open>moonEclipticLon\<close> set)
  and the astronomy of that sample.
\<close>

definition sampleControls :: "SimulationState \<Rightarrow> real \<Rightarrow> SimulationState" where
  "sampleControls controls hour =
     (let sc = controls
            \<lparr> sunEclipticLon :=
                normalize360 (sunEclipticLon controls + hour * SUN_ECLIPTIC_DEG_PER_HOUR),
              ascendingNodeLon :=
                normalize360 (ascendingNodeLon controls + hour * NODE_REGRESSION_DEG_PER_HOUR),
              moonNodePhase :=
                normalize180 (moonNodePhase controls
                  + hour * (MOON_ECLIPTIC_DEG_PER_HOUR - NODE_REGRESSION_DEG_PER_HOUR)),
              moonAnomaly :=
                normalize360 (moonAnomaly controls + hour * MOON_ANOMALY_DEG_PER_HOUR) \<rparr>
      in sc \<lparr> moonEclipticLon := normalize360 (ascendingNodeLon sc + moonNodePhase sc) \<rparr>)"

definition trackSample :: "real \<Rightarrow> SimulationState \<Rightarrow> real \<Rightarrow> real \<Rightarrow> Astronomy" where
  "trackSample jd controls rotationOffsetDeg hour =
     computeAstronomy (jd + hour / 24) (sampleControls controls hour) rotationOffsetDeg"

text \<open>
  The loop \<open>for (let hour = -6; hour <= 6.001; hour += 0.5)\<close>, from its state
  \<open>hour\<close> and the points pushed so far.
\<close>

function buildGroundTrack_loop ::
  "real \<Rightarrow> SimulationState \<Rightarrow> real \<Rightarrow> real \<Rightarrow> TrackPoint list \<Rightarrow> TrackPoint list" where
  "buildGroundTrack_loop jd controls rotationOffsetDeg hour points =
     (if hour \<le> 6.001 then
        (let sample = trackSample jd controls rotationOffsetDeg hour;
             points = (if depth sample > 0.001
                       then points @ [\<lparr> lon = centralLon sample, lat = centralLat sample \<rparr>]
                       else points)
         in buildGroundTrack_loop jd controls rotationOffsetDeg (hour + 0.5) points)
      else points)"
  by pat_completeness auto
termination
proof (relation "measure (\<lambda>(jd, controls, rot, hour, points). nat \<lceil>(7 - hour) * 2\<rceil>)")
  show "wf (measure (\<lambda>(jd, controls, rot, hour, points). nat \<lceil>(7 - hour) * 2\<rceil>))"
    by simp
next
  fix jd :: real and controls :: SimulationState and rotationOffsetDeg hour :: real
    and points :: "TrackPoint list" and sample :: Astronomy and pts :: "TrackPoint list"
  assume h: "hour \<le> 6001 / 10 ^ 3"
  have "\<lceil>(7 - (hour + 5 / 10)) * 2\<rceil> = \<lceil>(7 - hour) * 2\<rceil> - 1"
    by (simp add: algebra_simps ceiling_diff_one [symmetric])
  moreover have "0 < \<lceil>(7 - hour) * 2\<rceil>"
    using h by (simp add: ceiling_less_iff [symmetric] less_ceiling_iff)
  ultimately show
    "((jd, controls, rotationOffsetDeg, hour + 5 / 10, pts),
      (jd, controls, rotationOffsetDeg, hour, points))
       \<in> measure (\<lambda>(jd, controls, rot, hour, points). nat \<lceil>(7 - hour) * 2\<rceil>)"
    by simp
qed

definition buildGroundTrack :: "real \<Rightarrow> SimulationState \<Rightarrow> real \<Rightarrow> TrackPoint list" where
  "buildGroundTrack jd controls rotationOffsetDeg =
     buildGroundTrack_loop jd controls rotationOffsetDeg (-6) []"

text \<open>
  The object \<open>deriveModel\<close> returns is the spread of the state, then of the
  astronomy, then three more fields. A field of both is the astronomy's
  (\<open>sunEclipticLon\<close>, \<open>moonEclipticLon\<close>, \<open>moonNodePhase\<close>, \<open>moonAnomaly\<close>,
  \<open>ascendingNodeLon\<close>, \<open>descendingNodeLon\<close>); every other field of the state
  (\<open>earthRotation\<close> among them) is read through \<open>model_state\<close>.
\<close>

record EclipseModel =
  model_state :: SimulationState
  model_astro :: Astronomy
  track :: "TrackPoint list"
  observerToShadowKm :: real
  shadowRadiusDeg :: real

definition deriveModel :: "SimulationState \<Rightarrow> EclipseModel" where
  "deriveModel state =
     (let rotationOffsetDeg = normalize180 (earthRotation state - gmst state);
          astro = computeAstronomy (julianDay state) state rotationOffsetDeg;
          trk = buildGroundTrack (julianDay state) state rotationOffsetDeg;
          observerToShadow =
            greatCircleDistanceKm (observerLat state) (observerLon state)
              (centralLat astro) (centralLon astro)
      in \<lparr> model_state = state,
            model_astro = astro,
            track = trk,
            observerToShadowKm = observerToShadow,
            shadowRadiusDeg = penumbraRadiusDeg astro \<rparr>)"

section \<open>Search for the next local eclipse\<close>

text \<open>
  The three statements the search repeats at every evaluation: the state at \<open>t\<close>, its
  rotation offset, and the astronomy.
\<close>

definition astroAt :: "'a OrbitalParameters_scheme \<Rightarrow> real \<Rightarrow> real \<Rightarrow> Astronomy" where
  "astroAt base startDate t =
     (let state = deriveSimulationState base t startDate;
          rotationOffsetDeg = normalize180 (earthRotation state - gmst state)
      in computeAstronomy (julianDay state) state rotationOffsetDeg)"

text \<open>The refinement loop \<open>for (let j = 0; j < 3; j++)\<close>, from its state \<open>j\<close>, \<open>t\<close>.\<close>

function refine_loop :: "'a OrbitalParameters_scheme \<Rightarrow> real \<Rightarrow> nat \<Rightarrow> real \<Rightarrow> real" where
  "refine_loop base startDate j t =
     (if j < 3 then
        (let astro = astroAt base startDate t;
             t = t - moonToSun astro / (MOON_ECLIPTIC_DEG_PER_HOUR - SUN_ECLIPTIC_DEG_PER_HOUR)
         in refine_loop base startDate (j + 1) t)
      else t)"
  by pat_completeness auto
termination
  by (relation "measure (\<lambda>(base, startDate, j, t). 3 - j)") auto

text \<open>
  The scan \<open>for (let hour = -6; hour <= 6; hour += 0.1)\<close>, from \<open>hour\<close> and the
  three variables it updates. \<open>minDistance\<close> starts as \<open>Infinity\<close>, here \<open>None\<close>:
  every distance is below it. \<open>x || 0\<close> of a real \<open>x\<close> is \<open>x\<close>.
\<close>

record ScanState =
  minDistance :: "real option"
  bestT :: real
  found :: bool

function scan_loop ::
  "'a OrbitalParameters_scheme \<Rightarrow> real \<Rightarrow> real \<Rightarrow> real \<Rightarrow> ScanState \<Rightarrow> ScanState" where
  "scan_loop base startDate t hour s =
     (if hour \<le> 6 then
        (let scanT = t + hour;
             scanState = deriveSimulationState base scanT startDate;
             scanRotationOffsetDeg = normalize180 (earthRotation scanState - gmst scanState);
             scanAstro = computeAstronomy (julianDay scanState) scanState scanRotationOffsetDeg;
             observerToShadow =
               greatCircleDistanceKm (observerLat scanState) (observerLon scanState)
                 (centralLat scanAstro) (centralLon scanAstro);
             penumbraRadiusKm =
               6371.0 * max 0 (if penumbraRadiusDeg scanAstro = 0 then 0
                               else penumbraRadiusDeg scanAstro) * DEG;
             s = (if observerToShadow \<le> penumbraRadiusKm + 25 then
                    (let s = s \<lparr> found := True \<rparr>
                     in if (case minDistance s of None \<Rightarrow> True | Some m \<Rightarrow> observerToShadow < m)
                        then s \<lparr> minDistance := Some observerToShadow, bestT := scanT \<rparr>
                        else s)
                  else s)
         in scan_loop base startDate t (hour + 0.1) s)
      else s)"
  by pat_completeness auto
termination
proof (relation "measure (\<lambda>(base, startDate, t, hour, s). nat \<lceil>(7 - hour) * 10\<rceil>)")
  show "wf (measure (\<lambda>(base, startDate, t, hour, s). nat \<lceil>(7 - hour) * 10\<rceil>))"
    by simp
next
  fix base :: "'a OrbitalParameters_scheme" and startDate t hour :: real and s s' :: ScanState
  assume h: "hour \<le> 6"
  have "\<lceil>(7 - (hour + 1 / 10)) * 10\<rceil> = \<lceil>(7 - hour) * 10\<rceil> - 1"
    by (simp add: algebra_simps ceiling_diff_one [symmetric])
  moreover have "0 < \<lceil>(7 - hour) * 10\<rceil>"
    using h by (simp add: less_ceiling_iff)
  ultimately show
    "((base, startDate, t, hour + 1 / 10, s'), (base, startDate, t, hour, s))
       \<in> measure (\<lambda>(base, startDate, t, hour, s). nat \<lceil>(7 - hour) * 10\<rceil>)"
    by simp
qed

text \<open>
  The body of the outer loop up to the test on the scan: from the \<open>t\<close> of the
  iteration, the refined new-moon instant and, when the scan found the eclipse
  visible, its best instant.
\<close>

definition newMoonAfter :: "'a OrbitalParameters_scheme \<Rightarrow> real \<Rightarrow> real \<Rightarrow> real" where
  "newMoonAfter base startDate t =
     (let astro = astroAt base startDate t;
          phase = moonToSun astro;
          phase = (if phase < 0 then phase + 360 else phase);
          hoursToNewMoon = (360 - phase) / (MOON_ECLIPTIC_DEG_PER_HOUR - SUN_ECLIPTIC_DEG_PER_HOUR);
          t = t + hoursToNewMoon
      in refine_loop base startDate 0 t)"

definition localEclipseAt :: "'a OrbitalParameters_scheme \<Rightarrow> real \<Rightarrow> real \<Rightarrow> real option" where
  "localEclipseAt base startDate t =
     (let astro = astroAt base startDate t in
      if depth astro > 0 then
        (let s = scan_loop base startDate t (-6)
                   \<lparr> minDistance = None, bestT = t, found = False \<rparr>
         in if found s then Some (bestT s) else None)
      else None)"

text \<open>
  The outer loop \<open>for (let i = 0; i < 10000; i++)\<close>, from its state \<open>i\<close>, \<open>t\<close>.
  The result is what the function returns from there (\<open>None\<close> is \<open>null\<close>), paired
  with the number of times the body of the loop has run when it returns.
\<close>

function search_loop ::
  "'a OrbitalParameters_scheme \<Rightarrow> real \<Rightarrow> nat \<Rightarrow> real \<Rightarrow> real option \<times> nat" where
  "search_loop base startDate i t =
     (if i < 10000 then
        (let t = newMoonAfter base startDate t in
         case localEclipseAt base startDate t of
           Some best \<Rightarrow> (Some best, i + 1)
         | None \<Rightarrow> search_loop base startDate (i + 1) (t + 24))
      else (None, i))"
  by pat_completeness auto
termination
  by (relation "measure (\<lambda>(base, startDate, i, t). 10000 - i)") auto

definition findNextLocalEclipse ::
  "'a OrbitalParameters_scheme \<Rightarrow> real \<Rightarrow> real \<Rightarrow> real option" where
  "findNextLocalEclipse base currentSimHours startDate =
     fst (search_loop base startDate 0 (currentSimHours + 24))"

definition findNextLocalEclipse_iterations ::
  "'a OrbitalParameters_scheme \<Rightarrow> real \<Rightarrow> real \<Rightarrow> nat" where
  "findNextLocalEclipse_iterations base currentSimHours startDate =
     snd (search_loop base startDate 0 (currentSimHours + 24))"

text \<open>
  The value of \<open>t\<close> at the head of the outer loop after \<open>k\<close> further turns that
  did not return: each turn moves to the refined new moon and steps 24 hours past it.
\<close>

fun search_t :: "'a OrbitalParameters_scheme \<Rightarrow> real \<Rightarrow> real \<Rightarrow> nat \<Rightarrow> real" where
  "search_t base startDate t 0 = t"
| "search_t base startDate t (Suc k) =
     newMoonAfter base startDate (search_t base startDate t k) + 24"

declare buildGroundTrack_loop.simps [simp del] refine_loop.simps [simp del]
  scan_loop.simps [simp del] search_loop.simps [simp del]

section \<open>Auxiliary notions and concrete configurations\<close>

text \<open>Two angles that differ by a whole number of turns.\<close>

definition cong360 :: "real \<Rightarrow> real \<Rightarrow> bool" where
  "cong360 a b \<longleftrightarrow> (\<exists>k::int. a = b + 360 * of_int k)"

text \<open>
  A central eclipse: Sun, Moon and node at longitude 0 and the Moon at perigee, as
  parameters and as the state propagated from them by 0 hours.
\<close>

definition newMoonParams :: OrbitalParameters where
  "newMoonParams =
     \<lparr> ascendingNodeLon = 0, sunEclipticLon = 0, moonNodePhase = 0, moonDistanceMode = 0,
       moonAnomaly = 0, observerLat = 0, observerLon = 0, observerTilt = 0,
       earthRotation = 0 \<rparr>"

definition newMoonState :: SimulationState where
  "newMoonState = deriveSimulationState newMoonParams 0 0"

text \<open>No eclipse: the Moon opposite the Sun, on the node.\<close>

definition fullMoonParams :: OrbitalParameters where
  "fullMoonParams =
     \<lparr> ascendingNodeLon = 180, sunEclipticLon = 0, moonNodePhase = 0, moonDistanceMode = 0,
       moonAnomaly = 0, observerLat = 0, observerLon = 0, observerTilt = 0,
       earthRotation = 0 \<rparr>"

definition fullMoonState :: SimulationState where
  "fullMoonState = deriveSimulationState fullMoonParams 0 0"

text \<open>
  Parameters at half a synodic month before a new moon that falls a quarter turn from
  the node: the Moon then passes 5.145 degrees from the Sun.
\<close>

definition droughtParams :: OrbitalParameters where
  "droughtParams =
     \<lparr> ascendingNodeLon = 0,
       sunEclipticLon = 270 - 180 / (MOON_ECLIPTIC_DEG_PER_HOUR - SUN_ECLIPTIC_DEG_PER_HOUR)
                              * (MOON_ECLIPTIC_DEG_PER_HOUR - NODE_REGRESSION_DEG_PER_HOUR),
       moonNodePhase = 90 - 180 / (MOON_ECLIPTIC_DEG_PER_HOUR - SUN_ECLIPTIC_DEG_PER_HOUR)
                             * (MOON_ECLIPTIC_DEG_PER_HOUR - NODE_REGRESSION_DEG_PER_HOUR),
       moonDistanceMode = 0, moonAnomaly = 0, observerLat = 0, observerLon = 0,
       observerTilt = 0, earthRotation = 0 \<rparr>"

text \<open>The instant of that new moon, in hours from the parameters.\<close>

definition droughtNewMoon :: real where
  "droughtNewMoon = 180 / (MOON_ECLIPTIC_DEG_PER_HOUR - SUN_ECLIPTIC_DEG_PER_HOUR)"

text \<open>
  Parameters in binary64 whose Earth rotation is the Number nearest to 0.1 degrees,
  for a propagation forth and back.
\<close>

definition roundTripParams :: OrbitalParameters_double where
  "roundTripParams =
     \<lparr> ascendingNodeLon_d = Num 0,
       sunEclipticLon_d = Num 0,
       moonNodePhase_d = Num 0,
       moonDistanceMode_d = Num 0,
       moonAnomaly_d = Num 0,
       observerLat_d = Num 55,
       observerLon_d = Num 37,
       observerTilt_d = Num 18,
       earthRotation_d = to_number 0.1 \<rparr>"

section \<open>Properties of the helpers\<close>

lemma clamp_bounds: "lo \<le> hi \<Longrightarrow> lo \<le> clamp v lo hi \<and> clamp v lo hi \<le> hi"
  by (simp add: clamp_def)

lemma clamp_01: "0 \<le> clamp v 0 1 \<and> clamp v 0 1 \<le> 1"
  by (simp add: clamp_def)

lemma overlapFraction_range: "0 \<le> overlapFraction r1 r2 d \<and> overlapFraction r1 r2 d \<le> 1"
  unfolding overlapFraction_def Let_def
  using clamp_01 by (simp del: mult_eq_0_iff)

section \<open>Boundary values of the disk overlap\<close>

text \<open>
  Claim C5, as amended. For non-negative radii, \<open>overlapFraction\<close> returns exactly 0
  when the separation equals the sum of the radii, and exactly 1 when the Moon's disk
  is at least as large as the Sun's, the separation is 0 and the radii are not both 0.
  (When both radii and the separation are 0 the first test of the function wins and
  the result is 0.)
\<close>

theorem overlapFraction_boundary:
  assumes "0 \<le> r1" "0 \<le> r2"
  shows "(d = r1 + r2 \<longrightarrow> overlapFraction r1 r2 d = 0) \<and>
         (r2 \<ge> r1 \<and> d = 0 \<and> 0 < r1 + r2 \<longrightarrow> overlapFraction r1 r2 d = 1)"
  using assms by (auto simp add: overlapFraction_def)

theorem overlapFraction_boundary_witness:
  "(0::real) \<le> 1 \<and> (0::real) \<le> 2 \<and> (3::real) = 1 + 2 \<and> overlapFraction 1 2 3 = 0 \<and>
   (2::real) \<ge> 1 \<and> (0::real) < 1 + 2 \<and> overlapFraction 1 2 0 = 1"
  using overlapFraction_boundary [of 1 2 3] overlapFraction_boundary [of 1 2 0] by simp

text \<open>
  The claim as the specification states it fails in the corner it names: with both
  radii and the separation 0, both conditions apply and the function returns 0, not 1.
\<close>

theorem overlapFraction_corner_counterexample:
  "(0::real) \<ge> 0 \<and> (0::real) = 0 + 0 \<and> overlapFraction 0 0 0 = 0 \<and> overlapFraction 0 0 0 \<noteq> 1"
  by (simp add: overlapFraction_def)

section \<open>Remainder and normalisation of angles\<close>

lemma js_mod_360_nonneg:
  assumes "0 \<le> a"
  shows "0 \<le> js_mod a 360 \<and> js_mod a 360 < 360"
proof -
  have "of_int \<lfloor>a / 360\<rfloor> \<le> a / 360" "a / 360 < of_int \<lfloor>a / 360\<rfloor> + 1"
    by linarith+
  then show ?thesis
    using assms unfolding js_mod_def js_trunc_def by (intro conjI; simp; linarith)
qed

lemma js_mod_360_neg:
  assumes "a < 0"
  shows "-360 < js_mod a 360 \<and> js_mod a 360 \<le> 0"
proof -
  have "a / 360 \<le> of_int \<lceil>a / 360\<rceil>" "of_int \<lceil>a / 360\<rceil> < a / 360 + 1"
    by linarith+
  then show ?thesis
    using assms unfolding js_mod_def js_trunc_def by (intro conjI; simp; linarith)
qed

lemma js_mod_360_cong: "\<exists>k::int. js_mod a 360 = a + 360 * of_int k"
proof
  show "js_mod a 360 = a + 360 * of_int (- js_trunc (a / 360))"
    by (simp add: js_mod_def)
qed

lemma normalize360_range: "0 \<le> normalize360 a \<and> normalize360 a < 360"
  using js_mod_360_nonneg [of a] js_mod_360_neg [of a]
  by (cases "0 \<le> a") (auto simp add: normalize360_def Let_def)

lemma normalize180_range: "-180 \<le> normalize180 a \<and> normalize180 a \<le> 180"
  using js_mod_360_nonneg [of a] js_mod_360_neg [of a]
  by (cases "0 \<le> a") (auto simp add: normalize180_def Let_def)

lemma normalize360_cong: "\<exists>k::int. normalize360 a = a + 360 * of_int k"
proof -
  obtain k :: int where k: "js_mod a 360 = a + 360 * of_int k"
    using js_mod_360_cong by blast
  show ?thesis
  proof (cases "js_mod a 360 < 0")
    case True
    then have "normalize360 a = a + 360 * of_int (k + 1)"
      using k by (simp add: normalize360_def Let_def)
    then show ?thesis by blast
  next
    case False
    then have "normalize360 a = a + 360 * of_int k"
      using k by (simp add: normalize360_def Let_def)
    then show ?thesis by blast
  qed
qed

lemma normalize180_cong: "\<exists>k::int. normalize180 a = a + 360 * of_int k"
proof -
  obtain k :: int where k: "js_mod a 360 = a + 360 * of_int k"
    using js_mod_360_cong by blast
  consider (hi) "js_mod a 360 > 180" | (lo) "js_mod a 360 < -180"
    | (mid) "\<not> js_mod a 360 > 180" "\<not> js_mod a 360 < -180"
    by linarith
  then show ?thesis
  proof cases
    case hi
    then have "normalize180 a = a + 360 * of_int (k - 1)"
      using k by (simp add: normalize180_def Let_def)
    then show ?thesis by blast
  next
    case lo
    then have "normalize180 a = a + 360 * of_int (k + 1)"
      using k by (simp add: normalize180_def Let_def)
    then show ?thesis by blast
  next
    case mid
    then have "normalize180 a = a + 360 * of_int k"
      using k by (simp add: normalize180_def Let_def)
    then show ?thesis by blast
  qed
qed

lemma js_trunc_small: "-1 < x \<Longrightarrow> x < 1 \<Longrightarrow> js_trunc x = 0"
  unfolding js_trunc_def by (simp add: floor_eq_iff ceiling_eq_iff)

lemma js_mod_360_small: "-360 < a \<Longrightarrow> a < 360 \<Longrightarrow> js_mod a 360 = a"
  using js_trunc_small [of "a / 360"] by (simp add: js_mod_def)


lemma normalize360_id: "0 \<le> a \<Longrightarrow> a < 360 \<Longrightarrow> normalize360 a = a"
  using js_mod_360_small [of a] by (simp add: normalize360_def Let_def)

lemma normalize180_id: "-180 \<le> a \<Longrightarrow> a \<le> 180 \<Longrightarrow> normalize180 a = a"
  using js_mod_360_small [of a] by (simp add: normalize180_def Let_def)

section \<open>Longitudes of the model\<close>








lemma model_astro_deriveModel:
  "model_astro (deriveModel st) =
     computeAstronomy (julianDay st) st (normalize180 (earthRotation st - gmst st))"
  by (simp add: deriveModel_def Let_def)

lemma earthRotation_derive:
  "earthRotation (deriveSimulationState base h start)
     = normalize360 (earthRotation base + h * EARTH_ROT_DEG_PER_HOUR)"
  by (simp add: deriveSimulationState_def Let_def)

section \<open>The fields of a propagated state\<close>

lemma derive_fields:
  fixes base :: "'a OrbitalParameters_scheme"
  shows
  "earthRotation (deriveSimulationState base h start)
     = normalize360 (earthRotation base + h * EARTH_ROT_DEG_PER_HOUR)"
  "sunEclipticLon (deriveSimulationState base h start)
     = normalize360 (sunEclipticLon base + h * SUN_ECLIPTIC_DEG_PER_HOUR)"
  "ascendingNodeLon (deriveSimulationState base h start)
     = normalize360 (ascendingNodeLon base + h * NODE_REGRESSION_DEG_PER_HOUR)"
  "moonNodePhase (deriveSimulationState base h start)
     = normalize180 (moonNodePhase base
         + h * (MOON_ECLIPTIC_DEG_PER_HOUR - NODE_REGRESSION_DEG_PER_HOUR))"
  "moonAnomaly (deriveSimulationState base h start)
     = normalize360 (moonAnomaly base + h * MOON_ANOMALY_DEG_PER_HOUR)"
  "moonEclipticLon (deriveSimulationState base h start)
     = normalize360 (ascendingNodeLon (deriveSimulationState base h start)
         + moonNodePhase (deriveSimulationState base h start))"
  "moonDistanceMode (deriveSimulationState base h start) = moonDistanceMode base"
  "julianDay (deriveSimulationState base h start)
     = toJulianDate (newDate (start + h * 3600000))"
  by (simp_all add: deriveSimulationState_def Let_def)

section \<open>Bounds on distances and angular radii\<close>

lemma RAD_DEG: "x * RAD * DEG = x"
  by (simp add: RAD_def DEG_def)

lemma RAD_pos: "0 < RAD"
  by (simp add: RAD_def)

lemma clamp_id: "lo \<le> v \<Longrightarrow> v \<le> hi \<Longrightarrow> clamp v lo hi = v"
  by (simp add: clamp_def)

lemma distanceAu_lower: "98329 / 100000 \<le> distanceAu (sunEclipticCoordinates t)"
proof -
  have "98329 / 100000 \<le> 1.00014 - 0.01671 * cos a - 0.00014 * cos b" for a b :: real
    apply simp
    using cos_le_one [of a] cos_le_one [of b] by linarith
  then show ?thesis
    unfolding sunEclipticCoordinates_def Let_def
    by (simp only: SunCoordinates.select_convs)
qed

lemma sunDistance_lower: "147098000 \<le> ca_sunDistanceKm jd"
proof -
  have "147098000 \<le> (98329 / 100000) * AU_KM"
    by (simp add: AU_KM_def)
  also have "\<dots> \<le> ca_sunDistanceKm jd"
    unfolding ca_sunDistanceKm_def
    by (rule mult_right_mono [OF distanceAu_lower]) (simp add: AU_KM_def)
  finally show ?thesis .
qed

lemma moonDistance_range: "363300 \<le> ca_moonDistanceKm c \<and> ca_moonDistanceKm c \<le> 405500"
  using clamp_bounds [of MOON_PERIGEE_KM MOON_APOGEE_KM]
  by (simp add: ca_moonDistanceKm_def MOON_PERIGEE_KM_def MOON_APOGEE_KM_def)

text \<open>The sines of the three angles: the quotients, which the clamp leaves as they are.\<close>

lemma sun_sine:
  "clamp (SUN_RADIUS_KM / ca_sunDistanceKm jd) (-1) 1 = SUN_RADIUS_KM / ca_sunDistanceKm jd \<and>
   0 < SUN_RADIUS_KM / ca_sunDistanceKm jd \<and> SUN_RADIUS_KM / ca_sunDistanceKm jd \<le> 473 / 100000"
proof -
  have d: "147098000 \<le> ca_sunDistanceKm jd"
    by (rule sunDistance_lower)
  then have pos: "0 < ca_sunDistanceKm jd" by linarith
  have "695700 \<le> 473 / 100000 * ca_sunDistanceKm jd"
    using d by linarith
  then have up: "SUN_RADIUS_KM / ca_sunDistanceKm jd \<le> 473 / 100000"
    unfolding SUN_RADIUS_KM_def using pos by (simp add: pos_divide_le_eq)
  have lo: "0 < SUN_RADIUS_KM / ca_sunDistanceKm jd"
    using pos by (simp add: SUN_RADIUS_KM_def)
  have "clamp (SUN_RADIUS_KM / ca_sunDistanceKm jd) (-1) 1 = SUN_RADIUS_KM / ca_sunDistanceKm jd"
    by (rule clamp_id) (use up lo in linarith)+
  with up lo show ?thesis by blast
qed

lemma moon_sine:
  "clamp (MOON_RADIUS_KM / ca_moonDistanceKm c) (-1) 1 = MOON_RADIUS_KM / ca_moonDistanceKm c \<and>
   0 < MOON_RADIUS_KM / ca_moonDistanceKm c \<and> MOON_RADIUS_KM / ca_moonDistanceKm c \<le> 479 / 100000"
proof -
  have d: "363300 \<le> ca_moonDistanceKm c"
    using moonDistance_range by simp
  then have pos: "0 < ca_moonDistanceKm c" by linarith
  have "17374 / 10 \<le> 479 / 100000 * ca_moonDistanceKm c"
    using d by linarith
  then have up: "MOON_RADIUS_KM / ca_moonDistanceKm c \<le> 479 / 100000"
    unfolding MOON_RADIUS_KM_def using pos by (simp add: pos_divide_le_eq)
  have lo: "0 < MOON_RADIUS_KM / ca_moonDistanceKm c"
    using pos by (simp add: MOON_RADIUS_KM_def)
  have "clamp (MOON_RADIUS_KM / ca_moonDistanceKm c) (-1) 1 = MOON_RADIUS_KM / ca_moonDistanceKm c"
    by (rule clamp_id) (use up lo in linarith)+
  with up lo show ?thesis by blast
qed

lemma parallax_sine:
  "clamp (EARTH_RADIUS_KM / ca_moonDistanceKm c) (-1) 1 = EARTH_RADIUS_KM / ca_moonDistanceKm c \<and>
   EARTH_RADIUS_KM / ca_moonDistanceKm c < 1 \<and>
   MOON_RADIUS_KM / ca_moonDistanceKm c + 1142 / 100000 \<le> EARTH_RADIUS_KM / ca_moonDistanceKm c"
proof -
  have d: "363300 \<le> ca_moonDistanceKm c" "ca_moonDistanceKm c \<le> 405500"
    using moonDistance_range by simp_all
  then have pos: "0 < ca_moonDistanceKm c" by linarith
  have "6371 < 1 * ca_moonDistanceKm c"
    using d by linarith
  then have up: "EARTH_RADIUS_KM / ca_moonDistanceKm c < 1"
    unfolding EARTH_RADIUS_KM_def using pos by (simp add: pos_divide_less_eq)
  have lo: "0 < EARTH_RADIUS_KM / ca_moonDistanceKm c"
    using pos by (simp add: EARTH_RADIUS_KM_def)
  have "1142 / 100000 * ca_moonDistanceKm c \<le> 6371 - 17374 / 10"
    using d by linarith
  then have "1142 / 100000 \<le> (6371 - 17374 / 10) / ca_moonDistanceKm c"
    using pos by (simp only: pos_le_divide_eq)
  then have gap: "MOON_RADIUS_KM / ca_moonDistanceKm c + 1142 / 100000
      \<le> EARTH_RADIUS_KM / ca_moonDistanceKm c"
    unfolding EARTH_RADIUS_KM_def MOON_RADIUS_KM_def
    by (simp add: diff_divide_distrib)
  have "clamp (EARTH_RADIUS_KM / ca_moonDistanceKm c) (-1) 1 = EARTH_RADIUS_KM / ca_moonDistanceKm c"
    by (rule clamp_id) (use up lo in linarith)+
  with up gap show ?thesis by blast
qed

lemma arcsin_positive: "0 < x \<Longrightarrow> x \<le> 1 \<Longrightarrow> 0 < arcsin x"
  using arcsin_less_arcsin [of 0 x] by simp

lemma cos_arcsin_range: "-1 \<le> x \<Longrightarrow> x \<le> 1 \<Longrightarrow> 0 \<le> cos (arcsin x) \<and> cos (arcsin x) \<le> 1"
  using arcsin_bounded [of x] cos_ge_zero [of "arcsin x"] by simp

lemma sin_arcsin_sum:
  assumes "0 \<le> a" "a \<le> 1" "0 \<le> b" "b \<le> 1"
  shows "sin (arcsin a + arcsin b) \<le> a + b"
proof -
  have ca: "0 \<le> cos (arcsin a) \<and> cos (arcsin a) \<le> 1"
    and cb: "0 \<le> cos (arcsin b) \<and> cos (arcsin b) \<le> 1"
    using assms by (simp_all add: cos_arcsin_range)
  have "a * cos (arcsin b) \<le> a * 1"
    using assms(1) cb by (intro mult_left_mono) simp_all
  moreover have "cos (arcsin a) * b \<le> 1 * b"
    using assms(3) ca by (intro mult_right_mono) simp_all
  moreover have "sin (arcsin a + arcsin b) = a * cos (arcsin b) + cos (arcsin a) * b"
    using assms by (simp add: sin_add)
  ultimately show ?thesis by linarith
qed

lemma sin_arcsin_diff:
  assumes "0 \<le> a" "a \<le> 1" "0 \<le> b" "b \<le> 1"
  shows "sin (arcsin a - arcsin b) \<le> a"
proof -
  have ca: "0 \<le> cos (arcsin a) \<and> cos (arcsin a) \<le> 1"
    and cb: "0 \<le> cos (arcsin b) \<and> cos (arcsin b) \<le> 1"
    using assms by (simp_all add: cos_arcsin_range)
  have "a * cos (arcsin b) \<le> a * 1"
    using assms(1) cb by (intro mult_left_mono) simp_all
  moreover have "0 \<le> cos (arcsin a) * b"
    using assms(3) ca by simp
  moreover have "sin (arcsin a - arcsin b) = a * cos (arcsin b) - cos (arcsin a) * b"
    using assms by (simp add: sin_diff)
  ultimately show ?thesis by linarith
qed

lemma sin_arcsin_absdiff:
  assumes "0 \<le> a" "a \<le> 1" "0 \<le> b" "b \<le> 1"
  shows "0 \<le> sin \<bar>arcsin a - arcsin b\<bar> \<and> sin \<bar>arcsin a - arcsin b\<bar> \<le> max a b"
proof -
  have ra: "0 \<le> arcsin a \<and> arcsin a \<le> pi / 2" and rb: "0 \<le> arcsin b \<and> arcsin b \<le> pi / 2"
    using assms arcsin_nonneg [of a] arcsin_nonneg [of b] arcsin_ubound [of a] arcsin_ubound [of b]
    by simp_all
  then have "0 \<le> \<bar>arcsin a - arcsin b\<bar>" "\<bar>arcsin a - arcsin b\<bar> \<le> pi"
    using pi_gt_zero by linarith+
  then have nonneg: "0 \<le> sin \<bar>arcsin a - arcsin b\<bar>"
    by (rule sin_ge_zero)
  have "sin \<bar>arcsin a - arcsin b\<bar> \<le> max a b"
  proof (cases "arcsin b \<le> arcsin a")
    case True
    then have "\<bar>arcsin a - arcsin b\<bar> = arcsin a - arcsin b" by simp
    then show ?thesis
      using sin_arcsin_diff [OF assms] by simp
  next
    case False
    then have "\<bar>arcsin a - arcsin b\<bar> = arcsin b - arcsin a" by simp
    then show ?thesis
      using sin_arcsin_diff [OF assms(3,4,1,2)] by simp
  qed
  with nonneg show ?thesis by blast
qed

text \<open>The three angles in radians, and their signs.\<close>

lemma sunRadius_rad:
  "ca_sunAngularRadiusDeg jd * DEG = arcsin (SUN_RADIUS_KM / ca_sunDistanceKm jd)"
  using sun_sine [of jd] by (simp add: ca_sunAngularRadiusDeg_def RAD_DEG)

lemma moonRadius_rad:
  "ca_moonAngularRadiusDeg c * DEG = arcsin (MOON_RADIUS_KM / ca_moonDistanceKm c)"
  using moon_sine [of c] by (simp add: ca_moonAngularRadiusDeg_def RAD_DEG)

lemma parallax_rad:
  "ca_moonParallaxDeg c * DEG = arcsin (EARTH_RADIUS_KM / ca_moonDistanceKm c)"
  using parallax_sine [of c] by (simp add: ca_moonParallaxDeg_def RAD_DEG)

lemma sunRadius_pos: "0 < ca_sunAngularRadiusDeg jd"
proof -
  have "0 < arcsin (SUN_RADIUS_KM / ca_sunDistanceKm jd)"
    using sun_sine [of jd] by (intro arcsin_positive) linarith+
  then show ?thesis
    using sun_sine [of jd] RAD_pos by (simp add: ca_sunAngularRadiusDeg_def)
qed

lemma moonRadius_pos: "0 < ca_moonAngularRadiusDeg c"
proof -
  have "0 < arcsin (MOON_RADIUS_KM / ca_moonDistanceKm c)"
    using moon_sine [of c] by (intro arcsin_positive) linarith+
  then show ?thesis
    using moon_sine [of c] RAD_pos by (simp add: ca_moonAngularRadiusDeg_def)
qed

lemma parallax_sine_pos: "0 < EARTH_RADIUS_KM / ca_moonDistanceKm c"
  using parallax_sine [of c] moon_sine [of c] by linarith

lemma parallax_pos: "0 < ca_moonParallaxDeg c"
proof -
  have "0 < arcsin (EARTH_RADIUS_KM / ca_moonDistanceKm c)"
    using parallax_sine [of c] parallax_sine_pos [of c] by (intro arcsin_positive) linarith+
  then show ?thesis
    using parallax_sine [of c] RAD_pos by (simp add: ca_moonParallaxDeg_def)
qed

lemma sin_parallax:
  "sin (ca_moonParallaxDeg c * DEG) = EARTH_RADIUS_KM / ca_moonDistanceKm c"
  using parallax_sine [of c] parallax_sine_pos [of c] by (simp add: parallax_rad)

text \<open>The sines of the two target offsets stay below the sine of the parallax.\<close>

lemma sin_penumbra_offset:
  "0 < sin ((ca_sunAngularRadiusDeg jd + ca_moonAngularRadiusDeg c) * DEG) \<and>
   sin ((ca_sunAngularRadiusDeg jd + ca_moonAngularRadiusDeg c) * DEG)
     < sin (ca_moonParallaxDeg c * DEG)"
proof -
  let ?a = "SUN_RADIUS_KM / ca_sunDistanceKm jd"
  let ?b = "MOON_RADIUS_KM / ca_moonDistanceKm c"
  have a: "0 < ?a" "?a \<le> 473 / 100000" using sun_sine [of jd] by simp_all
  have b: "0 < ?b" "?b \<le> 479 / 100000" using moon_sine [of c] by simp_all
  have eq: "(ca_sunAngularRadiusDeg jd + ca_moonAngularRadiusDeg c) * DEG = arcsin ?a + arcsin ?b"
    by (simp add: distrib_right sunRadius_rad moonRadius_rad)
  have "0 < arcsin ?a" "0 < arcsin ?b"
    using a b by (intro arcsin_positive; linarith)+
  moreover have la: "-1 < ?a" "?a < 1" and lb: "-1 < ?b" "?b < 1"
    using a b by linarith+
  moreover have "arcsin ?a < pi / 2" "arcsin ?b < pi / 2"
    using arcsin_lt_bounded [OF la] arcsin_lt_bounded [OF lb] by blast+
  ultimately have "0 < arcsin ?a + arcsin ?b" "arcsin ?a + arcsin ?b < pi"
    by linarith+
  then have pos: "0 < sin (arcsin ?a + arcsin ?b)"
    by (rule sin_gt_zero)
  have "sin (arcsin ?a + arcsin ?b) \<le> ?a + ?b"
    using a b by (intro sin_arcsin_sum) linarith+
  also have "\<dots> < EARTH_RADIUS_KM / ca_moonDistanceKm c"
    using a parallax_sine [of c] by linarith
  finally have "sin (arcsin ?a + arcsin ?b) < sin (ca_moonParallaxDeg c * DEG)"
    by (simp only: sin_parallax)
  with pos show ?thesis
    by (simp only: eq simp_thms)
qed

lemma sin_core_offset:
  "0 \<le> sin (\<bar>ca_sunAngularRadiusDeg jd - ca_moonAngularRadiusDeg c\<bar> * DEG) \<and>
   sin (\<bar>ca_sunAngularRadiusDeg jd - ca_moonAngularRadiusDeg c\<bar> * DEG)
     < sin (ca_moonParallaxDeg c * DEG)"
proof -
  let ?a = "SUN_RADIUS_KM / ca_sunDistanceKm jd"
  let ?b = "MOON_RADIUS_KM / ca_moonDistanceKm c"
  have a: "0 < ?a" "?a \<le> 473 / 100000" using sun_sine [of jd] by simp_all
  have b: "0 < ?b" "?b \<le> 479 / 100000" using moon_sine [of c] by simp_all
  have "0 \<le> DEG" by (simp add: DEG_def)
  then have "\<bar>ca_sunAngularRadiusDeg jd - ca_moonAngularRadiusDeg c\<bar> * DEG
      = \<bar>(ca_sunAngularRadiusDeg jd - ca_moonAngularRadiusDeg c) * DEG\<bar>"
    by (simp add: abs_mult)
  also have "\<dots> = \<bar>arcsin ?a - arcsin ?b\<bar>"
    by (simp add: left_diff_distrib sunRadius_rad moonRadius_rad)
  finally have eq: "\<bar>ca_sunAngularRadiusDeg jd - ca_moonAngularRadiusDeg c\<bar> * DEG
      = \<bar>arcsin ?a - arcsin ?b\<bar>" .
  have r: "0 \<le> sin \<bar>arcsin ?a - arcsin ?b\<bar> \<and> sin \<bar>arcsin ?a - arcsin ?b\<bar> \<le> max ?a ?b"
    using a b by (intro sin_arcsin_absdiff) linarith+
  have "?a < EARTH_RADIUS_KM / ca_moonDistanceKm c" "?b < EARTH_RADIUS_KM / ca_moonDistanceKm c"
    using a b parallax_sine [of c] by linarith+
  then have "max ?a ?b < EARTH_RADIUS_KM / ca_moonDistanceKm c"
    by (simp only: max_less_iff_conj simp_thms)
  with r have "sin \<bar>arcsin ?a - arcsin ?b\<bar> < sin (ca_moonParallaxDeg c * DEG)"
    by (simp only: sin_parallax) linarith
  with r show ?thesis
    by (simp only: eq simp_thms)
qed

text \<open>The footprint radius where the sine ratio is below 1.\<close>

lemma solveFootprint_formula:
  assumes "0 < p" "0 \<le> t" "0 \<le> sin (t * DEG)" "sin (t * DEG) < sin (p * DEG)"
  shows "solveFootprintRadiusDeg p t = arcsin (sin (t * DEG) / sin (p * DEG)) * RAD"
proof (cases "t = 0")
  case True
  then show ?thesis
    by (simp add: solveFootprintRadiusDeg_def)
next
  case False
  with assms have t: "0 < t" by simp
  have den: "0 < sin (p * DEG)" using assms by linarith
  have r1: "sin (t * DEG) / sin (p * DEG) < 1"
    using den assms(4) by (simp add: pos_divide_less_eq)
  have r0: "0 \<le> sin (t * DEG) / sin (p * DEG)"
    using den assms(3) by simp
  have "clamp (sin (t * DEG) / sin (p * DEG)) (-1) 1 = sin (t * DEG) / sin (p * DEG)"
    by (rule clamp_id) (use r0 r1 in linarith)+
  then show ?thesis
    using assms(1) t den r1 by (simp add: solveFootprintRadiusDeg_def Let_def)
qed

lemma penumbra_formula:
  "solveFootprintRadiusDeg (ca_moonParallaxDeg c)
       (ca_sunAngularRadiusDeg jd + ca_moonAngularRadiusDeg c)
     = arcsin (sin ((ca_sunAngularRadiusDeg jd + ca_moonAngularRadiusDeg c) * DEG)
               / sin (ca_moonParallaxDeg c * DEG)) * RAD"
  using sin_penumbra_offset [of jd c] sunRadius_pos [of jd] moonRadius_pos [of c]
  by (intro solveFootprint_formula parallax_pos) linarith+

lemma core_formula:
  "solveFootprintRadiusDeg (ca_moonParallaxDeg c)
       \<bar>ca_sunAngularRadiusDeg jd - ca_moonAngularRadiusDeg c\<bar>
     = arcsin (sin (\<bar>ca_sunAngularRadiusDeg jd - ca_moonAngularRadiusDeg c\<bar> * DEG)
               / sin (ca_moonParallaxDeg c * DEG)) * RAD"
  using sin_core_offset [of jd c]
  by (intro solveFootprint_formula parallax_pos) simp_all

lemma penumbra_pos:
  "0 < solveFootprintRadiusDeg (ca_moonParallaxDeg c)
         (ca_sunAngularRadiusDeg jd + ca_moonAngularRadiusDeg c)"
proof -
  let ?n = "sin ((ca_sunAngularRadiusDeg jd + ca_moonAngularRadiusDeg c) * DEG)"
  let ?d = "sin (ca_moonParallaxDeg c * DEG)"
  have nd: "0 < ?n" "?n < ?d" using sin_penumbra_offset [of jd c] by simp_all
  then have "0 < ?n / ?d" "?n / ?d \<le> 1"
    by (simp_all add: pos_divide_le_eq)
  then have "0 < arcsin (?n / ?d)"
    by (rule arcsin_positive)
  then show ?thesis
    using RAD_pos by (simp add: penumbra_formula)
qed

section \<open>The fields of the astronomy\<close>

lemmas ca_defs = ca_sunDistanceKm_def ca_moonDistanceKm_def ca_sunAngularRadiusDeg_def
  ca_moonAngularRadiusDeg_def ca_moonParallaxDeg_def ca_correctedMoonLat_def ca_sunVector_def
  ca_moonVector_def ca_bestSeparationDeg_def ca_depth_def ca_shadowAxis_def

lemma computeAstronomy_fields:
  "depth (computeAstronomy jd c rot) = ca_depth jd c"
  "sunAngularRadiusDeg (computeAstronomy jd c rot) = ca_sunAngularRadiusDeg jd"
  "moonAngularRadiusDeg (computeAstronomy jd c rot) = ca_moonAngularRadiusDeg c"
  "bestSeparationDeg (computeAstronomy jd c rot) = ca_bestSeparationDeg jd c"
  "axisHitsEarth (computeAstronomy jd c rot) = hitsEarth (ca_shadowAxis jd c rot)"
  "centralLat (computeAstronomy jd c rot) = latDeg (ca_shadowAxis jd c rot)"
  "centralLon (computeAstronomy jd c rot) = lonDeg (ca_shadowAxis jd c rot)"
  "penumbraRadiusDeg (computeAstronomy jd c rot) =
     (if ca_depth jd c \<le> 0 then 0
      else solveFootprintRadiusDeg (ca_moonParallaxDeg c)
             (ca_sunAngularRadiusDeg jd + ca_moonAngularRadiusDeg c))"
  "umbraRadiusDeg (computeAstronomy jd c rot) =
     (if hitsEarth (ca_shadowAxis jd c rot) then
        (if ca_depth jd c \<le> 0 then 0
         else solveFootprintRadiusDeg (ca_moonParallaxDeg c)
                \<bar>ca_sunAngularRadiusDeg jd - ca_moonAngularRadiusDeg c\<bar>)
      else 0)"
  "eclipseClass (computeAstronomy jd c rot) =
     classifyEclipse (ca_bestSeparationDeg jd c) (ca_sunAngularRadiusDeg jd)
       (ca_moonAngularRadiusDeg c) (ca_depth jd c) (hitsEarth (ca_shadowAxis jd c rot))"
  unfolding computeAstronomy_def Let_def ca_defs buildGeometryFrames_def
  by (simp_all only: Astronomy.select_convs GeometryFrames.select_convs BodyFrame.select_convs)

lemma ca_depth_range: "0 \<le> ca_depth jd c \<and> ca_depth jd c \<le> 1"
  unfolding ca_depth_def by (rule overlapFraction_range)

section \<open>Depth and footprint radii\<close>

lemma depth_zero_iff_radii:
  "(depth (computeAstronomy jd c rot) = 0) =
   (umbraRadiusDeg (computeAstronomy jd c rot) = 0 \<and>
    penumbraRadiusDeg (computeAstronomy jd c rot) = 0)"
proof (cases "ca_depth jd c \<le> 0")
  case True
  then have "ca_depth jd c = 0"
    using ca_depth_range [of jd c] by linarith
  then show ?thesis
    by (simp add: computeAstronomy_fields)
next
  case False
  then have "penumbraRadiusDeg (computeAstronomy jd c rot) \<noteq> 0"
    using penumbra_pos [of c jd] by (simp add: computeAstronomy_fields)
  moreover have "depth (computeAstronomy jd c rot) \<noteq> 0"
    using False by (simp add: computeAstronomy_fields)
  ultimately show ?thesis by simp
qed

text \<open>
  Claim C1. For every state, the model derived from it has a depth in \<open>[0, 1]\<close>, and
  its depth is 0 if and only if both its umbra radius and its penumbra radius are 0;
  the same holds for every result of \<open>computeAstronomy\<close>.
\<close>

theorem depth_invariant:
  "0 \<le> depth (model_astro (deriveModel st)) \<and>
   depth (model_astro (deriveModel st)) \<le> 1 \<and>
   ((depth (model_astro (deriveModel st)) = 0) =
    (umbraRadiusDeg (model_astro (deriveModel st)) = 0 \<and>
     penumbraRadiusDeg (model_astro (deriveModel st)) = 0)) \<and>
   0 \<le> depth (computeAstronomy jd c rot) \<and>
   depth (computeAstronomy jd c rot) \<le> 1 \<and>
   ((depth (computeAstronomy jd c rot) = 0) =
    (umbraRadiusDeg (computeAstronomy jd c rot) = 0 \<and>
     penumbraRadiusDeg (computeAstronomy jd c rot) = 0))"
proof -
  have r: "0 \<le> depth (computeAstronomy j s r) \<and> depth (computeAstronomy j s r) \<le> 1" for j s r
    using ca_depth_range [of j s] by (simp add: computeAstronomy_fields)
  show ?thesis
    unfolding model_astro_deriveModel
    using r depth_zero_iff_radii by blast
qed

section \<open>A central eclipse: Sun, Moon and node at longitude 0, Moon at perigee\<close>

lemma normalize360_0: "normalize360 0 = 0"
  by (simp add: normalize360_id)

lemma normalize180_0: "normalize180 0 = 0"
  by (simp add: normalize180_id)

lemma newMoonState_fields:
  "sunEclipticLon newMoonState = 0"
  "ascendingNodeLon newMoonState = 0"
  "moonNodePhase newMoonState = 0"
  "moonEclipticLon newMoonState = 0"
  "moonAnomaly newMoonState = 0"
  "moonDistanceMode newMoonState = 0"
  "earthRotation newMoonState = 0"
  by (simp_all add: newMoonState_def newMoonParams_def derive_fields normalize360_0 normalize180_0)

lemma rotateX_axis:
  "applyMatrix3 (rotationMatrixX e) \<lparr> vx = d, vy = 0, vz = 0 \<rparr> = \<lparr> vx = d, vy = 0, vz = 0 \<rparr>"
  by (simp add: applyMatrix3_def rotationMatrixX_def Let_def)

lemma normalize_axis:
  assumes "1 \<le> d"
  shows "normalizeVector \<lparr> vx = d, vy = 0, vz = 0 \<rparr> = \<lparr> vx = 1, vy = 0, vz = 0 \<rparr>"
    and "normalizeVector (scaleVector \<lparr> vx = d, vy = 0, vz = 0 \<rparr> (-1)) = \<lparr> vx = -1, vy = 0, vz = 0 \<rparr>"
proof -
  have m: "magnitudeVector \<lparr> vx = d, vy = 0, vz = 0 \<rparr> = d"
    "magnitudeVector (scaleVector \<lparr> vx = d, vy = 0, vz = 0 \<rparr> (-1)) = d"
    using assms by (simp_all add: magnitudeVector_def dotVector_def scaleVector_def)
  have "\<not> d < 1 / 10 ^ 12"
    using assms by simp
  then show "normalizeVector \<lparr> vx = d, vy = 0, vz = 0 \<rparr> = \<lparr> vx = 1, vy = 0, vz = 0 \<rparr>"
    and "normalizeVector (scaleVector \<lparr> vx = d, vy = 0, vz = 0 \<rparr> (-1)) = \<lparr> vx = -1, vy = 0, vz = 0 \<rparr>"
    using assms unfolding normalizeVector_def Let_def m
    by (simp_all add: scaleVector_def)
qed

text \<open>With the three longitudes 0 the two vectors lie on the first axis.\<close>

lemma aligned_vectors:
  assumes "sunEclipticLon c = 0" "moonEclipticLon c = 0" "ascendingNodeLon c = 0"
  shows "ca_sunVector jd c = \<lparr> vx = ca_sunDistanceKm jd, vy = 0, vz = 0 \<rparr>"
    and "ca_moonVector jd c = \<lparr> vx = ca_moonDistanceKm c, vy = 0, vz = 0 \<rparr>"
proof -
  have lat: "ca_correctedMoonLat c = 0"
    by (simp add: ca_correctedMoonLat_def assms normalize360_0 normalize180_0 clamp_def)
  show "ca_sunVector jd c = \<lparr> vx = ca_sunDistanceKm jd, vy = 0, vz = 0 \<rparr>"
    by (simp add: ca_sunVector_def assms normalize360_0 sphericalToCartesian_def rotateX_axis)
  show "ca_moonVector jd c = \<lparr> vx = ca_moonDistanceKm c, vy = 0, vz = 0 \<rparr>"
    by (simp add: ca_moonVector_def assms lat normalize360_0 sphericalToCartesian_def rotateX_axis)
qed

lemma aligned_bestSeparation:
  assumes "sunEclipticLon c = 0" "moonEclipticLon c = 0" "ascendingNodeLon c = 0"
  shows "ca_bestSeparationDeg jd c = 0"
proof -
  have s: "1 \<le> ca_sunDistanceKm jd"
    using sunDistance_lower [of jd] by linarith
  have m: "1 \<le> ca_moonDistanceKm c"
    using moonDistance_range [of c] by linarith
  have "angularSeparationFromVectors (ca_sunVector jd c) (ca_moonVector jd c) = 0"
    unfolding aligned_vectors [OF assms] angularSeparationFromVectors_def Let_def
      normalize_axis(1) [OF s] normalize_axis(1) [OF m]
    by (simp add: dotVector_def clamp_def)
  then show ?thesis
    using parallax_pos [of c] by (simp add: ca_bestSeparationDeg_def)
qed

lemma perigee_moon_covers_sun:
  assumes "moonDistanceMode c = 0"
  shows "ca_sunAngularRadiusDeg jd \<le> ca_moonAngularRadiusDeg c"
proof -
  have d: "ca_moonDistanceKm c = 363300"
    by (simp add: ca_moonDistanceKm_def assms clamp_def MOON_PERIGEE_KM_def MOON_APOGEE_KM_def)
  have "473 / 100000 \<le> MOON_RADIUS_KM / ca_moonDistanceKm c"
    unfolding d by (simp add: MOON_RADIUS_KM_def)
  then have le: "SUN_RADIUS_KM / ca_sunDistanceKm jd \<le> MOON_RADIUS_KM / ca_moonDistanceKm c"
    using sun_sine [of jd] by linarith
  have "arcsin (SUN_RADIUS_KM / ca_sunDistanceKm jd) \<le> arcsin (MOON_RADIUS_KM / ca_moonDistanceKm c)"
    using le sun_sine [of jd] moon_sine [of c] by (intro arcsin_le_arcsin) linarith+
  then have "arcsin (SUN_RADIUS_KM / ca_sunDistanceKm jd) * RAD
      \<le> arcsin (MOON_RADIUS_KM / ca_moonDistanceKm c) * RAD"
    using RAD_pos by (intro mult_right_mono) simp_all
  then show ?thesis
    using sun_sine [of jd] moon_sine [of c]
    by (simp add: ca_sunAngularRadiusDeg_def ca_moonAngularRadiusDeg_def)
qed

lemma aligned_depth:
  assumes "sunEclipticLon c = 0" "moonEclipticLon c = 0" "ascendingNodeLon c = 0"
    and "moonDistanceMode c = 0"
  shows "ca_depth jd c = 1"
  using perigee_moon_covers_sun [OF assms(4), of jd] sunRadius_pos [of jd] moonRadius_pos [of c]
  by (simp add: ca_depth_def aligned_bestSeparation [OF assms(1-3)] overlapFraction_def)

lemma sqrt_square_4: "0 \<le> r \<Longrightarrow> sqrt (4 * (r * r)) = 2 * r"
  by (simp add: real_sqrt_mult)

lemma axis_through_centre:
  assumes "6371 < m"
  shows "lineSphereIntersection \<lparr> vx = m, vy = 0, vz = 0 \<rparr> \<lparr> vx = -1, vy = 0, vz = 0 \<rparr> EARTH_RADIUS_KM
         = Some \<lparr> vx = 6371, vy = 0, vz = 0 \<rparr>"
proof -
  have disc: "2 * (m * - 1) * (2 * (m * - 1)) - 4 * (m * m - 6371 * 6371) = 4 * (6371 * 6371)"
    by (simp add: algebra_simps)
  have sq: "sqrt (4 * (6371 * 6371)) = (12742::real)"
    using sqrt_square_4 [of 6371] by simp
  show ?thesis
    unfolding lineSphereIntersection_def Let_def dotVector_def EARTH_RADIUS_KM_def
    apply (simp only: Vector3.select_convs mult_zero_left mult_zero_right add_0_right disc sq)
    using assms by (simp add: addVector_def scaleVector_def field_simps)
qed

lemma aligned_hits:
  assumes "sunEclipticLon c = 0" "moonEclipticLon c = 0" "ascendingNodeLon c = 0"
  shows "hitsEarth (ca_shadowAxis jd c rot) = True"
proof -
  have s: "1 \<le> ca_sunDistanceKm jd"
    using sunDistance_lower [of jd] by linarith
  have m: "6371 < ca_moonDistanceKm c"
    using moonDistance_range [of c] by linarith
  show ?thesis
    unfolding ca_shadowAxis_def aligned_vectors [OF assms] shadowAxisOnEarth_def Let_def
      normalize_axis(2) [OF s] axis_through_centre [OF m]
    by simp
qed

section \<open>No eclipse: the Moon opposite the Sun\<close>

lemma normalize360_180: "normalize360 180 = 180"
  by (simp add: normalize360_id)

lemma fullMoonState_fields:
  "sunEclipticLon fullMoonState = 0"
  "ascendingNodeLon fullMoonState = 180"
  "moonEclipticLon fullMoonState = 180"
  by (simp_all add: fullMoonState_def fullMoonParams_def derive_fields normalize360_0
        normalize180_0 normalize360_180)

lemma angle_below_30:
  assumes "0 \<le> x" "x \<le> 1 / 2"
  shows "arcsin x * RAD \<le> 30"
proof -
  have "arcsin x \<le> arcsin (1 / 2)"
    using assms by (intro arcsin_le_arcsin) linarith+
  then have "arcsin x \<le> pi / 6" by simp
  then have "arcsin x * RAD \<le> pi / 6 * RAD"
    using RAD_pos by (intro mult_right_mono) simp_all
  then show ?thesis
    by (simp add: RAD_def)
qed

lemma radii_below_30:
  "ca_sunAngularRadiusDeg jd \<le> 30" "ca_moonAngularRadiusDeg c \<le> 30" "ca_moonParallaxDeg c \<le> 30"
proof -
  have s: "0 \<le> SUN_RADIUS_KM / ca_sunDistanceKm jd" "SUN_RADIUS_KM / ca_sunDistanceKm jd \<le> 1 / 2"
    using sun_sine [of jd] by linarith+
  have m: "0 \<le> MOON_RADIUS_KM / ca_moonDistanceKm c" "MOON_RADIUS_KM / ca_moonDistanceKm c \<le> 1 / 2"
    using moon_sine [of c] by linarith+
  have d: "363300 \<le> ca_moonDistanceKm c"
    using moonDistance_range [of c] by simp
  then have "6371 \<le> 1 / 2 * ca_moonDistanceKm c" by linarith
  then have "EARTH_RADIUS_KM / ca_moonDistanceKm c \<le> 1 / 2"
    using d by (simp add: EARTH_RADIUS_KM_def pos_divide_le_eq)
  then have p: "0 \<le> EARTH_RADIUS_KM / ca_moonDistanceKm c" "EARTH_RADIUS_KM / ca_moonDistanceKm c \<le> 1 / 2"
    using parallax_sine_pos [of c] by linarith+
  show "ca_sunAngularRadiusDeg jd \<le> 30"
    using angle_below_30 [OF s] sun_sine [of jd] by (simp add: ca_sunAngularRadiusDeg_def)
  show "ca_moonAngularRadiusDeg c \<le> 30"
    using angle_below_30 [OF m] moon_sine [of c] by (simp add: ca_moonAngularRadiusDeg_def)
  show "ca_moonParallaxDeg c \<le> 30"
    using angle_below_30 [OF p] parallax_sine [of c] by (simp add: ca_moonParallaxDeg_def)
qed

lemma opposed_vectors:
  assumes "sunEclipticLon c = 0" "moonEclipticLon c = 180" "ascendingNodeLon c = 180"
  shows "ca_sunVector jd c = \<lparr> vx = ca_sunDistanceKm jd, vy = 0, vz = 0 \<rparr>"
    and "ca_moonVector jd c = scaleVector \<lparr> vx = ca_moonDistanceKm c, vy = 0, vz = 0 \<rparr> (-1)"
proof -
  have lat: "ca_correctedMoonLat c = 0"
    by (simp add: ca_correctedMoonLat_def assms normalize360_180 normalize180_0 clamp_def)
  have half_turn: "180 * DEG = pi"
    by (simp add: DEG_def)
  show "ca_sunVector jd c = \<lparr> vx = ca_sunDistanceKm jd, vy = 0, vz = 0 \<rparr>"
    by (simp add: ca_sunVector_def assms normalize360_0 sphericalToCartesian_def rotateX_axis)
  have "sphericalToCartesian (ca_moonDistanceKm c) 180 0
      = \<lparr> vx = - ca_moonDistanceKm c, vy = 0, vz = 0 \<rparr>"
    by (simp add: sphericalToCartesian_def half_turn)
  then show "ca_moonVector jd c = scaleVector \<lparr> vx = ca_moonDistanceKm c, vy = 0, vz = 0 \<rparr> (-1)"
    by (simp add: ca_moonVector_def assms lat normalize360_180 rotateX_axis scaleVector_def)
qed

lemma opposed_depth:
  assumes "sunEclipticLon c = 0" "moonEclipticLon c = 180" "ascendingNodeLon c = 180"
  shows "ca_depth jd c = 0"
proof -
  have s: "1 \<le> ca_sunDistanceKm jd"
    using sunDistance_lower [of jd] by linarith
  have m: "1 \<le> ca_moonDistanceKm c"
    using moonDistance_range [of c] by linarith
  have "angularSeparationFromVectors (ca_sunVector jd c) (ca_moonVector jd c) = pi * RAD"
    unfolding opposed_vectors [OF assms] angularSeparationFromVectors_def Let_def
      normalize_axis(1) [OF s] normalize_axis(2) [OF m]
    by (simp add: dotVector_def clamp_def)
  then have sep: "angularSeparationFromVectors (ca_sunVector jd c) (ca_moonVector jd c) = 180"
    by (simp add: RAD_def)
  have "ca_bestSeparationDeg jd c = 180 - ca_moonParallaxDeg c"
    using radii_below_30(3) [of c] by (simp add: ca_bestSeparationDeg_def sep)
  then have "ca_sunAngularRadiusDeg jd + ca_moonAngularRadiusDeg c \<le> ca_bestSeparationDeg jd c"
    using radii_below_30(1) [of jd] radii_below_30(2,3) [of c] by linarith
  then show ?thesis
    by (simp add: ca_depth_def overlapFraction_def)
qed

section \<open>Footprint radii of the model\<close>

text \<open>
  Claim C6. The Moon's parallax of every state is positive. While the depth is
  positive, the penumbra radius of the astronomy is
  \<open>asin(sin(sunAngularRadiusDeg + moonAngularRadiusDeg) / sin(moonParallaxDeg))\<close> in
  degrees, and its umbra radius, when the axis hits the Earth, is
  \<open>asin(sin(|sunAngularRadiusDeg - moonAngularRadiusDeg|) / sin(moonParallaxDeg))\<close>; when
  the axis misses the Earth the umbra radius is 0. When the depth is 0 both radii are 0.
  Whenever the sine ratio exceeds 1, \<open>solveFootprintRadiusDeg\<close> returns 89.5.
\<close>

theorem footprint_radii:
  "0 < ca_moonParallaxDeg c \<and>
   (0 < depth (computeAstronomy jd c rot) \<longrightarrow>
      penumbraRadiusDeg (computeAstronomy jd c rot) =
        arcsin (sin ((sunAngularRadiusDeg (computeAstronomy jd c rot)
                      + moonAngularRadiusDeg (computeAstronomy jd c rot)) * DEG)
                / sin (ca_moonParallaxDeg c * DEG)) * RAD) \<and>
   (0 < depth (computeAstronomy jd c rot) \<and> axisHitsEarth (computeAstronomy jd c rot) \<longrightarrow>
      umbraRadiusDeg (computeAstronomy jd c rot) =
        arcsin (sin (\<bar>sunAngularRadiusDeg (computeAstronomy jd c rot)
                      - moonAngularRadiusDeg (computeAstronomy jd c rot)\<bar> * DEG)
                / sin (ca_moonParallaxDeg c * DEG)) * RAD) \<and>
   (\<not> axisHitsEarth (computeAstronomy jd c rot) \<longrightarrow>
      umbraRadiusDeg (computeAstronomy jd c rot) = 0) \<and>
   (depth (computeAstronomy jd c rot) = 0 \<longrightarrow>
      penumbraRadiusDeg (computeAstronomy jd c rot) = 0 \<and>
      umbraRadiusDeg (computeAstronomy jd c rot) = 0) \<and>
   (0 < p \<and> 0 < t \<and> 0 < sin (p * DEG) \<and> 1 < sin (t * DEG) / sin (p * DEG) \<longrightarrow>
      solveFootprintRadiusDeg p t = 89.5)"
proof (intro conjI impI)
  show "0 < ca_moonParallaxDeg c"
    by (rule parallax_pos)
next
  assume "0 < depth (computeAstronomy jd c rot)"
  then show "penumbraRadiusDeg (computeAstronomy jd c rot) =
        arcsin (sin ((sunAngularRadiusDeg (computeAstronomy jd c rot)
                      + moonAngularRadiusDeg (computeAstronomy jd c rot)) * DEG)
                / sin (ca_moonParallaxDeg c * DEG)) * RAD"
    by (simp add: computeAstronomy_fields penumbra_formula)
next
  assume "0 < depth (computeAstronomy jd c rot) \<and> axisHitsEarth (computeAstronomy jd c rot)"
  then show "umbraRadiusDeg (computeAstronomy jd c rot) =
        arcsin (sin (\<bar>sunAngularRadiusDeg (computeAstronomy jd c rot)
                      - moonAngularRadiusDeg (computeAstronomy jd c rot)\<bar> * DEG)
                / sin (ca_moonParallaxDeg c * DEG)) * RAD"
    by (simp add: computeAstronomy_fields core_formula)
next
  assume "\<not> axisHitsEarth (computeAstronomy jd c rot)"
  then show "umbraRadiusDeg (computeAstronomy jd c rot) = 0"
    by (simp add: computeAstronomy_fields)
next
  assume "depth (computeAstronomy jd c rot) = 0"
  then show "penumbraRadiusDeg (computeAstronomy jd c rot) = 0"
    and "umbraRadiusDeg (computeAstronomy jd c rot) = 0"
    by (simp_all add: computeAstronomy_fields)
next
  assume h: "0 < p \<and> 0 < t \<and> 0 < sin (p * DEG) \<and> 1 < sin (t * DEG) / sin (p * DEG)"
  then have "\<not> (p \<le> 0 \<or> t \<le> 0)" "\<not> sin (p * DEG) \<le> 0"
    "sin (t * DEG) / sin (p * DEG) \<ge> 1"
    by linarith+
  then show "solveFootprintRadiusDeg p t = 89.5"
    by (simp only: solveFootprintRadiusDeg_def Let_def if_True if_False)
qed

lemma newMoon_astronomy:
  "depth (computeAstronomy jd newMoonState rot) = 1"
  "axisHitsEarth (computeAstronomy jd newMoonState rot)"
  "bestSeparationDeg (computeAstronomy jd newMoonState rot) = 0"
  "sunAngularRadiusDeg (computeAstronomy jd newMoonState rot)
     \<le> moonAngularRadiusDeg (computeAstronomy jd newMoonState rot)"
  by (simp_all add: computeAstronomy_fields newMoonState_fields aligned_depth aligned_hits
        aligned_bestSeparation perigee_moon_covers_sun)

lemma fullMoon_astronomy:
  "depth (computeAstronomy jd fullMoonState rot) = 0"
  by (simp add: computeAstronomy_fields fullMoonState_fields opposed_depth)

lemma sine_ratio_2: "sin (30 * DEG) = 1 / 2" "sin (90 * DEG) = 1"
  by (simp_all add: DEG_def sin_30)

theorem footprint_radii_witness:
  "0 < depth (computeAstronomy 2451545 newMoonState 0) \<and>
   axisHitsEarth (computeAstronomy 2451545 newMoonState 0) \<and>
   penumbraRadiusDeg (computeAstronomy 2451545 newMoonState 0) =
     arcsin (sin ((sunAngularRadiusDeg (computeAstronomy 2451545 newMoonState 0)
                   + moonAngularRadiusDeg (computeAstronomy 2451545 newMoonState 0)) * DEG)
             / sin (ca_moonParallaxDeg newMoonState * DEG)) * RAD \<and>
   umbraRadiusDeg (computeAstronomy 2451545 newMoonState 0) =
     arcsin (sin (\<bar>sunAngularRadiusDeg (computeAstronomy 2451545 newMoonState 0)
                   - moonAngularRadiusDeg (computeAstronomy 2451545 newMoonState 0)\<bar> * DEG)
             / sin (ca_moonParallaxDeg newMoonState * DEG)) * RAD \<and>
   depth (computeAstronomy 2451545 fullMoonState 0) = 0 \<and>
   penumbraRadiusDeg (computeAstronomy 2451545 fullMoonState 0) = 0 \<and>
   umbraRadiusDeg (computeAstronomy 2451545 fullMoonState 0) = 0 \<and>
   (0::real) < 30 \<and> (0::real) < 90 \<and> 0 < sin (30 * DEG) \<and> 1 < sin (90 * DEG) / sin (30 * DEG) \<and>
   solveFootprintRadiusDeg 30 90 = 89.5"
  using footprint_radii [where c = newMoonState and jd = 2451545 and rot = 0 and p = 30 and t = 90]
    footprint_radii [where c = fullMoonState and jd = 2451545 and rot = 0 and p = 30 and t = 90]
  by (simp add: newMoon_astronomy fullMoon_astronomy sine_ratio_2)

section \<open>Upper bounds of the three angles in degrees\<close>

lemma sin_half_lower:
  assumes "0 \<le> y" "y \<le> pi"
  shows "sin y / 2 \<le> sin (y / 2)"
proof -
  have "sin y = 2 * sin (y / 2) * cos (y / 2)"
    using sin_double [of "y / 2"] by simp
  moreover have "0 \<le> sin (y / 2)"
    using assms by (intro sin_ge_zero) simp_all
  moreover have "cos (y / 2) \<le> 1" by simp
  ultimately have "sin y \<le> 2 * sin (y / 2)"
    by (metis mult.commute mult.right_neutral mult_left_mono mult_nonneg_nonneg
        zero_le_numeral mult.assoc)
  then show ?thesis by simp
qed

lemma sin_small_angles: "1 / 32 \<le> sin (pi / 96)" "1 / 128 \<le> sin (pi / 384)"
proof -
  have s6: "1 / 2 \<le> sin (pi / 6)" by (simp add: sin_30)
  have s12: "1 / 4 \<le> sin (pi / 12)"
    using sin_half_lower [of "pi / 6"] s6 by simp
  have s24: "1 / 8 \<le> sin (pi / 24)"
    using sin_half_lower [of "pi / 12"] s12 by simp
  have s48: "1 / 16 \<le> sin (pi / 48)"
    using sin_half_lower [of "pi / 24"] s24 by simp
  show s96: "1 / 32 \<le> sin (pi / 96)"
    using sin_half_lower [of "pi / 48"] s48 by simp
  have s192: "1 / 64 \<le> sin (pi / 192)"
    using sin_half_lower [of "pi / 96"] s96 by simp
  show "1 / 128 \<le> sin (pi / 384)"
    using sin_half_lower [of "pi / 192"] s192 by simp
qed

lemma arcsin_below:
  assumes "0 \<le> x" "x \<le> sin y" "0 \<le> y" "y \<le> pi / 2"
  shows "arcsin x * RAD \<le> y * RAD"
proof -
  have "sin y \<le> 1" by simp
  then have "arcsin x \<le> arcsin (sin y)"
    using assms by (intro arcsin_le_arcsin) linarith+
  also have "\<dots> = y"
    using assms by (intro arcsin_sin) linarith+
  finally show ?thesis
    using RAD_pos by (intro mult_right_mono) simp_all
qed

lemma radii_bounds:
  "ca_sunAngularRadiusDeg jd \<le> 15 / 32" "ca_moonAngularRadiusDeg c \<le> 15 / 32"
  "ca_moonParallaxDeg c \<le> 15 / 8"
proof -
  have s: "0 \<le> SUN_RADIUS_KM / ca_sunDistanceKm jd"
    "SUN_RADIUS_KM / ca_sunDistanceKm jd \<le> sin (pi / 384)"
    using sun_sine [of jd] sin_small_angles(2) by linarith+
  have m: "0 \<le> MOON_RADIUS_KM / ca_moonDistanceKm c"
    "MOON_RADIUS_KM / ca_moonDistanceKm c \<le> sin (pi / 384)"
    using moon_sine [of c] sin_small_angles(2) by linarith+
  have d: "363300 \<le> ca_moonDistanceKm c"
    using moonDistance_range [of c] by simp
  then have "6371 \<le> 1 / 32 * ca_moonDistanceKm c" by linarith
  then have "EARTH_RADIUS_KM / ca_moonDistanceKm c \<le> 1 / 32"
    using d by (simp add: EARTH_RADIUS_KM_def pos_divide_le_eq)
  then have p: "0 \<le> EARTH_RADIUS_KM / ca_moonDistanceKm c"
    "EARTH_RADIUS_KM / ca_moonDistanceKm c \<le> sin (pi / 96)"
    using parallax_sine_pos [of c] sin_small_angles(1) by linarith+
  have deg: "pi / 384 * RAD = 15 / 32" "pi / 96 * RAD = 15 / 8"
    by (simp_all add: RAD_def)
  show "ca_sunAngularRadiusDeg jd \<le> 15 / 32"
    using arcsin_below [OF s, simplified deg] sun_sine [of jd]
    by (simp add: ca_sunAngularRadiusDeg_def)
  show "ca_moonAngularRadiusDeg c \<le> 15 / 32"
    using arcsin_below [OF m, simplified deg] moon_sine [of c]
    by (simp add: ca_moonAngularRadiusDeg_def)
  show "ca_moonParallaxDeg c \<le> 15 / 8"
    using arcsin_below [OF p, simplified deg] parallax_sine [of c]
    by (simp add: ca_moonParallaxDeg_def)
qed

section \<open>Depth where the axis and the separation decide\<close>

lemma bestSeparation_nonneg: "0 \<le> ca_bestSeparationDeg jd c"
  by (simp add: ca_bestSeparationDeg_def)

lemma covered_sun_depth:
  assumes "ca_bestSeparationDeg jd c \<le> \<bar>ca_moonAngularRadiusDeg c - ca_sunAngularRadiusDeg jd\<bar>"
    and "ca_sunAngularRadiusDeg jd \<le> ca_moonAngularRadiusDeg c"
  shows "ca_depth jd c = 1"
proof -
  have "\<not> ca_sunAngularRadiusDeg jd + ca_moonAngularRadiusDeg c \<le> ca_bestSeparationDeg jd c"
    using assms sunRadius_pos [of jd] by linarith
  moreover have "ca_bestSeparationDeg jd c \<le> \<bar>ca_sunAngularRadiusDeg jd - ca_moonAngularRadiusDeg c\<bar>"
    using assms by linarith
  ultimately show ?thesis
    using assms(2) by (simp add: ca_depth_def overlapFraction_def)
qed

lemma moonRadius_lower: "19 / 100 \<le> ca_moonAngularRadiusDeg c"
proof -
  let ?b = "MOON_RADIUS_KM / ca_moonDistanceKm c"
  have d: "0 < ca_moonDistanceKm c" "ca_moonDistanceKm c \<le> 405500"
    using moonDistance_range [of c] by linarith+
  have "428 / 100000 * ca_moonDistanceKm c \<le> 17374 / 10"
    using d by linarith
  then have b: "428 / 100000 \<le> ?b"
    using d(1) by (simp add: MOON_RADIUS_KM_def pos_le_divide_eq)
  have range: "0 \<le> ?b" "?b \<le> 1" "-1 \<le> ?b"
    using moon_sine [of c] by linarith+
  then have "0 \<le> arcsin ?b"
    by (intro arcsin_nonneg) simp
  then have "sin (arcsin ?b) \<le> arcsin ?b"
    by (rule sin_x_le_x)
  then have "?b \<le> arcsin ?b"
    using range by simp
  then have lo: "428 / 100000 \<le> arcsin ?b"
    using b by linarith
  have "45 \<le> RAD"
    using pi_less_4 pi_gt_zero by (simp add: RAD_def pos_le_divide_eq)
  then have "428 / 100000 * 45 \<le> arcsin ?b * RAD"
    using lo by (intro mult_mono) simp_all
  then show ?thesis
    using moon_sine [of c] by (simp add: ca_moonAngularRadiusDeg_def)
qed

lemma ring_depth:
  assumes "ca_bestSeparationDeg jd c \<le> \<bar>ca_moonAngularRadiusDeg c - ca_sunAngularRadiusDeg jd\<bar>"
    and "ca_moonAngularRadiusDeg c < ca_sunAngularRadiusDeg jd"
  shows "0.0005 < ca_depth jd c"
proof -
  let ?s = "ca_sunAngularRadiusDeg jd" and ?m = "ca_moonAngularRadiusDeg c"
  have m: "19 / 100 \<le> ?m" by (rule moonRadius_lower)
  have s: "0 < ?s" "?s \<le> 15 / 32"
    using sunRadius_pos [of jd] radii_bounds(1) [of jd] by simp_all
  have "\<not> ?s + ?m \<le> ca_bestSeparationDeg jd c"
    using assms m by linarith
  moreover have "ca_bestSeparationDeg jd c \<le> \<bar>?s - ?m\<bar>"
    using assms by linarith
  ultimately have depth: "ca_depth jd c = clamp (?m * ?m / (?s * ?s)) 0 1"
    using assms(2) by (simp add: ca_depth_def overlapFraction_def Let_def)
  have mm: "19 / 100 * (19 / 100) \<le> ?m * ?m"
    using m by (intro mult_mono) simp_all
  have ss: "?s * ?s \<le> 15 / 32 * (15 / 32)"
    using s by (intro mult_mono) simp_all
  have sspos: "0 < ?s * ?s"
    using s(1) by simp
  have "1 / 10 * (?s * ?s) \<le> ?m * ?m"
    using mm ss by linarith
  then have "1 / 10 \<le> ?m * ?m / (?s * ?s)"
    using sspos by (simp only: pos_le_divide_eq)
  then have "1 / 10 \<le> clamp (?m * ?m / (?s * ?s)) 0 1"
    by (simp add: clamp_def)
  then show ?thesis
    unfolding depth by simp
qed

section \<open>Classification\<close>

lemma classifyEclipse_cases:
  "(d \<le> 0.0005 \<longrightarrow> classifyEclipse sep s m d h = NoEclipse) \<and>
   (0.0005 < d \<and> h \<and> sep \<le> \<bar>m - s\<bar> \<and> m \<ge> s \<longrightarrow>
      classifyEclipse sep s m d h = TotalEclipse) \<and>
   (0.0005 < d \<and> h \<and> sep \<le> \<bar>m - s\<bar> \<and> m < s \<longrightarrow>
      classifyEclipse sep s m d h = AnnularEclipse) \<and>
   (0.0005 < d \<and> \<not> (h \<and> sep \<le> \<bar>m - s\<bar>) \<and> sep < s + m \<longrightarrow>
      classifyEclipse sep s m d h = PartialEclipse) \<and>
   (0.0005 < d \<and> \<not> (h \<and> sep \<le> \<bar>m - s\<bar>) \<and> \<not> sep < s + m \<longrightarrow>
      classifyEclipse sep s m d h = NoEclipse)"
  by (auto simp add: classifyEclipse_def Let_def)

text \<open>
  Claim C2. The class of the astronomy of every state is that of \<open>classifyEclipse\<close> on
  its fields, decided by the first case that applies: no eclipse when the depth is at
  most 0.0005; otherwise total when the axis hits the Earth, the best separation is at
  most the absolute difference of the radii and the Moon's radius is not below the
  Sun's; annular under the same condition on axis and separation with the Moon's radius
  below the Sun's; otherwise partial when the best separation is below the sum of the
  radii; otherwise no eclipse. For the total and the annular case the condition on
  axis, separation and radii alone decides: the depth of such a state exceeds 0.0005.
\<close>

theorem classification_cases:
  "(depth (computeAstronomy jd c rot) \<le> 0.0005 \<longrightarrow>
      eclipseClass (computeAstronomy jd c rot) = NoEclipse) \<and>
   (0.0005 < depth (computeAstronomy jd c rot) \<and>
    axisHitsEarth (computeAstronomy jd c rot) \<and>
    bestSeparationDeg (computeAstronomy jd c rot)
      \<le> \<bar>moonAngularRadiusDeg (computeAstronomy jd c rot)
          - sunAngularRadiusDeg (computeAstronomy jd c rot)\<bar> \<and>
    moonAngularRadiusDeg (computeAstronomy jd c rot)
      \<ge> sunAngularRadiusDeg (computeAstronomy jd c rot) \<longrightarrow>
      eclipseClass (computeAstronomy jd c rot) = TotalEclipse) \<and>
   (0.0005 < depth (computeAstronomy jd c rot) \<and>
    axisHitsEarth (computeAstronomy jd c rot) \<and>
    bestSeparationDeg (computeAstronomy jd c rot)
      \<le> \<bar>moonAngularRadiusDeg (computeAstronomy jd c rot)
          - sunAngularRadiusDeg (computeAstronomy jd c rot)\<bar> \<and>
    moonAngularRadiusDeg (computeAstronomy jd c rot)
      < sunAngularRadiusDeg (computeAstronomy jd c rot) \<longrightarrow>
      eclipseClass (computeAstronomy jd c rot) = AnnularEclipse) \<and>
   (0.0005 < depth (computeAstronomy jd c rot) \<and>
    \<not> (axisHitsEarth (computeAstronomy jd c rot) \<and>
       bestSeparationDeg (computeAstronomy jd c rot)
         \<le> \<bar>moonAngularRadiusDeg (computeAstronomy jd c rot)
             - sunAngularRadiusDeg (computeAstronomy jd c rot)\<bar>) \<and>
    bestSeparationDeg (computeAstronomy jd c rot)
      < sunAngularRadiusDeg (computeAstronomy jd c rot)
        + moonAngularRadiusDeg (computeAstronomy jd c rot) \<longrightarrow>
      eclipseClass (computeAstronomy jd c rot) = PartialEclipse) \<and>
   (0.0005 < depth (computeAstronomy jd c rot) \<and>
    \<not> (axisHitsEarth (computeAstronomy jd c rot) \<and>
       bestSeparationDeg (computeAstronomy jd c rot)
         \<le> \<bar>moonAngularRadiusDeg (computeAstronomy jd c rot)
             - sunAngularRadiusDeg (computeAstronomy jd c rot)\<bar>) \<and>
    \<not> bestSeparationDeg (computeAstronomy jd c rot)
      < sunAngularRadiusDeg (computeAstronomy jd c rot)
        + moonAngularRadiusDeg (computeAstronomy jd c rot) \<longrightarrow>
      eclipseClass (computeAstronomy jd c rot) = NoEclipse) \<and>
   (axisHitsEarth (computeAstronomy jd c rot) \<and>
    bestSeparationDeg (computeAstronomy jd c rot)
      \<le> \<bar>moonAngularRadiusDeg (computeAstronomy jd c rot)
          - sunAngularRadiusDeg (computeAstronomy jd c rot)\<bar> \<and>
    moonAngularRadiusDeg (computeAstronomy jd c rot)
      \<ge> sunAngularRadiusDeg (computeAstronomy jd c rot) \<longrightarrow>
      eclipseClass (computeAstronomy jd c rot) = TotalEclipse) \<and>
   (axisHitsEarth (computeAstronomy jd c rot) \<and>
    bestSeparationDeg (computeAstronomy jd c rot)
      \<le> \<bar>moonAngularRadiusDeg (computeAstronomy jd c rot)
          - sunAngularRadiusDeg (computeAstronomy jd c rot)\<bar> \<and>
    moonAngularRadiusDeg (computeAstronomy jd c rot)
      < sunAngularRadiusDeg (computeAstronomy jd c rot) \<longrightarrow>
      eclipseClass (computeAstronomy jd c rot) = AnnularEclipse) \<and>
   eclipseClass (computeAstronomy jd c rot) =
     classifyEclipse (bestSeparationDeg (computeAstronomy jd c rot))
       (sunAngularRadiusDeg (computeAstronomy jd c rot))
       (moonAngularRadiusDeg (computeAstronomy jd c rot))
       (depth (computeAstronomy jd c rot)) (axisHitsEarth (computeAstronomy jd c rot))"
proof -
  have total: "0.0005 < depth (computeAstronomy jd c rot)"
    if "bestSeparationDeg (computeAstronomy jd c rot)
          \<le> \<bar>moonAngularRadiusDeg (computeAstronomy jd c rot)
              - sunAngularRadiusDeg (computeAstronomy jd c rot)\<bar>"
      and "moonAngularRadiusDeg (computeAstronomy jd c rot)
          \<ge> sunAngularRadiusDeg (computeAstronomy jd c rot)"
    using that covered_sun_depth [of jd c] by (simp add: computeAstronomy_fields)
  have ring: "0.0005 < depth (computeAstronomy jd c rot)"
    if "bestSeparationDeg (computeAstronomy jd c rot)
          \<le> \<bar>moonAngularRadiusDeg (computeAstronomy jd c rot)
              - sunAngularRadiusDeg (computeAstronomy jd c rot)\<bar>"
      and "moonAngularRadiusDeg (computeAstronomy jd c rot)
          < sunAngularRadiusDeg (computeAstronomy jd c rot)"
    using that ring_depth [of jd c] by (simp only: computeAstronomy_fields)
  have eq: "eclipseClass (computeAstronomy jd c rot) =
     classifyEclipse (bestSeparationDeg (computeAstronomy jd c rot))
       (sunAngularRadiusDeg (computeAstronomy jd c rot))
       (moonAngularRadiusDeg (computeAstronomy jd c rot))
       (depth (computeAstronomy jd c rot)) (axisHitsEarth (computeAstronomy jd c rot))"
    by (simp only: computeAstronomy_fields)
  show ?thesis
    using classifyEclipse_cases
      [of "depth (computeAstronomy jd c rot)" "bestSeparationDeg (computeAstronomy jd c rot)"
        "sunAngularRadiusDeg (computeAstronomy jd c rot)"
        "moonAngularRadiusDeg (computeAstronomy jd c rot)"
        "axisHitsEarth (computeAstronomy jd c rot)"]
      total ring
    unfolding eq by blast
qed

theorem classification_cases_witness:
  "0.0005 < depth (computeAstronomy 2451545 newMoonState 0) \<and>
   axisHitsEarth (computeAstronomy 2451545 newMoonState 0) \<and>
   bestSeparationDeg (computeAstronomy 2451545 newMoonState 0)
     \<le> \<bar>moonAngularRadiusDeg (computeAstronomy 2451545 newMoonState 0)
         - sunAngularRadiusDeg (computeAstronomy 2451545 newMoonState 0)\<bar> \<and>
   moonAngularRadiusDeg (computeAstronomy 2451545 newMoonState 0)
     \<ge> sunAngularRadiusDeg (computeAstronomy 2451545 newMoonState 0) \<and>
   eclipseClass (computeAstronomy 2451545 newMoonState 0) = TotalEclipse \<and>
   depth (computeAstronomy 2451545 fullMoonState 0) \<le> 0.0005 \<and>
   eclipseClass (computeAstronomy 2451545 fullMoonState 0) = NoEclipse"
  using classification_cases [of 2451545 newMoonState 0]
    classification_cases [of 2451545 fullMoonState 0]
    newMoon_astronomy(4) [of 2451545 0]
  by (simp add: newMoon_astronomy(1-3) fullMoon_astronomy)

section \<open>Intersection of a line with a sphere\<close>








section \<open>The ground track\<close>





section \<open>The bounded search\<close>

lemma search_t_shift:
  "search_t base start t (Suc k) = search_t base start (newMoonAfter base start t + 24) k"
  by (induction k) simp_all

lemma search_loop_done: "search_loop base start 10000 t = (None, 10000)"
  by (subst search_loop.simps) simp

lemma search_loop_step:
  assumes "i < 10000"
  shows "search_loop base start i t =
     (case localEclipseAt base start (newMoonAfter base start t) of
        Some best \<Rightarrow> (Some best, i + 1)
      | None \<Rightarrow> search_loop base start (i + 1) (newMoonAfter base start t + 24))"
  using assms by (subst search_loop.simps) (simp add: Let_def)

lemma search_loop_count:
  "i \<le> 10000 \<Longrightarrow> snd (search_loop base start i t) \<le> 10000"
proof (induction "10000 - i" arbitrary: i t)
  case 0
  then have "i = 10000" by simp
  then show ?case by (simp add: search_loop_done)
next
  case (Suc n)
  then have i: "i < 10000" "n = 10000 - (i + 1)" "i + 1 \<le> 10000" by simp_all
  show ?case
    using Suc.hyps(1) [OF i(2) i(3)] i(1)
    by (simp add: search_loop_step [OF i(1)] split: option.split)
qed

lemma search_loop_exhausted:
  assumes "i \<le> 10000"
    and "\<forall>k < 10000 - i.
           localEclipseAt base start (newMoonAfter base start (search_t base start t k)) = None"
  shows "search_loop base start i t = (None, 10000)"
  using assms
proof (induction "10000 - i" arbitrary: i t)
  case 0
  then have "i = 10000" by simp
  then show ?case by (simp add: search_loop_done)
next
  case (Suc n)
  then have i: "i < 10000" "n = 10000 - (i + 1)" "i + 1 \<le> 10000" by simp_all
  have first: "localEclipseAt base start (newMoonAfter base start t) = None"
    using Suc.prems(2) i(1) by (auto dest: spec [of _ 0])
  have rest: "\<forall>k < 10000 - (i + 1).
      localEclipseAt base start
        (newMoonAfter base start (search_t base start (newMoonAfter base start t + 24) k)) = None"
  proof (intro allI impI)
    fix k assume "k < 10000 - (i + 1)"
    then have "Suc k < 10000 - i" by simp
    then show "localEclipseAt base start
        (newMoonAfter base start (search_t base start (newMoonAfter base start t + 24) k)) = None"
      using Suc.prems(2) by (simp only: search_t_shift [symmetric])
  qed
  show ?case
    using Suc.hyps(1) [OF i(2) i(3) rest]
    by (simp add: search_loop_step [OF i(1)] first)
qed

lemma search_loop_found:
  assumes "i \<le> 10000" and "fst (search_loop base start i t) = Some v"
  shows "\<exists>k < 10000 - i.
           localEclipseAt base start (newMoonAfter base start (search_t base start t k)) = Some v"
  using assms
proof (induction "10000 - i" arbitrary: i t)
  case 0
  then have "i = 10000" by simp
  with "0.prems"(2) show ?case by (simp add: search_loop_done)
next
  case (Suc n)
  then have i: "i < 10000" "n = 10000 - (i + 1)" "i + 1 \<le> 10000" by simp_all
  show ?case
  proof (cases "localEclipseAt base start (newMoonAfter base start t)")
    case (Some best)
    with Suc.prems(2) have "best = v"
      by (simp add: search_loop_step [OF i(1)])
    with Some have "localEclipseAt base start (newMoonAfter base start (search_t base start t 0)) = Some v"
      by simp
    moreover have "0 < 10000 - i" using i(1) by simp
    ultimately show ?thesis by blast
  next
    case None
    with Suc.prems(2) have "fst (search_loop base start (i + 1) (newMoonAfter base start t + 24)) = Some v"
      by (simp add: search_loop_step [OF i(1)])
    from Suc.hyps(1) [OF i(2) i(3) this]
    obtain k where k: "k < 10000 - (i + 1)"
      "localEclipseAt base start
         (newMoonAfter base start (search_t base start (newMoonAfter base start t + 24) k)) = Some v"
      by blast
    from k(2) have "localEclipseAt base start
         (newMoonAfter base start (search_t base start t (Suc k))) = Some v"
      by (simp only: search_t_shift)
    moreover have "Suc k < 10000 - i" using k(1) by simp
    ultimately show ?thesis by blast
  qed
qed

text \<open>
  Claim C4. From every state \<open>(i, t)\<close> of the outer loop with \<open>i \<le> 10000\<close> the body
  has run at most 10000 times when the function returns. When none of the remaining
  turns finds the eclipse visible, the result is \<open>null\<close> (\<open>None\<close>), no number of hours
  and in particular not 0, after exactly 10000 turns; a number is returned only as the
  best instant of a turn that found the eclipse visible. \<open>findNextLocalEclipse\<close> is the
  loop from the state \<open>(0, currentSimHours + 24)\<close>.
\<close>

theorem search_bounded:
  fixes base :: "'a OrbitalParameters_scheme"
  assumes "i \<le> 10000"
  shows
  "snd (search_loop base start i t) \<le> 10000 \<and>
   ((\<forall>k < 10000 - i.
       localEclipseAt base start (newMoonAfter base start (search_t base start t k)) = None) \<longrightarrow>
      fst (search_loop base start i t) = None \<and>
      fst (search_loop base start i t) \<noteq> Some 0 \<and>
      snd (search_loop base start i t) = 10000) \<and>
   (\<forall>v. fst (search_loop base start i t) = Some v \<longrightarrow>
      (\<exists>k < 10000 - i.
         localEclipseAt base start (newMoonAfter base start (search_t base start t k)) = Some v)) \<and>
   findNextLocalEclipse base currentSimHours start
     = fst (search_loop base start 0 (currentSimHours + 24)) \<and>
   findNextLocalEclipse_iterations base currentSimHours start
     = snd (search_loop base start 0 (currentSimHours + 24))"
proof (intro conjI impI allI)
  show "snd (search_loop base start i t) \<le> 10000"
    by (rule search_loop_count [OF assms])
next
  assume none: "\<forall>k < 10000 - i.
       localEclipseAt base start (newMoonAfter base start (search_t base start t k)) = None"
  have r: "search_loop base start i t = (None, 10000)"
    by (rule search_loop_exhausted [OF assms none])
  show "fst (search_loop base start i t) = None"
    and "fst (search_loop base start i t) \<noteq> Some 0"
    and "snd (search_loop base start i t) = 10000"
    by (simp_all add: r)
next
  fix v
  assume "fst (search_loop base start i t) = Some v"
  then show "\<exists>k < 10000 - i.
         localEclipseAt base start (newMoonAfter base start (search_t base start t k)) = Some v"
    by (rule search_loop_found [OF assms])
next
  show "findNextLocalEclipse base currentSimHours start
     = fst (search_loop base start 0 (currentSimHours + 24))"
    by (simp only: findNextLocalEclipse_def)
  show "findNextLocalEclipse_iterations base currentSimHours start
     = snd (search_loop base start 0 (currentSimHours + 24))"
    by (simp only: findNextLocalEclipse_iterations_def)
qed

section \<open>Angles up to whole turns\<close>

lemma cong360_refl: "cong360 a a"
  unfolding cong360_def by (rule exI [of _ 0]) simp

lemma cong360_sym: "cong360 a b \<Longrightarrow> cong360 b a"
  unfolding cong360_def
proof -
  assume "\<exists>k::int. a = b + 360 * of_int k"
  then obtain k :: int where "a = b + 360 * of_int k" by blast
  then have "b = a + 360 * of_int (- k)" by simp
  then show "\<exists>k::int. b = a + 360 * of_int k" by blast
qed

lemma cong360_trans: "cong360 a b \<Longrightarrow> cong360 b c \<Longrightarrow> cong360 a c"
  unfolding cong360_def
proof -
  assume "\<exists>k::int. a = b + 360 * of_int k" "\<exists>k::int. b = c + 360 * of_int k"
  then obtain k l :: int where "a = b + 360 * of_int k" "b = c + 360 * of_int l" by blast
  then have "a = c + 360 * of_int (k + l)" by simp
  then show "\<exists>k::int. a = c + 360 * of_int k" by blast
qed

lemma cong360_add: "cong360 a b \<Longrightarrow> cong360 c d \<Longrightarrow> cong360 (a + c) (b + d)"
  unfolding cong360_def
proof -
  assume "\<exists>k::int. a = b + 360 * of_int k" "\<exists>k::int. c = d + 360 * of_int k"
  then obtain k l :: int where "a = b + 360 * of_int k" "c = d + 360 * of_int l" by blast
  then have "a + c = b + d + 360 * of_int (k + l)" by simp
  then show "\<exists>k::int. a + c = b + d + 360 * of_int k" by blast
qed

lemma cong360_diff: "cong360 a b \<Longrightarrow> cong360 c d \<Longrightarrow> cong360 (a - c) (b - d)"
  unfolding cong360_def
proof -
  assume "\<exists>k::int. a = b + 360 * of_int k" "\<exists>k::int. c = d + 360 * of_int k"
  then obtain k l :: int where "a = b + 360 * of_int k" "c = d + 360 * of_int l" by blast
  then have "a - c = b - d + 360 * of_int (k - l)" by simp
  then show "\<exists>k::int. a - c = b - d + 360 * of_int k" by blast
qed

lemma cong360_normalize360: "cong360 (normalize360 a) a"
  unfolding cong360_def by (rule normalize360_cong)

lemma cong360_normalize180: "cong360 (normalize180 a) a"
  unfolding cong360_def by (rule normalize180_cong)

lemma cong360_close:
  assumes "cong360 a b" "\<bar>a - b\<bar> < 360"
  shows "a = b"
proof -
  from assms(1) obtain k :: int where k: "a = b + 360 * of_int k"
    unfolding cong360_def by blast
  then have "\<bar>360 * real_of_int k\<bar> < 360"
    using assms(2) by simp
  then have "\<bar>real_of_int k\<bar> < 1"
    by (simp add: abs_mult)
  then have "k = 0"
    by linarith
  with k show ?thesis by simp
qed

text \<open>The phase angle of the search at a state propagated from the base.\<close>

lemma moonToSun_computeAstronomy:
  "moonToSun (computeAstronomy jd c rot) =
     normalize180 (normalize360 (moonEclipticLon c) - normalize360 (sunEclipticLon c))"
  unfolding computeAstronomy_def Let_def
  by (simp only: Astronomy.select_convs)

lemma moonToSun_astroAt:
  fixes base :: "'a OrbitalParameters_scheme"
  shows "cong360 (moonToSun (astroAt base start t))
     (ascendingNodeLon base + moonNodePhase base - sunEclipticLon base
        + t * (MOON_ECLIPTIC_DEG_PER_HOUR - SUN_ECLIPTIC_DEG_PER_HOUR))"
proof -
  let ?st = "deriveSimulationState base t start"
  have moon: "cong360 (moonEclipticLon ?st)
      (ascendingNodeLon base + t * NODE_REGRESSION_DEG_PER_HOUR
       + (moonNodePhase base + t * (MOON_ECLIPTIC_DEG_PER_HOUR - NODE_REGRESSION_DEG_PER_HOUR)))"
    unfolding derive_fields
    by (intro cong360_trans [OF cong360_normalize360] cong360_add
          cong360_normalize360 cong360_normalize180)
  have sun: "cong360 (sunEclipticLon ?st) (sunEclipticLon base + t * SUN_ECLIPTIC_DEG_PER_HOUR)"
    unfolding derive_fields by (rule cong360_normalize360)
  have "cong360 (moonToSun (astroAt base start t))
      (ascendingNodeLon base + t * NODE_REGRESSION_DEG_PER_HOUR
       + (moonNodePhase base + t * (MOON_ECLIPTIC_DEG_PER_HOUR - NODE_REGRESSION_DEG_PER_HOUR))
       - (sunEclipticLon base + t * SUN_ECLIPTIC_DEG_PER_HOUR))"
    unfolding astroAt_def Let_def moonToSun_computeAstronomy
    by (intro cong360_trans [OF cong360_normalize180] cong360_diff
          cong360_trans [OF cong360_normalize360 moon] cong360_trans [OF cong360_normalize360 sun])
  moreover have "ascendingNodeLon base + t * NODE_REGRESSION_DEG_PER_HOUR
       + (moonNodePhase base + t * (MOON_ECLIPTIC_DEG_PER_HOUR - NODE_REGRESSION_DEG_PER_HOUR))
       - (sunEclipticLon base + t * SUN_ECLIPTIC_DEG_PER_HOUR)
     = ascendingNodeLon base + moonNodePhase base - sunEclipticLon base
        + t * (MOON_ECLIPTIC_DEG_PER_HOUR - SUN_ECLIPTIC_DEG_PER_HOUR)"
    by (simp add: algebra_simps)
  ultimately show ?thesis by simp
qed

lemma moonToSun_astroAt_range:
  fixes base :: "'a OrbitalParameters_scheme"
  shows "-180 \<le> moonToSun (astroAt base start t) \<and> moonToSun (astroAt base start t) \<le> 180"
  unfolding astroAt_def Let_def moonToSun_computeAstronomy by (rule normalize180_range)

text \<open>At an exact new moon the three refinement steps change nothing.\<close>

lemma refine_loop_fixed:
  fixes base :: "'a OrbitalParameters_scheme"
  assumes "moonToSun (astroAt base start t) = 0"
  shows "refine_loop base start j t = t"
proof (induction "3 - j" arbitrary: j)
  case 0
  then have "\<not> j < 3" by simp
  then show ?case
    by (subst refine_loop.simps) simp
next
  case (Suc n)
  then have j: "j < 3" "n = 3 - (j + 1)" by simp_all
  show ?case
    using Suc.hyps(1) [OF j(2)] j(1)
    by (subst refine_loop.simps) (simp add: Let_def assms)
qed

section \<open>Separation of Sun and Moon at equal longitudes\<close>

lemma rotateX_dot:
  "dotVector (applyMatrix3 (rotationMatrixX e) u) (applyMatrix3 (rotationMatrixX e) v)
     = dotVector u v"
proof -
  define co where "co = cos (e * DEG)"
  define si where "si = sin (e * DEG)"
  have one: "co * co + si * si = 1"
    unfolding co_def si_def
    using sin_cos_squared_add2 [of "e * DEG"] by (simp add: power2_eq_square)
  have "dotVector (applyMatrix3 (rotationMatrixX e) u) (applyMatrix3 (rotationMatrixX e) v)
      = vx u * vx v + (co * co + si * si) * (vy u * vy v) + (co * co + si * si) * (vz u * vz v)"
    unfolding dotVector_def applyMatrix3_def rotationMatrixX_def Let_def
      co_def [symmetric] si_def [symmetric]
    by (simp add: algebra_simps)
  then show ?thesis
    by (simp add: one dotVector_def)
qed

lemma rotateX_magnitude:
  "magnitudeVector (applyMatrix3 (rotationMatrixX e) u) = magnitudeVector u"
  by (simp add: magnitudeVector_def rotateX_dot)

lemma spherical_dot:
  "dotVector (sphericalToCartesian d1 l lat1) (sphericalToCartesian d2 l lat2)
     = d1 * d2 * cos (lat1 * DEG - lat2 * DEG)"
proof -
  define cl where "cl = cos (l * DEG)"
  define sl where "sl = sin (l * DEG)"
  have one: "cl * cl + sl * sl = 1"
    unfolding cl_def sl_def
    using sin_cos_squared_add2 [of "l * DEG"] by (simp add: power2_eq_square)
  have "dotVector (sphericalToCartesian d1 l lat1) (sphericalToCartesian d2 l lat2)
      = d1 * d2 * ((cl * cl + sl * sl) * (cos (lat1 * DEG) * cos (lat2 * DEG))
                   + sin (lat1 * DEG) * sin (lat2 * DEG))"
    unfolding dotVector_def sphericalToCartesian_def Let_def
      cl_def [symmetric] sl_def [symmetric]
    by (simp add: algebra_simps)
  then show ?thesis
    by (simp add: one cos_diff)
qed

lemma spherical_magnitude:
  assumes "0 \<le> d"
  shows "magnitudeVector (sphericalToCartesian d l la) = d"
proof -
  have "dotVector (sphericalToCartesian d l la) (sphericalToCartesian d l la) = d * d"
    by (simp add: spherical_dot)
  then show ?thesis
    using assms by (simp add: magnitudeVector_def)
qed

lemma scale_dot:
  "dotVector (scaleVector u a) (scaleVector v b) = a * b * dotVector u v"
  by (simp add: dotVector_def scaleVector_def algebra_simps)

lemma normalize_dot:
  assumes "1 \<le> magnitudeVector u" "1 \<le> magnitudeVector v"
  shows "dotVector (normalizeVector u) (normalizeVector v)
         = dotVector u v / (magnitudeVector u * magnitudeVector v)"
proof -
  have "\<not> magnitudeVector u < 1 / 10 ^ 12" "\<not> magnitudeVector v < 1 / 10 ^ 12"
    using assms by simp_all
  then show ?thesis
    by (simp add: normalizeVector_def Let_def scale_dot)
qed

lemma equal_longitude_separation:
  assumes "normalize360 (sunEclipticLon c) = normalize360 (moonEclipticLon c)"
    and "\<bar>ca_correctedMoonLat c\<bar> \<le> 180"
  shows "angularSeparationFromVectors (ca_sunVector jd c) (ca_moonVector jd c)
         = \<bar>ca_correctedMoonLat c\<bar>"
proof -
  let ?S = "ca_sunDistanceKm jd" and ?D = "ca_moonDistanceKm c"
  let ?l = "normalize360 (moonEclipticLon c)"
  let ?b = "ca_correctedMoonLat c"
  have S: "1 \<le> ?S" using sunDistance_lower [of jd] by linarith
  have D: "1 \<le> ?D" using moonDistance_range [of c] by linarith
  have mu: "magnitudeVector (ca_sunVector jd c) = ?S"
    using S by (simp add: ca_sunVector_def rotateX_magnitude spherical_magnitude)
  have mv: "magnitudeVector (ca_moonVector jd c) = ?D"
    using D by (simp add: ca_moonVector_def rotateX_magnitude spherical_magnitude)
  have "dotVector (ca_sunVector jd c) (ca_moonVector jd c) = ?S * ?D * cos (0 * DEG - ?b * DEG)"
    by (simp only: ca_sunVector_def ca_moonVector_def rotateX_dot assms(1) spherical_dot)
  then have d: "dotVector (ca_sunVector jd c) (ca_moonVector jd c) = ?S * ?D * cos (?b * DEG)"
    by simp
  have "dotVector (normalizeVector (ca_sunVector jd c)) (normalizeVector (ca_moonVector jd c))
        = ?S * ?D * cos (?b * DEG) / (?S * ?D)"
    using S D by (simp only: normalize_dot mu mv d)
  also have "\<dots> = cos (?b * DEG)"
    using S D by simp
  finally have nd: "dotVector (normalizeVector (ca_sunVector jd c))
      (normalizeVector (ca_moonVector jd c)) = cos (?b * DEG)" .
  have cl: "clamp (cos (?b * DEG)) (-1) 1 = cos (?b * DEG)"
    by (rule clamp_id) simp_all
  have "\<bar>?b * DEG\<bar> = \<bar>?b\<bar> * DEG"
    by (simp add: abs_mult DEG_def)
  moreover have "\<bar>?b\<bar> * DEG \<le> 180 * DEG"
    using assms(2) by (intro mult_right_mono) (simp_all add: DEG_def)
  ultimately have "\<bar>?b * DEG\<bar> \<le> pi"
    by (simp add: DEG_def)
  then have "arccos (cos (?b * DEG)) = \<bar>?b * DEG\<bar>"
    by (rule arccos_cos_eq_abs)
  then have "arccos (cos (?b * DEG)) * RAD = \<bar>?b\<bar>"
    by (simp add: abs_mult DEG_def RAD_def)
  then show ?thesis
    by (simp only: angularSeparationFromVectors_def Let_def nd cl)
qed

section \<open>A new moon far from the node\<close>

text \<open>A new moon far from the node: no disk overlap.\<close>

lemma high_latitude_no_eclipse:
  assumes "normalize360 (sunEclipticLon c) = normalize360 (moonEclipticLon c)"
    and "ca_correctedMoonLat c = LUNAR_INCLINATION_DEG"
  shows "ca_depth jd c = 0"
proof -
  have lat: "\<bar>ca_correctedMoonLat c\<bar> = 5.145"
    by (simp add: assms(2) LUNAR_INCLINATION_DEG_def)
  then have "\<bar>ca_correctedMoonLat c\<bar> \<le> 180" by simp
  from equal_longitude_separation [OF assms(1) this, of jd]
  have sep: "angularSeparationFromVectors (ca_sunVector jd c) (ca_moonVector jd c) = 5.145"
    by (simp only: lat)
  have "ca_sunAngularRadiusDeg jd + ca_moonAngularRadiusDeg c
        \<le> 5.145 - ca_moonParallaxDeg c"
    using radii_bounds(1) [of jd] radii_bounds(2,3) [of c] by simp
  then have "ca_sunAngularRadiusDeg jd + ca_moonAngularRadiusDeg c \<le> ca_bestSeparationDeg jd c"
    by (simp add: ca_bestSeparationDeg_def sep)
  then show ?thesis
    by (simp add: ca_depth_def overlapFraction_def)
qed

section \<open>The new-moon estimate in exact arithmetic\<close>

lemma rate_gap_pos: "0 < MOON_ECLIPTIC_DEG_PER_HOUR - SUN_ECLIPTIC_DEG_PER_HOUR"
  by (simp add: MOON_ECLIPTIC_DEG_PER_HOUR_def SUN_ECLIPTIC_DEG_PER_HOUR_def)

text \<open>
  With constant rates the linear estimate of the outer loop lands on a state whose
  phase angle is exactly 0, and the refinement leaves it there.
\<close>

lemma newMoonAfter_exact:
  fixes base :: "'a OrbitalParameters_scheme"
  defines "gap \<equiv> MOON_ECLIPTIC_DEG_PER_HOUR - SUN_ECLIPTIC_DEG_PER_HOUR"
  assumes ph: "phase = (if moonToSun (astroAt base start t) < 0
                        then moonToSun (astroAt base start t) + 360
                        else moonToSun (astroAt base start t))"
  shows "moonToSun (astroAt base start (t + (360 - phase) / gap)) = 0"
    and "newMoonAfter base start t = t + (360 - phase) / gap"
proof -
  let ?A = "ascendingNodeLon base + moonNodePhase base - sunEclipticLon base"
  let ?m0 = "moonToSun (astroAt base start t)"
  let ?t1 = "t + (360 - phase) / gap"
  let ?m1 = "moonToSun (astroAt base start ?t1)"
  have gap: "gap \<noteq> 0"
    using rate_gap_pos by (simp add: gap_def)
  obtain k0 :: int where k0: "?m0 = ?A + t * gap + 360 * of_int k0"
    using moonToSun_astroAt [of base start t] unfolding cong360_def gap_def by blast
  obtain k1 :: int where k1: "?m1 = ?A + ?t1 * gap + 360 * of_int k1"
    using moonToSun_astroAt [of base start ?t1] unfolding cong360_def gap_def by blast
  obtain j :: int where j: "phase = ?m0 + 360 * of_int j"
  proof (cases "?m0 < 0")
    case True
    then have "phase = ?m0 + 360 * of_int 1" by (simp add: ph)
    then show ?thesis by (rule that)
  next
    case False
    then have "phase = ?m0 + 360 * of_int 0" by (simp add: ph)
    then show ?thesis by (rule that)
  qed
  have "?t1 * gap = t * gap + (360 - phase)"
    using gap by (simp add: distrib_right)
  then have "?m1 = ?m0 - 360 * of_int k0 + 360 - phase + 360 * of_int k1"
    using k0 k1 by linarith
  then have "?m1 = 0 + 360 * of_int (k1 - k0 + 1 - j)"
    using j by simp
  then have "cong360 ?m1 0"
    unfolding cong360_def by blast
  moreover have "\<bar>?m1 - 0\<bar> < 360"
    using moonToSun_astroAt_range [of base start ?t1] by linarith
  ultimately show zero: "?m1 = 0"
    by (rule cong360_close)
  show "newMoonAfter base start t = ?t1"
    unfolding newMoonAfter_def Let_def ph [symmetric] gap_def [symmetric]
    using zero by (simp only: refine_loop_fixed gap_def)
qed

section \<open>A turn of the search that finds nothing\<close>

lemma drought_phase: 
  "(if moonToSun (astroAt droughtParams 0 0) < 0
    then moonToSun (astroAt droughtParams 0 0) + 360
    else moonToSun (astroAt droughtParams 0 0)) = 180"
proof -
  let ?m0 = "moonToSun (astroAt droughtParams 0 0)"
  have "cong360 ?m0 (- 180)"
    using moonToSun_astroAt [of droughtParams 0 0] by (simp add: droughtParams_def)
  then obtain k :: int where k: "?m0 = - 180 + 360 * of_int k"
    unfolding cong360_def by blast
  have "- 180 \<le> ?m0" "?m0 \<le> 180"
    using moonToSun_astroAt_range [of droughtParams 0 0] by simp_all
  then have "0 \<le> real_of_int k" "real_of_int k \<le> 1"
    using k by linarith+
  then have "k = 0 \<or> k = 1"
    by linarith
  then show ?thesis
    using k by auto
qed

lemma drought_newMoon:
  "newMoonAfter droughtParams 0 0 = droughtNewMoon"
  "moonToSun (astroAt droughtParams 0 droughtNewMoon) = 0"
  using newMoonAfter_exact [OF drought_phase [symmetric]]
  by (simp_all add: droughtNewMoon_def)

lemma drought_longitudes:
  "normalize360 (sunEclipticLon (deriveSimulationState droughtParams droughtNewMoon 0))
   = normalize360 (moonEclipticLon (deriveSimulationState droughtParams droughtNewMoon 0))"
proof -
  let ?st = "deriveSimulationState droughtParams droughtNewMoon 0"
  let ?x = "normalize360 (moonEclipticLon ?st)" and ?y = "normalize360 (sunEclipticLon ?st)"
  have "normalize180 (?x - ?y) = 0"
    using drought_newMoon(2) by (simp add: astroAt_def Let_def moonToSun_computeAstronomy)
  then have "cong360 0 (?x - ?y)"
    using cong360_normalize180 [of "?x - ?y"] by simp
  then have "cong360 (?x - ?y) 0"
    by (rule cong360_sym)
  moreover have "\<bar>?x - ?y - 0\<bar> < 360"
    using normalize360_range [of "moonEclipticLon ?st"] normalize360_range [of "sunEclipticLon ?st"]
    by linarith
  ultimately have "?x - ?y = 0"
    by (rule cong360_close)
  then show ?thesis by simp
qed

lemma drought_latitude:
  "ca_correctedMoonLat (deriveSimulationState droughtParams droughtNewMoon 0)
   = LUNAR_INCLINATION_DEG"
proof -
  let ?st = "deriveSimulationState droughtParams droughtNewMoon 0"
  let ?v = "normalize180 (normalize360 (moonEclipticLon ?st) - normalize360 (ascendingNodeLon ?st))"
  have gap: "MOON_ECLIPTIC_DEG_PER_HOUR - SUN_ECLIPTIC_DEG_PER_HOUR \<noteq> 0"
    using rate_gap_pos by simp
  have "moonNodePhase ?st = normalize180 90"
    by (simp add: derive_fields droughtParams_def droughtNewMoon_def)
  then have phase: "moonNodePhase ?st = 90"
    by (simp add: normalize180_id)
  have "cong360 (moonEclipticLon ?st) (ascendingNodeLon ?st + 90)"
    using cong360_normalize360 [of "ascendingNodeLon ?st + moonNodePhase ?st"]
    by (simp only: derive_fields(6) phase)
  then have "cong360 (normalize360 (moonEclipticLon ?st) - normalize360 (ascendingNodeLon ?st))
      (ascendingNodeLon ?st + 90 - ascendingNodeLon ?st)"
    by (intro cong360_diff cong360_trans [OF cong360_normalize360] cong360_normalize360)
  then have "cong360 ?v 90"
    using cong360_trans [OF cong360_normalize180] by simp
  moreover have "\<bar>?v - 90\<bar> < 360"
    using normalize180_range
      [of "normalize360 (moonEclipticLon ?st) - normalize360 (ascendingNodeLon ?st)"]
    by linarith
  ultimately have v: "?v = 90"
    by (rule cong360_close)
  show ?thesis
    unfolding ca_correctedMoonLat_def v
    by (simp add: sine_ratio_2 LUNAR_INCLINATION_DEG_def clamp_def)
qed

lemma drought_no_local_eclipse:
  "localEclipseAt droughtParams 0 droughtNewMoon = None"
proof -
  let ?st = "deriveSimulationState droughtParams droughtNewMoon 0"
  have "depth (astroAt droughtParams 0 droughtNewMoon) = ca_depth (julianDay ?st) ?st"
    by (simp add: astroAt_def Let_def computeAstronomy_fields)
  also have "\<dots> = 0"
    by (rule high_latitude_no_eclipse [OF drought_longitudes drought_latitude])
  finally show ?thesis
    by (simp add: localEclipseAt_def Let_def)
qed

lemma drought_last_turn:
  "search_loop droughtParams 0 9999 0 = (None, 10000)"
  by (simp add: search_loop_step drought_newMoon(1) drought_no_local_eclipse search_loop_done)

theorem search_bounded_witness:
  "(9999::nat) \<le> 10000 \<and>
   localEclipseAt droughtParams 0
     (newMoonAfter droughtParams 0 (search_t droughtParams 0 0 0)) = None \<and>
   snd (search_loop droughtParams 0 9999 0) \<le> 10000 \<and>
   fst (search_loop droughtParams 0 9999 0) = None \<and>
   fst (search_loop droughtParams 0 9999 0) \<noteq> Some 0 \<and>
   snd (search_loop droughtParams 0 9999 0) = 10000"
proof -
  have first: "localEclipseAt droughtParams 0
     (newMoonAfter droughtParams 0 (search_t droughtParams 0 0 0)) = None"
    by (simp add: drought_newMoon(1) drought_no_local_eclipse)
  have all: "\<forall>k < 10000 - 9999.
     localEclipseAt droughtParams 0
       (newMoonAfter droughtParams 0 (search_t droughtParams 0 0 k)) = None"
  proof (intro allI impI)
    fix k :: nat
    assume "k < 10000 - 9999"
    then have "k = 0" by simp
    with first show "localEclipseAt droughtParams 0
       (newMoonAfter droughtParams 0 (search_t droughtParams 0 0 k)) = None"
      by simp
  qed
  have le: "(9999::nat) \<le> 10000" by simp
  from search_bounded [OF le, of droughtParams 0 0 0] all first le
  show ?thesis by blast
qed

section \<open>Samples of the ground track as propagated states\<close>





text \<open>
  The instant of a propagated state is a whole number of milliseconds, and so is half
  an hour: the Julian day of the state propagated by a sampled offset is the Julian day
  the loop passes, \<open>julianDay + hour / 24\<close>.
\<close>

lemma js_trunc_of_int: "js_trunc (of_int n) = n"
  by (simp add: js_trunc_def)





section \<open>The sample at offset 0\<close>







section \<open>Rounding to binary64\<close>

lemma round_half_even_error: "\<bar>of_int (round_half_even q) - q\<bar> \<le> 1 / 2"
  unfolding round_half_even_def Let_def by (auto; linarith)

lemma round_half_even_eq:
  assumes "\<bar>q - of_int n\<bar> < 1 / 2"
  shows "round_half_even q = n"
proof -
  have "\<bar>of_int (round_half_even q) - q\<bar> \<le> 1 / 2"
    by (rule round_half_even_error)
  with assms have "\<bar>(of_int (round_half_even q) :: real) - of_int n\<bar> < 1"
    by linarith
  then have "\<bar>of_int (round_half_even q - n) :: real\<bar> < 1"
    by simp
  then have "\<bar>round_half_even q - n\<bar> < 1"
    by (simp only: of_int_abs [symmetric] of_int_less_1_iff)
  then show ?thesis by linarith
qed

lemma round_half_even_int: "round_half_even (of_int n) = n"
  by (rule round_half_even_eq) simp

lemma round_half_even_le:
  assumes "q \<le> of_int n"
  shows "round_half_even q \<le> n"
proof -
  have f: "\<lfloor>q\<rfloor> \<le> n" using assms by (simp add: floor_le_iff) 
  show ?thesis
  proof (cases "\<lfloor>q\<rfloor> = n")
    case True
    then have "q = of_int n" using assms by (metis of_int_floor_le order_antisym)
    then show ?thesis by (simp add: round_half_even_int)
  next
    case False
    with f have "\<lfloor>q\<rfloor> + 1 \<le> n" by linarith
    moreover have "round_half_even q \<le> \<lfloor>q\<rfloor> + 1"
      unfolding round_half_even_def Let_def by auto
    ultimately show ?thesis by linarith
  qed
qed

lemma round_half_even_ge:
  assumes "of_int n \<le> q"
  shows "n \<le> round_half_even q"
proof -
  have "n \<le> \<lfloor>q\<rfloor>" using assms by (simp add: le_floor_iff)
  moreover have "\<lfloor>q\<rfloor> \<le> round_half_even q"
    unfolding round_half_even_def Let_def by auto
  ultimately show ?thesis by linarith
qed

lemma round_half_even_minus: "round_half_even (- q) = - round_half_even q"
proof (cases "q = of_int \<lfloor>q\<rfloor>")
  case True
  then obtain n :: int where "q = of_int n" ..
  then have "round_half_even (- q) = round_half_even (of_int (- n))" by simp
  then show ?thesis
    unfolding \<open>q = of_int n\<close> by (simp only: round_half_even_int)
next
  case False
  define f where "f = \<lfloor>q\<rfloor>"
  have lt: "of_int f < q" "q < of_int f + 1"
    using False unfolding f_def by linarith+
  have fl: "\<lfloor>- q\<rfloor> = - f - 1"
    using lt by (intro floor_unique) simp_all
  have ev: "even (- f - 1) \<longleftrightarrow> \<not> even f"
    by simp
  show ?thesis
    unfolding round_half_even_def Let_def fl ev f_def [symmetric]
    using lt by (auto; linarith)
qed


lemma round_double_minus: "round_double (- x) = - round_double x"
  unfolding round_double_def ulp_exponent_def
  by (simp add: round_half_even_minus)

lemma round_double_error_ulp:
  "\<bar>round_double x - x\<bar> \<le> 2 powr of_int (ulp_exponent x) / 2"
proof (cases "x = 0")
  case True
  then show ?thesis by (simp add: round_double_def)
next
  case False
  define u where "u = (2::real) powr of_int (ulp_exponent x)"
  have u: "0 < u" by (simp add: u_def)
  have "\<bar>of_int (round_half_even (x / u)) - x / u\<bar> \<le> 1 / 2"
    by (rule round_half_even_error)
  then have "\<bar>of_int (round_half_even (x / u)) - x / u\<bar> * u \<le> 1 / 2 * u"
    using u by (intro mult_right_mono) simp_all
  moreover have "\<bar>of_int (round_half_even (x / u)) - x / u\<bar> * u
      = \<bar>of_int (round_half_even (x / u)) * u - x\<bar>"
  proof -
    have "(of_int (round_half_even (x / u)) - x / u) * u
        = of_int (round_half_even (x / u)) * u - x"
      using u by (simp add: left_diff_distrib)
    then have "\<bar>of_int (round_half_even (x / u)) * u - x\<bar>
        = \<bar>of_int (round_half_even (x / u)) - x / u\<bar> * \<bar>u\<bar>"
      by (simp only: abs_mult [symmetric])
    then show ?thesis
      using u by simp
  qed
  ultimately have "\<bar>of_int (round_half_even (x / u)) * u - x\<bar> \<le> u / 2"
    by linarith
  moreover have "round_double x = of_int (round_half_even (x / u)) * u"
    using False by (simp only: round_double_def u_def if_False)
  ultimately show ?thesis
    by (simp only: u_def)
qed

lemma floor_log2_less:
  assumes "x \<noteq> 0" "\<bar>x\<bar> < 2 powr of_int k"
  shows "\<lfloor>log 2 \<bar>x\<bar>\<rfloor> < k"
proof -
  have "log 2 \<bar>x\<bar> < of_int k"
    using assms by (simp add: log_less_iff)
  then show ?thesis
    by (simp add: floor_less_iff)
qed

lemma floor_log2_eq:
  assumes "2 powr of_int k \<le> \<bar>x\<bar>" "\<bar>x\<bar> < 2 powr of_int (k + 1)"
  shows "\<lfloor>log 2 \<bar>x\<bar>\<rfloor> = k"
proof -
  have "0 < \<bar>x\<bar>"
    using assms(1) powr_gt_zero [of 2 "of_int k"] by linarith
  then show ?thesis
    using assms by (simp add: floor_log_eq_powr_iff)
qed

lemma ulp_exponent_less:
  assumes "x \<noteq> 0" "\<bar>x\<bar> < 2 powr of_int k" "- 1021 \<le> k"
  shows "ulp_exponent x \<le> k - 53"
  using floor_log2_less [OF assms(1,2)] assms(3) unfolding ulp_exponent_def by linarith

lemma ulp_exponent_eq:
  assumes "2 powr of_int k \<le> \<bar>x\<bar>" "\<bar>x\<bar> < 2 powr of_int (k + 1)" "- 1022 \<le> k"
  shows "ulp_exponent x = k - 52"
  using floor_log2_eq [OF assms(1,2)] assms(3) unfolding ulp_exponent_def by linarith

lemma ulp_exponent_ge: "- 1074 \<le> ulp_exponent x"
  unfolding ulp_exponent_def by linarith

text \<open>A multiple of a power of two on a grid at least as coarse as the one of \<open>x\<close>.\<close>

lemma on_grid:
  assumes "u \<le> e"
  shows "of_int m * (2::real) powr of_int e / 2 powr of_int u = of_int (m * 2 ^ nat (e - u))"
proof -
  define d where "d = e - u"
  have d: "0 \<le> d" "e = d + u"
    using assms by (simp_all add: d_def)
  have "(2::real) powr of_int e = 2 powr of_int d * 2 powr of_int u"
    unfolding d(2) by (simp add: powr_add)
  moreover have "(2::real) powr of_int d = 2 ^ nat d"
    using d(1) powr_real_of_int [of 2 d] by simp
  ultimately show ?thesis
    by (simp add: d_def)
qed

lemma round_double_representable:
  assumes "\<bar>m\<bar> < 2 ^ 53" "- 1074 \<le> e"
  shows "round_double (of_int m * 2 powr of_int e) = of_int m * 2 powr of_int e"
proof (cases "m = 0")
  case True
  then show ?thesis by (simp add: round_double_def)
next
  case False
  define x :: real where "x = of_int m * 2 powr of_int e"
  have x0: "x \<noteq> 0" using False by (simp add: x_def)
  have "\<bar>x\<bar> = of_int \<bar>m\<bar> * 2 powr of_int e"
    by (simp add: x_def abs_mult)
  also have "\<dots> < 2 ^ 53 * 2 powr of_int e"
  proof -
    have "(of_int \<bar>m\<bar> :: real) < of_int (2 ^ 53)"
      using assms(1) by (simp only: of_int_less_iff)
    then show ?thesis by simp
  qed
  also have "\<dots> = 2 powr of_int (e + 53)"
    by (simp add: powr_add)
  finally have "\<lfloor>log 2 \<bar>x\<bar>\<rfloor> < e + 53"
    using x0 by (intro floor_log2_less)
  then have u: "ulp_exponent x \<le> e"
    using assms(2) unfolding ulp_exponent_def by linarith
  have q: "x / 2 powr of_int (ulp_exponent x) = of_int (m * 2 ^ nat (e - ulp_exponent x))"
    using on_grid [OF u, of m] by (simp only: x_def)
  have "round_double x
      = of_int (m * 2 ^ nat (e - ulp_exponent x)) * 2 powr of_int (ulp_exponent x)"
    using x0 by (simp only: round_double_def q round_half_even_int if_False)
  also have "\<dots> = x / 2 powr of_int (ulp_exponent x) * 2 powr of_int (ulp_exponent x)"
    by (simp only: q)
  also have "\<dots> = x"
    by simp
  finally show ?thesis
    by (simp only: x_def)
qed

lemma round_double_le:
  assumes "x \<le> of_int m * 2 powr of_int e" "x \<noteq> 0 \<Longrightarrow> ulp_exponent x \<le> e"
  shows "round_double x \<le> of_int m * 2 powr of_int e"
proof (cases "x = 0")
  case True
  with assms(1) show ?thesis by (simp add: round_double_def)
next
  case False
  define u where "u = ulp_exponent x"
  have ue: "u \<le> e"
    unfolding u_def using False by (rule assms(2))
  have "x / 2 powr of_int u \<le> of_int m * 2 powr of_int e / 2 powr of_int u"
    using assms(1) by (simp add: divide_right_mono)
  then have "x / 2 powr of_int u \<le> of_int (m * 2 ^ nat (e - u))"
    using ue by (simp only: on_grid)
  then have "round_half_even (x / 2 powr of_int u) \<le> m * 2 ^ nat (e - u)"
    by (rule round_half_even_le)
  then have "(of_int (round_half_even (x / 2 powr of_int u)) :: real)
      \<le> of_int (m * 2 ^ nat (e - u))"
    by (simp only: of_int_le_iff)
  then have "of_int (round_half_even (x / 2 powr of_int u)) * (2::real) powr of_int u
      \<le> of_int (m * 2 ^ nat (e - u)) * 2 powr of_int u"
    by (intro mult_right_mono) simp_all
  also have "of_int (m * 2 ^ nat (e - u)) * (2::real) powr of_int u
      = of_int m * 2 powr of_int e / 2 powr of_int u * 2 powr of_int u"
    using ue by (simp only: on_grid)
  also have "\<dots> = of_int m * 2 powr of_int e"
    by simp
  finally show ?thesis
    using False by (simp only: round_double_def u_def if_False)
qed

lemma round_double_ge:
  assumes "of_int m * 2 powr of_int e \<le> x" "x \<noteq> 0 \<Longrightarrow> ulp_exponent x \<le> e"
  shows "of_int m * 2 powr of_int e \<le> round_double x"
proof -
  have "ulp_exponent (- x) = ulp_exponent x"
    by (simp add: ulp_exponent_def)
  then have "round_double (- x) \<le> of_int (- m) * 2 powr of_int e"
    using assms by (intro round_double_le) simp_all
  then show ?thesis
    by (simp add: round_double_minus)
qed


lemma ulp_exponent_le:
  assumes "\<bar>x\<bar> \<le> 2 powr of_int k" "- 1074 \<le> k" and False: "x \<noteq> 0"
  shows "ulp_exponent x \<le> k"
proof -
  have "\<bar>x\<bar> < 2 powr of_int (k + 1)"
  proof -
    have "(2::real) powr of_int k < 2 powr of_int (k + 1)"
      by simp
    with assms(1) show ?thesis by linarith
  qed
  then have "\<lfloor>log 2 \<bar>x\<bar>\<rfloor> < k + 1"
    using False by (intro floor_log2_less)
  then show ?thesis
    using assms(2) unfolding ulp_exponent_def by linarith
qed

lemma round_double_abs_le:
  assumes "\<bar>x\<bar> \<le> 2 powr of_int k" "- 1074 \<le> k"
  shows "\<bar>round_double x\<bar> \<le> 2 powr of_int k"
proof -
  note u = ulp_exponent_le [OF assms]
  have "round_double x \<le> of_int 1 * 2 powr of_int k"
    using assms(1) by (intro round_double_le u) simp_all
  moreover have "of_int (- 1) * 2 powr of_int k \<le> round_double x"
    using assms(1) by (intro round_double_ge u) simp_all
  ultimately show ?thesis
    by simp
qed

lemma round_double_error:
  assumes "\<bar>x\<bar> \<le> 2 powr of_int k" "- 1021 \<le> k"
  shows "\<bar>round_double x - x\<bar> \<le> 2 powr of_int (k - 54)"
proof (cases "\<bar>x\<bar> = 2 powr of_int k")
  case True
  then have "x = of_int 1 * 2 powr of_int k \<or> x = of_int (- 1) * 2 powr of_int k"
    by (simp add: abs_if split: if_splits)
  moreover have "round_double (of_int 1 * 2 powr of_int k) = of_int 1 * 2 powr of_int k"
    using assms(2) by (intro round_double_representable) simp_all
  moreover have "round_double (of_int (- 1) * 2 powr of_int k) = of_int (- 1) * 2 powr of_int k"
    using assms(2) by (intro round_double_representable) simp_all
  ultimately have "round_double x = x"
    by metis
  then show ?thesis by simp
next
  case False
  with assms(1) have lt: "\<bar>x\<bar> < 2 powr of_int k" by linarith
  show ?thesis
  proof (cases "x = 0")
    case True
    then show ?thesis by (simp add: round_double_def)
  next
    case x: False
    have "ulp_exponent x \<le> k - 53"
      using x lt assms(2) by (rule ulp_exponent_less)
    then have "(2::real) powr of_int (ulp_exponent x) \<le> 2 powr of_int (k - 53)"
      by simp
    also have "\<dots> = 2 * 2 powr of_int (k - 54)"
    proof -
      have "of_int (k - 53) = 1 + (of_int (k - 54) :: real)" by simp
      then show ?thesis
        by (simp only: powr_add powr_one)
    qed
    finally show ?thesis
      using round_double_error_ulp [of x] by linarith
  qed
qed

text \<open>Below half of the least subnormal number the result is zero.\<close>

lemma round_half_even_half: "\<bar>q\<bar> \<le> 1 / 2 \<Longrightarrow> round_half_even q = 0"
proof -
  assume a: "\<bar>q\<bar> \<le> 1 / 2"
  consider "0 \<le> q" | "q < 0" by linarith
  then show ?thesis
  proof cases
    case 1
    with a have "\<lfloor>q\<rfloor> = 0" by (intro floor_unique) simp_all
    then show ?thesis
      using a 1 by (simp add: round_half_even_def Let_def)
  next
    case 2
    with a have "\<lfloor>q\<rfloor> = - 1" by (intro floor_unique) simp_all
    then show ?thesis
      using a 2 by (simp add: round_half_even_def Let_def)
  qed
qed

lemma round_double_underflow:
  assumes "\<bar>x\<bar> \<le> 2 powr of_int (- 1075)"
  shows "round_double x = 0"
proof (cases "x = 0")
  case True
  then show ?thesis by (simp add: round_double_def)
next
  case False
  have "\<bar>x\<bar> < 2 powr of_int (- 1022)"
  proof -
    have "(2::real) powr of_int (- 1075) < 2 powr of_int (- 1022)"
      by simp
    with assms show ?thesis by linarith
  qed
  then have "\<lfloor>log 2 \<bar>x\<bar>\<rfloor> < - 1022"
    using False by (intro floor_log2_less)
  then have u: "ulp_exponent x = - 1074"
    unfolding ulp_exponent_def by linarith
  have "(2::real) powr of_int (- 1075) = 2 powr of_int (- 1074) / 2"
  proof -
    have "of_int (- 1074) = 1 + (of_int (- 1075) :: real)" by simp
    then show ?thesis
      by (simp only: powr_add powr_one)
  qed
  with assms have "\<bar>x\<bar> / 2 powr of_int (- 1074) \<le> 1 / 2"
    by (simp add: field_simps)
  then have "\<bar>x / 2 powr of_int (- 1074)\<bar> \<le> 1 / 2"
    by simp
  then have "round_half_even (x / 2 powr of_int (- 1074)) = 0"
    by (rule round_half_even_half)
  then show ?thesis
    using False by (simp only: round_double_def u if_False of_int_0 mult_zero_left)
qed

text \<open>The value at a number whose binade and nearest grid point are known.\<close>

lemma round_double_eval:
  assumes "2 powr of_int k \<le> \<bar>x\<bar>" "\<bar>x\<bar> < 2 powr of_int (k + 1)" "- 1022 \<le> k"
    and "\<bar>x / 2 powr of_int (k - 52) - of_int n\<bar> < 1 / 2"
  shows "round_double x = of_int n * 2 powr of_int (k - 52)"
proof -
  have "0 < \<bar>x\<bar>"
    using assms(1) powr_gt_zero [of 2 "of_int k"] by linarith
  then have x: "x \<noteq> 0" by simp
  have u: "ulp_exponent x = k - 52"
    using assms(1-3) by (rule ulp_exponent_eq)
  have "round_half_even (x / 2 powr of_int (k - 52)) = n"
    using assms(4) by (rule round_half_even_eq)
  then show ?thesis
    using x by (simp only: round_double_def u if_False)
qed

section \<open>Numbers in the finite range\<close>

lemma to_number_Num:
  assumes "\<bar>x\<bar> \<le> 2 powr of_int k" "- 1074 \<le> k" "k \<le> 1023"
  shows "to_number x = Num (round_double x)"
proof -
  have "\<bar>round_double x\<bar> \<le> 2 powr of_int k"
    using assms(1,2) by (rule round_double_abs_le)
  also have "\<dots> \<le> 2 powr of_int 1023"
    by (rule powr_mono) (use assms(3) in simp_all)
  also have "\<dots> < 2 powr of_int 1024"
    by (rule powr_less_mono) simp_all
  also have "\<dots> = 2 ^ 1024"
    by simp
  finally have "\<bar>round_double x\<bar> < 2 ^ 1024" .
  then have "\<not> 2 ^ 1024 \<le> round_double x" "\<not> round_double x \<le> - (2 ^ 1024)"
    by linarith+
  then show ?thesis
    by (simp only: to_number_def Let_def if_False)
qed

text \<open>An exact result between two whole numbers of at most 512 in absolute value.\<close>

lemma rounded_between:
  assumes "of_int lo \<le> x" "x \<le> of_int hi" "\<bar>x\<bar> \<le> 512"
  shows "to_number x = Num (round_double x)"
    and "of_int lo \<le> round_double x"
    and "round_double x \<le> of_int hi"
    and "\<bar>round_double x - x\<bar> \<le> 2 powr of_int (- 45)"
proof -
  have p: "(512::real) = 2 powr of_int 9"
    by simp
  show "to_number x = Num (round_double x)"
    using assms(3) unfolding p by (rule to_number_Num) simp_all
  have "\<bar>round_double x - x\<bar> \<le> 2 powr of_int (9 - 54)"
    using assms(3) unfolding p by (rule round_double_error) simp
  then show "\<bar>round_double x - x\<bar> \<le> 2 powr of_int (- 45)"
    by simp
  have u: "ulp_exponent x \<le> 0" if "x \<noteq> 0"
  proof -
    have "\<bar>x\<bar> < 2 powr of_int 10"
      using assms(3) by simp
    with that have "ulp_exponent x \<le> 10 - 53"
      by (rule ulp_exponent_less) simp
    then show ?thesis by simp
  qed
  have "of_int lo * 2 powr of_int 0 \<le> round_double x"
    using assms(1) by (intro round_double_ge u) simp_all
  then show "of_int lo \<le> round_double x"
    by simp
  have "round_double x \<le> of_int hi * 2 powr of_int 0"
    using assms(2) by (intro round_double_le u) simp_all
  then show "round_double x \<le> of_int hi"
    by simp
qed

section \<open>Normalisation of angles in binary64\<close>

lemma js_mod_360_range: "- 360 < js_mod a 360 \<and> js_mod a 360 < 360"
  using js_mod_360_nonneg [of a] js_mod_360_neg [of a] by (cases "0 \<le> a") auto

lemma normalize360_double_Num:
  "\<exists>w. normalize360_double (Num a) = Num w \<and> 0 \<le> w \<and> w \<le> 360 \<and>
       (0 \<le> a \<longrightarrow> w < 360) \<and> \<bar>w - normalize360 a\<bar> \<le> 2 powr of_int (- 45)"
proof (cases "js_mod a 360 < 0")
  case True
  define x where "x = js_mod a 360 + 360"
  have x: "of_int 0 \<le> x" "x \<le> of_int 360" "\<bar>x\<bar> \<le> 512"
    using True js_mod_360_range [of a] by (simp_all add: x_def)
  note r = rounded_between [OF x]
  have neg: "a < 0"
    using True js_mod_360_nonneg [of a] by (cases "0 \<le> a") auto
  have "normalize360_double (Num a) = Num (round_double x)"
    using True by (simp add: normalize360_double_def Let_def r(1) [unfolded x_def])
      (simp add: x_def)
  moreover have "normalize360 a = x"
    using True by (simp add: normalize360_def Let_def x_def)
  ultimately show ?thesis
    using r(2-4) neg by simp
next
  case False
  have "normalize360_double (Num a) = Num (js_mod a 360)"
    using False by (simp add: normalize360_double_def Let_def)
  moreover have "normalize360 a = js_mod a 360"
    using False by (simp add: normalize360_def Let_def)
  ultimately show ?thesis
    using False js_mod_360_range [of a] by simp
qed

lemma normalize180_double_Num:
  "\<exists>w. normalize180_double (Num a) = Num w \<and> - 180 \<le> w \<and> w \<le> 180 \<and>
       \<bar>w - normalize180 a\<bar> \<le> 2 powr of_int (- 45)"
proof -
  consider (hi) "180 < js_mod a 360" | (lo) "js_mod a 360 < - 180"
    | (mid) "\<not> 180 < js_mod a 360" "\<not> js_mod a 360 < - 180"
    by linarith
  then show ?thesis
  proof cases
    case hi
    define x where "x = js_mod a 360 - 360"
    have x: "of_int (- 180) \<le> x" "x \<le> of_int 0" "\<bar>x\<bar> \<le> 512"
      using hi js_mod_360_range [of a] by (simp_all add: x_def)
    note r = rounded_between [OF x]
    have "\<not> round_double x < - 180"
      using r(2) by simp
    then have "normalize180_double (Num a) = Num (round_double x)"
      using hi by (simp add: normalize180_double_def Let_def num_sub_def r(1) [unfolded x_def])
        (simp add: x_def)
    moreover have "normalize180 a = x"
      using hi by (simp add: normalize180_def Let_def x_def)
    ultimately show ?thesis
      using r(2-4) by simp
  next
    case lo
    define x where "x = js_mod a 360 + 360"
    have x: "of_int 0 \<le> x" "x \<le> of_int 180" "\<bar>x\<bar> \<le> 512"
      using lo js_mod_360_range [of a] by (simp_all add: x_def)
    note r = rounded_between [OF x]
    have "normalize180_double (Num a) = Num (round_double x)"
      using lo by (simp add: normalize180_double_def Let_def r(1) [unfolded x_def])
        (simp add: x_def)
    moreover have "normalize180 a = x"
      using lo by (simp add: normalize180_def Let_def x_def)
    ultimately show ?thesis
      using r(2-4) by simp
  next
    case mid
    have "normalize180_double (Num a) = Num (js_mod a 360)"
      using mid by (simp add: normalize180_double_def Let_def)
    moreover have "normalize180 a = js_mod a 360"
      using mid by (simp add: normalize180_def Let_def)
    ultimately show ?thesis
      using mid by simp
  qed
qed

section \<open>A full turn from a tiny negative angle\<close>

text \<open>
  The remainder of \<open>-2^-70\<close> is the angle itself, and the sum \<open>value += 360\<close> of
  \<open>normalize360\<close> rounds to 360: the result is a full turn, not a value below it.
\<close>

lemma round_double_below_360: "round_double (360 - 1 / 2 ^ 70) = 360"
proof -
  have "round_double (360 - 1 / 2 ^ 70)
      = of_int (360 * 2 ^ 44) * 2 powr of_int (8 - 52)"
    by (rule round_double_eval) (simp_all add: powr_neg_numeral)
  also have "\<dots> = 360"
    by (simp add: powr_neg_numeral)
  finally show ?thesis .
qed

lemma normalize360_double_full_turn:
  "normalize360_double (Num (- (1 / 2 ^ 70))) = Num 360"
proof -
  define t :: real where "t = 1 / 2 ^ 70"
  have t: "0 < t" "t < 1"
    by (simp_all add: t_def)
  have m: "js_mod (- t) 360 = - t"
    by (rule js_mod_360_small) (use t in linarith)+
  have x: "of_int 0 \<le> 360 - t" "360 - t \<le> of_int 360" "\<bar>360 - t\<bar> \<le> 512"
    using t by simp_all
  have "to_number (360 - t) = Num 360"
    using rounded_between(1) [OF x] by (simp only: round_double_below_360 t_def)
  moreover have "normalize360_double (Num (- t)) = to_number (360 - t)"
    using t by (simp add: normalize360_double_def Let_def m)
  ultimately show ?thesis
    by (simp only: t_def)
qed

section \<open>Products that underflow\<close>

lemma to_number_0: "to_number 0 = Num 0"
  by (simp add: to_number_def round_double_def)

lemma to_number_underflow:
  assumes "\<bar>x\<bar> \<le> 1 / 2 ^ 1075"
  shows "to_number x = Num 0"
proof -
  have "(1 / 2 ^ 1075 :: real) = 2 powr of_int (- 1075)"
    by (simp add: powr_neg_numeral)
  with assms have "round_double x = 0"
    by (intro round_double_underflow) simp
  then show ?thesis
    by (simp add: to_number_def)
qed

lemma to_number_representable:
  assumes "\<bar>m\<bar> < 2 ^ 53" "- 1074 \<le> e" "e \<le> 970"
  shows "to_number (of_int m * 2 powr of_int e) = Num (of_int m * 2 powr of_int e)"
proof -
  have "\<bar>of_int m * 2 powr of_int e :: real\<bar> = of_int \<bar>m\<bar> * 2 powr of_int e"
    by (simp add: abs_mult)
  also have "\<dots> \<le> 2 ^ 53 * 2 powr of_int e"
  proof -
    have "(of_int \<bar>m\<bar> :: real) \<le> of_int (2 ^ 53)"
      using assms(1) by (simp only: of_int_le_iff)
    then show ?thesis by simp
  qed
  also have "\<dots> = 2 powr of_int (e + 53)"
    by (simp add: powr_add)
  finally have "to_number (of_int m * 2 powr of_int e)
      = Num (round_double (of_int m * 2 powr of_int e))"
    by (rule to_number_Num) (use assms in simp_all)
  then show ?thesis
    using assms(1,2) by (simp only: round_double_representable)
qed

lemma tiny_numbers:
  "to_number (1 / 2 ^ 599) = Num (1 / 2 ^ 599)"
  "to_number (1 / 2 ^ 601) = Num (1 / 2 ^ 601)"
  "to_number (3 / 2 ^ 601) = Num (3 / 2 ^ 601)"
proof -
  have "to_number (of_int 1 * 2 powr of_int (- 599)) = Num (of_int 1 * 2 powr of_int (- 599))"
    by (rule to_number_representable) simp_all
  then show "to_number (1 / 2 ^ 599) = Num (1 / 2 ^ 599)"
    by (simp add: powr_neg_numeral)
  have "to_number (of_int 1 * 2 powr of_int (- 601)) = Num (of_int 1 * 2 powr of_int (- 601))"
    by (rule to_number_representable) simp_all
  then show "to_number (1 / 2 ^ 601) = Num (1 / 2 ^ 601)"
    by (simp add: powr_neg_numeral)
  have "to_number (of_int 3 * 2 powr of_int (- 601)) = Num (of_int 3 * 2 powr of_int (- 601))"
    by (rule to_number_representable) simp_all
  then show "to_number (3 / 2 ^ 601) = Num (3 / 2 ^ 601)"
    by (simp add: powr_neg_numeral)
qed

lemma tiny_products:
  "num_mul (Num (1 / 2 ^ 600)) (Num (1 / 2 ^ 600)) = Num 0"
  "num_mul (Num (1 / 2 ^ 601)) (Num (1 / 2 ^ 601)) = Num 0"
  "num_mul (Num (1 / 2 ^ 599)) (Num (1 / 2 ^ 600)) = Num 0"
  by (simp_all only: num_mul.simps) (rule to_number_underflow, simp)+

lemma clamp_double_NaN: "clamp_double NaN lo hi = NaN"
  by (cases lo; cases hi) (simp_all add: clamp_double_def)

lemma overlap_quotient_NaN:
  "overlapFraction_double (Num (1 / 2 ^ 600)) (Num (1 / 2 ^ 601)) (Num 0) = NaN"
proof -
  have s: "num_add (Num (1 / 2 ^ 600)) (Num (1 / 2 ^ 601)) = Num (3 / 2 ^ 601)"
  proof -
    have "(1 / 2 ^ 600 + 1 / 2 ^ 601 :: real) = 3 / 2 ^ 601" by simp
    then show ?thesis
      by (simp only: num_add.simps tiny_numbers)
  qed
  have d: "num_sub (Num (1 / 2 ^ 600)) (Num (1 / 2 ^ 601)) = Num (1 / 2 ^ 601)"
  proof -
    have "(1 / 2 ^ 600 + - (1 / 2 ^ 601) :: real) = 1 / 2 ^ 601" by simp
    then show ?thesis
      by (simp only: num_sub_def num_neg.simps num_add.simps tiny_numbers)
  qed
  show ?thesis
    unfolding overlapFraction_double_def Let_def s d tiny_products
    by (simp add: clamp_double_NaN)
qed

lemma overlap_partial_NaN:
  "overlapFraction_double (Num (1 / 2 ^ 600)) (Num (1 / 2 ^ 600)) (Num (1 / 2 ^ 600)) = NaN"
proof -
  have s: "num_add (Num (1 / 2 ^ 600)) (Num (1 / 2 ^ 600)) = Num (1 / 2 ^ 599)"
  proof -
    have "(1 / 2 ^ 600 + 1 / 2 ^ 600 :: real) = 1 / 2 ^ 599" by simp
    then show ?thesis
      by (simp only: num_add.simps tiny_numbers)
  qed
  have d: "num_sub (Num (1 / 2 ^ 600)) (Num (1 / 2 ^ 600)) = Num 0"
    by (simp add: num_sub_def to_number_0)
  have t: "num_mul (Num 2) (Num (1 / 2 ^ 600)) = Num (1 / 2 ^ 599)"
  proof -
    have "(2 * (1 / 2 ^ 600) :: real) = 1 / 2 ^ 599" by simp
    then show ?thesis
      by (simp only: num_mul.simps tiny_numbers)
  qed
  have z: "num_sub (num_add (Num 0) (Num 0)) (Num 0) = Num 0"
    by (simp add: num_sub_def to_number_0)
  show ?thesis
    unfolding overlapFraction_double_def Let_def s d t tiny_products z
    by (simp add: clamp_double_NaN num_sub_def to_number_0)
qed

section \<open>Ranges of the normalised angles\<close>






section \<open>The disk overlap of tiny disks\<close>

text \<open>
  Claim C10 fails in binary64. The claim takes the divisors \<open>2 * d * r1\<close>,
  \<open>2 * d * r2\<close> of the partial-overlap branch, and with them \<open>r1 * r1\<close> of the
  branch of the covered disk, to be strictly positive. For positive radii and a
  positive separation of \<open>2^-600\<close> the divisor \<open>2 * d * r1\<close> and the dividend
  underflow to zero, the quotient is NaN, and NaN is what the function returns; for
  the radii \<open>2^-600\<close> and \<open>2^-601\<close> at separation 0 the quotient
  \<open>(r2 * r2) / (r1 * r1)\<close> is NaN in the same way.
\<close>

theorem overlapFraction_underflow:
  "num_mul (num_mul (Num 2) (Num (1 / 2 ^ 600))) (Num (1 / 2 ^ 600)) = Num 0 \<and>
   overlapFraction_double (Num (1 / 2 ^ 600)) (Num (1 / 2 ^ 600)) (Num (1 / 2 ^ 600)) = NaN \<and>
   num_mul (Num (1 / 2 ^ 600)) (Num (1 / 2 ^ 600)) = Num 0 \<and>
   overlapFraction_double (Num (1 / 2 ^ 600)) (Num (1 / 2 ^ 601)) (Num 0) = NaN"
proof -
  have "(2 * (1 / 2 ^ 600) :: real) = 1 / 2 ^ 599" by simp
  then have "num_mul (Num 2) (Num (1 / 2 ^ 600)) = Num (1 / 2 ^ 599)"
    by (simp only: num_mul.simps tiny_numbers)
  then show ?thesis
    by (simp only: tiny_products overlap_partial_NaN overlap_quotient_NaN simp_thms)
qed

section \<open>Propagation forth and back in binary64\<close>

lemma to_number_bounds:
  assumes "\<bar>x\<bar> \<le> 2 powr of_int k" "- 1021 \<le> k" "k \<le> 1023"
  shows "\<exists>r. to_number x = Num r \<and> r = round_double x \<and> \<bar>r\<bar> \<le> 2 powr of_int k \<and>
             \<bar>r - x\<bar> \<le> 2 powr of_int (k - 54)"
proof -
  have "to_number x = Num (round_double x)"
    using assms by (intro to_number_Num) simp_all
  moreover have "\<bar>round_double x\<bar> \<le> 2 powr of_int k"
    using assms by (intro round_double_abs_le) simp_all
  moreover have "\<bar>round_double x - x\<bar> \<le> 2 powr of_int (k - 54)"
    using assms(1,2) by (rule round_double_error)
  ultimately show ?thesis by blast
qed

text \<open>One propagation of an angle: the product and the sum are rounded once each.\<close>

lemma propagate_sum:
  assumes "\<bar>a\<bar> \<le> 360" "\<bar>h\<bar> \<le> 500000000" "\<bar>c\<bar> \<le> 16"
  shows "\<exists>s. num_add (Num a) (num_mul (Num h) (Num c)) = Num s \<and>
             \<bar>s - (a + round_double (h * c))\<bar> \<le> 2 powr of_int (- 21)"
proof -
  have p33: "(2::real) powr of_int 33 = 8589934592"
    by simp
  have small: "(2::real) powr of_int (33 - 54) \<le> 1"
    by (simp add: powr_neg_numeral)
  have "\<bar>h * c\<bar> \<le> 500000000 * 16"
    unfolding abs_mult using assms(2,3) by (intro mult_mono) simp_all
  then have hc: "\<bar>h * c\<bar> \<le> 2 powr of_int 33"
    unfolding p33 by linarith
  from to_number_bounds [OF hc] obtain d where
    d: "to_number (h * c) = Num d" "d = round_double (h * c)"
       "\<bar>d - h * c\<bar> \<le> 2 powr of_int (33 - 54)"
    by auto
  have "\<bar>a + d\<bar> \<le> 360 + (500000000 * 16 + 1)"
    using assms(1) d(3) small \<open>\<bar>h * c\<bar> \<le> 500000000 * 16\<close> by linarith
  then have ad: "\<bar>a + d\<bar> \<le> 2 powr of_int 33"
    unfolding p33 by linarith
  from to_number_bounds [OF ad] obtain s where
    s: "to_number (a + d) = Num s" "\<bar>s - (a + d)\<bar> \<le> 2 powr of_int (33 - 54)"
    by auto
  have "num_add (Num a) (num_mul (Num h) (Num c)) = Num s"
    by (simp only: num_mul.simps num_add.simps d(1) s(1))
  moreover have "\<bar>s - (a + round_double (h * c))\<bar> \<le> 2 powr of_int (- 21)"
    using s(2) unfolding d(2) by simp
  ultimately show ?thesis by blast
qed

lemma tolerance: "2 * (2 powr of_int (- 21) + 2 powr of_int (- 45)) \<le> (1 / 10 ^ 6 :: real)"
  by (simp add: powr_neg_numeral)

lemma forth_and_back:
  fixes a d v1 v2 x y e :: real
  assumes "\<bar>v1 - (a + d) - 360 * x\<bar> \<le> e" "\<bar>v2 - (v1 - d) - 360 * y\<bar> \<le> e"
  shows "\<bar>v2 - a - 360 * (x + y)\<bar> \<le> 2 * e"
proof -
  have "v2 - a - 360 * (x + y) = (v1 - (a + d) - 360 * x) + (v2 - (v1 - d) - 360 * y)"
    by (simp add: algebra_simps)
  then show ?thesis
    using assms abs_triangle_ineq [of "v1 - (a + d) - 360 * x" "v2 - (v1 - d) - 360 * y"]
    by linarith
qed

lemma round_trip_360_double:
  assumes "\<bar>a\<bar> \<le> 360" "\<bar>h\<bar> \<le> 500000000" "\<bar>c\<bar> \<le> 16"
  shows "\<exists>v1 v2. normalize360_double (num_add (Num a) (num_mul (Num h) (Num c))) = Num v1 \<and>
      normalize360_double (num_add (Num v1) (num_mul (Num (- h)) (Num c))) = Num v2 \<and>
      (\<exists>k::int. \<bar>v2 - a - 360 * of_int k\<bar> \<le> 1 / 10 ^ 6)"
proof -
  define d where "d = round_double (h * c)"
  from propagate_sum [OF assms] obtain s1 where
    s1: "num_add (Num a) (num_mul (Num h) (Num c)) = Num s1"
        "\<bar>s1 - (a + d)\<bar> \<le> 2 powr of_int (- 21)"
    unfolding d_def by blast
  from normalize360_double_Num [of s1] obtain v1 where
    v1: "normalize360_double (Num s1) = Num v1" "0 \<le> v1" "v1 \<le> 360"
        "\<bar>v1 - normalize360 s1\<bar> \<le> 2 powr of_int (- 45)"
    by blast
  obtain k1 :: int where k1: "normalize360 s1 = s1 + 360 * of_int k1"
    using normalize360_cong by blast
  have neg_d: "round_double (- h * c) = - d"
    by (simp add: d_def round_double_minus)
  have "\<bar>v1\<bar> \<le> 360" "\<bar>- h\<bar> \<le> 500000000"
    using v1(2,3) assms(2) by simp_all
  from propagate_sum [OF this assms(3)] obtain s2 where
    s2: "num_add (Num v1) (num_mul (Num (- h)) (Num c)) = Num s2"
        "\<bar>s2 - (v1 + - d)\<bar> \<le> 2 powr of_int (- 21)"
    unfolding neg_d by blast
  from normalize360_double_Num [of s2] obtain v2 where
    v2: "normalize360_double (Num s2) = Num v2"
        "\<bar>v2 - normalize360 s2\<bar> \<le> 2 powr of_int (- 45)"
    by blast
  obtain k2 :: int where k2: "normalize360 s2 = s2 + 360 * of_int k2"
    using normalize360_cong by blast
  have e1: "\<bar>v1 - (a + d) - 360 * of_int k1\<bar> \<le> 2 powr of_int (- 21) + 2 powr of_int (- 45)"
    using s1(2) v1(4) unfolding k1 by linarith
  have e2: "\<bar>v2 - (v1 - d) - 360 * of_int k2\<bar> \<le> 2 powr of_int (- 21) + 2 powr of_int (- 45)"
    using s2(2) v2(2) unfolding k2 by linarith
  have "\<bar>v2 - a - 360 * of_int (k1 + k2)\<bar>
      \<le> 2 * (2 powr of_int (- 21) + 2 powr of_int (- 45))"
    unfolding of_int_add using e1 e2 by (rule forth_and_back)
  then have "\<bar>v2 - a - 360 * of_int (k1 + k2)\<bar> \<le> 1 / 10 ^ 6"
    using tolerance by linarith
  then show ?thesis
    using s1(1) v1(1) s2(1) v2(1) by metis
qed

lemma round_trip_180_double:
  assumes "\<bar>a\<bar> \<le> 360" "\<bar>h\<bar> \<le> 500000000" "\<bar>c\<bar> \<le> 16"
  shows "\<exists>v1 v2. normalize180_double (num_add (Num a) (num_mul (Num h) (Num c))) = Num v1 \<and>
      normalize180_double (num_add (Num v1) (num_mul (Num (- h)) (Num c))) = Num v2 \<and>
      (\<exists>k::int. \<bar>v2 - a - 360 * of_int k\<bar> \<le> 1 / 10 ^ 6)"
proof -
  define d where "d = round_double (h * c)"
  from propagate_sum [OF assms] obtain s1 where
    s1: "num_add (Num a) (num_mul (Num h) (Num c)) = Num s1"
        "\<bar>s1 - (a + d)\<bar> \<le> 2 powr of_int (- 21)"
    unfolding d_def by blast
  from normalize180_double_Num [of s1] obtain v1 where
    v1: "normalize180_double (Num s1) = Num v1" "- 180 \<le> v1" "v1 \<le> 180"
        "\<bar>v1 - normalize180 s1\<bar> \<le> 2 powr of_int (- 45)"
    by blast
  obtain k1 :: int where k1: "normalize180 s1 = s1 + 360 * of_int k1"
    using normalize180_cong by blast
  have neg_d: "round_double (- h * c) = - d"
    by (simp add: d_def round_double_minus)
  have "\<bar>v1\<bar> \<le> 360" "\<bar>- h\<bar> \<le> 500000000"
    using v1(2,3) assms(2) by simp_all
  from propagate_sum [OF this assms(3)] obtain s2 where
    s2: "num_add (Num v1) (num_mul (Num (- h)) (Num c)) = Num s2"
        "\<bar>s2 - (v1 + - d)\<bar> \<le> 2 powr of_int (- 21)"
    unfolding neg_d by blast
  from normalize180_double_Num [of s2] obtain v2 where
    v2: "normalize180_double (Num s2) = Num v2"
        "\<bar>v2 - normalize180 s2\<bar> \<le> 2 powr of_int (- 45)"
    by blast
  obtain k2 :: int where k2: "normalize180 s2 = s2 + 360 * of_int k2"
    using normalize180_cong by blast
  have e1: "\<bar>v1 - (a + d) - 360 * of_int k1\<bar> \<le> 2 powr of_int (- 21) + 2 powr of_int (- 45)"
    using s1(2) v1(4) unfolding k1 by linarith
  have e2: "\<bar>v2 - (v1 - d) - 360 * of_int k2\<bar> \<le> 2 powr of_int (- 21) + 2 powr of_int (- 45)"
    using s2(2) v2(2) unfolding k2 by linarith
  have "\<bar>v2 - a - 360 * of_int (k1 + k2)\<bar>
      \<le> 2 * (2 powr of_int (- 21) + 2 powr of_int (- 45))"
    unfolding of_int_add using e1 e2 by (rule forth_and_back)
  then have "\<bar>v2 - a - 360 * of_int (k1 + k2)\<bar> \<le> 1 / 10 ^ 6"
    using tolerance by linarith
  then show ?thesis
    using s1(1) v1(1) s2(1) v2(1) by metis
qed

section \<open>The rates as Numbers\<close>

lemma to_number_near:
  assumes "\<bar>x\<bar> \<le> 2 powr of_int k" "- 1021 \<le> k" "k \<le> 40"
  shows "\<exists>r. to_number x = Num r \<and> \<bar>r - x\<bar> \<le> 1 / 1000"
proof -
  from to_number_bounds [OF assms(1,2)] assms(3) obtain r where
    r: "to_number x = Num r" "\<bar>r - x\<bar> \<le> 2 powr of_int (k - 54)"
    by auto
  have "(2::real) powr of_int (k - 54) \<le> 2 powr of_int (- 14)"
    by (rule powr_mono) (use assms(3) in simp_all)
  also have "\<dots> \<le> 1 / 1000"
    by (simp add: powr_neg_numeral)
  finally show ?thesis
    using r by (intro exI [of _ r]) linarith
qed

lemma quotient_360:
  assumes "360 \<le> r"
  shows "\<exists>q. num_div (Num 360) (Num r) = Num q \<and> \<bar>q\<bar> \<le> 2"
proof -
  have "\<bar>360 / r\<bar> \<le> 1"
    using assms by simp
  then have "\<bar>360 / r\<bar> \<le> 2 powr of_int 0"
    by simp
  from to_number_near [OF this] obtain q where
    q: "to_number (360 / r) = Num q" "\<bar>q - 360 / r\<bar> \<le> 1 / 1000"
    by auto
  have "num_div (Num 360) (Num r) = Num q"
    using assms q(1) by simp
  moreover have "\<bar>q\<bar> \<le> 2"
    using q(2) \<open>\<bar>360 / r\<bar> \<le> 1\<close> by linarith
  ultimately show ?thesis by blast
qed

lemma literal_number:
  assumes "\<bar>x\<bar> \<le> 2 powr of_int k" "- 1021 \<le> k" "k \<le> 40"
    and "lo + 1 / 1000 \<le> x" "x + 1 / 1000 \<le> hi"
  shows "\<exists>r. to_number x = Num r \<and> lo \<le> r \<and> r \<le> hi"
proof -
  from to_number_near [OF assms(1-3)] obtain r where
    "to_number x = Num r" "\<bar>r - x\<bar> \<le> 1 / 1000"
    by auto
  moreover from this assms(4,5) have "lo \<le> r" "r \<le> hi"
    by linarith+
  ultimately show ?thesis by blast
qed

lemma tropical_year:
  "\<exists>r. to_number 365.2422 = Num r \<and> 365 \<le> r \<and> r \<le> 366"
  by (rule literal_number [where k = 9]) simp_all

lemma earth_rate: "\<exists>c. EARTH_ROT_DEG_PER_HOUR_double = Num c \<and> \<bar>c\<bar> \<le> 16"
proof -
  have "\<exists>r. to_number 15.041067 = Num r \<and> 15 \<le> r \<and> r \<le> 16"
    by (rule literal_number [where k = 4]) simp_all
  then show ?thesis
    unfolding EARTH_ROT_DEG_PER_HOUR_double_def by auto
qed

lemma anomaly_rate: "\<exists>c. MOON_ANOMALY_DEG_PER_HOUR_double = Num c \<and> \<bar>c\<bar> \<le> 16"
proof -
  have "\<exists>r. to_number 0.549 = Num r \<and> 0 \<le> r \<and> r \<le> 1"
    by (rule literal_number [where k = 0]) simp_all
  then show ?thesis
    unfolding MOON_ANOMALY_DEG_PER_HOUR_double_def by auto
qed

lemma sun_rate: "\<exists>c. SUN_ECLIPTIC_DEG_PER_HOUR_double = Num c \<and> \<bar>c\<bar> \<le> 2"
proof -
  obtain y where y: "to_number 365.2422 = Num y" "365 \<le> y" "y \<le> 366"
    using tropical_year by blast
  have "\<bar>y * 24\<bar> \<le> 2 powr of_int 14"
    using y(2,3) by simp
  from to_number_near [OF this] obtain r where
    r: "to_number (y * 24) = Num r" "\<bar>r - y * 24\<bar> \<le> 1 / 1000"
    by auto
  have "360 \<le> r"
    using r(2) y(2) by linarith
  from quotient_360 [OF this] obtain c where c: "num_div (Num 360) (Num r) = Num c" "\<bar>c\<bar> \<le> 2"
    by blast
  have "SUN_ECLIPTIC_DEG_PER_HOUR_double = Num c"
    by (simp only: SUN_ECLIPTIC_DEG_PER_HOUR_double_def y(1) num_mul.simps r(1) c(1))
  with c(2) show ?thesis by blast
qed

lemma node_rate: "\<exists>c. NODE_REGRESSION_DEG_PER_HOUR_double = Num c \<and> \<bar>c\<bar> \<le> 2"
proof -
  obtain y where y: "to_number 365.2422 = Num y" "365 \<le> y" "y \<le> 366"
    using tropical_year by blast
  have "\<exists>r. to_number 18.613 = Num r \<and> 18 \<le> r \<and> r \<le> 19"
    by (rule literal_number [where k = 5]) simp_all
  then obtain p where p: "to_number 18.613 = Num p" "18 \<le> p" "p \<le> 19"
    by blast
  have lo: "18 * 365 \<le> p * y"
    using p(2) y(2) by (intro mult_mono) simp_all
  have hi: "p * y \<le> 19 * 366"
    using p(2,3) y(2,3) by (intro mult_mono) simp_all
  have "\<bar>p * y\<bar> \<le> 2 powr of_int 13"
    using lo hi by simp
  from to_number_near [OF this] obtain q where
    q: "to_number (p * y) = Num q" "\<bar>q - p * y\<bar> \<le> 1 / 1000"
    by auto
  have q': "6000 \<le> q" "q \<le> 7000"
    using q(2) lo hi by linarith+
  have "\<bar>q * 24\<bar> \<le> 2 powr of_int 18"
    using q' by simp
  from to_number_near [OF this] obtain r where
    r: "to_number (q * 24) = Num r" "\<bar>r - q * 24\<bar> \<le> 1 / 1000"
    by auto
  have "360 \<le> r"
    using r(2) q'(1) by linarith
  from quotient_360 [OF this] obtain c where c: "num_div (Num 360) (Num r) = Num c" "\<bar>c\<bar> \<le> 2"
    by blast
  have "NODE_REGRESSION_DEG_PER_HOUR_double = Num (- c)"
    by (simp only: NODE_REGRESSION_DEG_PER_HOUR_double_def p(1) y(1) num_mul.simps q(1) r(1)
          c(1) num_neg.simps)
  moreover have "\<bar>- c\<bar> \<le> 2"
    using c(2) by simp
  ultimately show ?thesis by blast
qed

lemma moon_rate: "\<exists>c. MOON_ECLIPTIC_DEG_PER_HOUR_double = Num c \<and> \<bar>c\<bar> \<le> 2"
proof -
  have "\<exists>r. to_number 13.176358 = Num r \<and> 13 \<le> r \<and> r \<le> 14"
    by (rule literal_number [where k = 4]) simp_all
  then obtain p where p: "to_number 13.176358 = Num p" "13 \<le> p" "p \<le> 14"
    by blast
  have "\<bar>p / 24\<bar> \<le> 2 powr of_int 0"
    using p(2,3) by simp
  from to_number_near [OF this] obtain c where
    c: "to_number (p / 24) = Num c" "\<bar>c - p / 24\<bar> \<le> 1 / 1000"
    by auto
  have "\<bar>p / 24\<bar> \<le> 1"
    using p(2,3) by simp
  then have "\<bar>c\<bar> \<le> 2"
    using c(2) by linarith
  moreover have "num_div (Num p) (Num 24) = to_number (p / 24)"
    by simp
  then have "MOON_ECLIPTIC_DEG_PER_HOUR_double = Num c"
    by (simp only: MOON_ECLIPTIC_DEG_PER_HOUR_double_def p(1) c(1))
  ultimately show ?thesis by blast
qed

lemma phase_rate:
  "\<exists>c. num_sub MOON_ECLIPTIC_DEG_PER_HOUR_double NODE_REGRESSION_DEG_PER_HOUR_double = Num c
       \<and> \<bar>c\<bar> \<le> 16"
proof -
  obtain m where m: "MOON_ECLIPTIC_DEG_PER_HOUR_double = Num m" "\<bar>m\<bar> \<le> 2"
    using moon_rate by blast
  obtain n where n: "NODE_REGRESSION_DEG_PER_HOUR_double = Num n" "\<bar>n\<bar> \<le> 2"
    using node_rate by blast
  have "\<bar>m + - n\<bar> \<le> 2 powr of_int 2"
    using m(2) n(2) by simp
  from to_number_near [OF this] obtain c where
    c: "to_number (m + - n) = Num c" "\<bar>c - (m + - n)\<bar> \<le> 1 / 1000"
    by auto
  have "\<bar>c\<bar> \<le> 16"
    using c(2) m(2) n(2) by linarith
  moreover have "num_sub MOON_ECLIPTIC_DEG_PER_HOUR_double NODE_REGRESSION_DEG_PER_HOUR_double
      = Num c"
    by (simp only: m(1) n(1) num_sub_def num_neg.simps num_add.simps c(1))
  ultimately show ?thesis by blast
qed

section \<open>The angles of a state propagated in binary64\<close>

lemma derive_double_fields:
  fixes base :: "'a OrbitalParameters_double_scheme"
  shows
  "earthRotation_d (deriveSimulationState_double base h start)
     = normalize360_double
         (num_add (earthRotation_d base) (num_mul h EARTH_ROT_DEG_PER_HOUR_double))"
  "sunEclipticLon_d (deriveSimulationState_double base h start)
     = normalize360_double
         (num_add (sunEclipticLon_d base) (num_mul h SUN_ECLIPTIC_DEG_PER_HOUR_double))"
  "ascendingNodeLon_d (deriveSimulationState_double base h start)
     = normalize360_double
         (num_add (ascendingNodeLon_d base) (num_mul h NODE_REGRESSION_DEG_PER_HOUR_double))"
  "moonNodePhase_d (deriveSimulationState_double base h start)
     = normalize180_double
         (num_add (moonNodePhase_d base)
            (num_mul h (num_sub MOON_ECLIPTIC_DEG_PER_HOUR_double
                          NODE_REGRESSION_DEG_PER_HOUR_double)))"
  "moonAnomaly_d (deriveSimulationState_double base h start)
     = normalize360_double
         (num_add (moonAnomaly_d base) (num_mul h MOON_ANOMALY_DEG_PER_HOUR_double))"
  by (simp_all add: deriveSimulationState_double_def Let_def)

section \<open>A round trip over two thousand million hours\<close>

lemma to_number_eval:
  assumes "2 powr of_int k \<le> \<bar>x\<bar>" "\<bar>x\<bar> < 2 powr of_int (k + 1)" "- 1022 \<le> k" "k \<le> 1022"
    and "\<bar>x / 2 powr of_int (k - 52) - of_int n\<bar> < 1 / 2"
  shows "to_number x = Num (of_int n * 2 powr of_int (k - 52))"
proof -
  have "\<bar>x\<bar> \<le> 2 powr of_int (k + 1)"
    using assms(2) by linarith
  then have "to_number x = Num (round_double x)"
    by (rule to_number_Num) (use assms(3,4) in simp_all)
  then show ?thesis
    by (simp only: round_double_eval [OF assms(1,2,3,5)])
qed

lemma js_mod_360_eval:
  assumes "0 \<le> x" "360 * of_int k \<le> x" "x < 360 * of_int k + 360"
  shows "js_mod x 360 = x - 360 * of_int k"
proof -
  have "\<lfloor>x / 360\<rfloor> = k"
    using assms(2,3) by (intro floor_unique) simp_all
  then show ?thesis
    using assms(1) by (simp add: js_mod_def js_trunc_def)
qed

lemma js_mod_360_eval_neg:
  assumes "x < 0" "360 * of_int k - 360 < x" "x \<le> 360 * of_int k"
  shows "js_mod x 360 = x - 360 * of_int k"
proof -
  have "\<lceil>x / 360\<rceil> = k"
    using assms(2,3) by (intro ceiling_unique) simp_all
  then show ?thesis
    using assms(1) by (simp add: js_mod_def js_trunc_def)
qed

lemma earth_rate_value: "EARTH_ROT_DEG_PER_HOUR_double = Num (8467367967056833 / 2 ^ 49)"
proof -
  have "to_number 15.041067 = Num (of_int 8467367967056833 * 2 powr of_int (3 - 52))"
    by (rule to_number_eval) (simp_all add: powr_neg_numeral)
  then show ?thesis
    by (simp add: EARTH_ROT_DEG_PER_HOUR_double_def powr_neg_numeral)
qed

lemma tenth_value: "to_number 0.1 = Num (3602879701896397 / 2 ^ 55)"
proof -
  have "to_number 0.1 = Num (of_int 7205759403792794 * 2 powr of_int (- 4 - 52))"
    by (rule to_number_eval) (simp_all add: powr_neg_numeral)
  then show ?thesis
    by (simp add: powr_neg_numeral)
qed

lemma product_value:
  "num_mul (Num 2000000000) EARTH_ROT_DEG_PER_HOUR_double = Num 30082134000"
proof -
  have "to_number (2000000000 * (8467367967056833 / 2 ^ 49))
      = Num (of_int 7885850935296000 * 2 powr of_int (34 - 52))"
    by (rule to_number_eval) (simp_all add: powr_neg_numeral)
  then show ?thesis
    by (simp add: earth_rate_value powr_neg_numeral)
qed

lemma product_value_back:
  "num_mul (Num (- 2000000000)) EARTH_ROT_DEG_PER_HOUR_double = Num (- 30082134000)"
proof -
  have "to_number (- 2000000000 * (8467367967056833 / 2 ^ 49))
      = Num (of_int (- 7885850935296000) * 2 powr of_int (34 - 52))"
    by (rule to_number_eval) (simp_all add: powr_neg_numeral)
  then show ?thesis
    by (simp add: earth_rate_value powr_neg_numeral)
qed

lemma sum_forth:
  "num_add (Num (3602879701896397 / 2 ^ 55)) (Num 30082134000)
     = Num (7885850935322214 / 2 ^ 18)"
proof -
  have "to_number (3602879701896397 / 2 ^ 55 + 30082134000)
      = Num (of_int 7885850935322214 * 2 powr of_int (34 - 52))"
    by (rule to_number_eval) (simp_all add: powr_neg_numeral)
  then show ?thesis
    by (simp add: powr_neg_numeral)
qed

lemma angle_forth:
  "normalize360_double (Num (7885850935322214 / 2 ^ 18)) = Num (15741747 / 2 ^ 17)"
proof -
  have "js_mod (7885850935322214 / 2 ^ 18) 360
      = 7885850935322214 / 2 ^ 18 - 360 * of_int 83561483"
    by (rule js_mod_360_eval) simp_all
  also have "\<dots> = 15741747 / 2 ^ 17"
    by simp
  finally show ?thesis
    by (simp add: normalize360_double_def Let_def)
qed

lemma sum_back:
  "num_add (Num (15741747 / 2 ^ 17)) (Num (- 30082134000))
     = Num (- (7885850903812506 / 2 ^ 18))"
proof -
  have "to_number (15741747 / 2 ^ 17 + - 30082134000)
      = Num (of_int (- 7885850903812506) * 2 powr of_int (34 - 52))"
    by (rule to_number_eval) (simp_all add: powr_neg_numeral)
  then show ?thesis
    by (simp add: powr_neg_numeral)
qed

lemma angle_back:
  "normalize360_double (Num (- (7885850903812506 / 2 ^ 18))) = Num (13107 / 2 ^ 17)"
proof -
  have "js_mod (- (7885850903812506 / 2 ^ 18)) 360
      = - (7885850903812506 / 2 ^ 18) - 360 * of_int (- 83561482)"
    by (rule js_mod_360_eval_neg) simp_all
  also have "\<dots> = - (47172813 / 2 ^ 17)"
    by simp
  finally have m: "js_mod (- (7885850903812506 / 2 ^ 18)) 360 = - (47172813 / 2 ^ 17)" .
  have "to_number (- (47172813 / 2 ^ 17) + 360)
      = Num (of_int 7205649452630016 * 2 powr of_int (- 4 - 52))"
    by (rule to_number_eval) (simp_all add: powr_neg_numeral)
  then have "to_number (- (47172813 / 2 ^ 17) + 360) = Num (13107 / 2 ^ 17)"
    by (simp add: powr_neg_numeral)
  with m show ?thesis
    by (simp add: normalize360_double_def Let_def)
qed

lemma beyond_tolerance:
  fixes x :: real
  assumes "1 / 10 ^ 6 < \<bar>x\<bar>" "\<bar>x\<bar> < 359"
  shows "\<not> (\<exists>k::int. \<bar>x - 360 * of_int k\<bar> \<le> 1 / 10 ^ 6)"
proof
  assume "\<exists>k::int. \<bar>x - 360 * of_int k\<bar> \<le> 1 / 10 ^ 6"
  then obtain k :: int where k: "\<bar>x - 360 * of_int k\<bar> \<le> 1 / 10 ^ 6" ..
  consider "k = 0" | "1 \<le> k" | "k \<le> - 1" by linarith
  then show False
  proof cases
    case 1
    with k assms(1) show False by simp
  next
    case 2
    then have "(1::real) \<le> of_int k" by simp
    with k assms(2) show False by (simp add: abs_if split: if_splits)
  next
    case 3
    then have "of_int k \<le> (- 1::real)" by (metis of_int_le_iff of_int_minus of_int_1)
    with k assms(2) show False by (simp add: abs_if split: if_splits)
  qed
qed

lemma date_double_derive:
  fixes base :: "'a OrbitalParameters_double_scheme"
  shows "date_d (deriveSimulationState_double base h start)
     = newDate_double (num_add start (num_mul h (Num 3600000)))"
  by (simp add: deriveSimulationState_double_def Let_def)

lemma roundTripParams_fields:
  "earthRotation_d roundTripParams = Num (3602879701896397 / 2 ^ 55)"
  "sunEclipticLon_d roundTripParams = Num 0"
  "ascendingNodeLon_d roundTripParams = Num 0"
  "moonNodePhase_d roundTripParams = Num 0"
  "moonAnomaly_d roundTripParams = Num 0"
  by (simp_all add: roundTripParams_def tenth_value)

text \<open>
  Claim C3, as amended. In binary64 arithmetic, for base parameters whose five angles
  are at most 360 degrees in absolute value and for at most \<open>5e8\<close> elapsed hours in
  absolute value, propagating the parameters by \<open>h\<close> hours and the resulting state by
  \<open>-h\<close> hours (from any start instants) returns each of the angles \<open>earthRotation\<close>,
  \<open>sunEclipticLon\<close>, \<open>ascendingNodeLon\<close>, \<open>moonNodePhase\<close> and \<open>moonAnomaly\<close> of
  the base, up to a whole number of turns of 360 degrees, within \<open>1e-6\<close> degrees.
\<close>

theorem propagate_round_trip:
  fixes base :: "'a OrbitalParameters_double_scheme"
  assumes "\<bar>h\<bar> \<le> 500000000"
    and "earthRotation_d base = Num aE" "\<bar>aE\<bar> \<le> 360"
    and "sunEclipticLon_d base = Num aS" "\<bar>aS\<bar> \<le> 360"
    and "ascendingNodeLon_d base = Num aN" "\<bar>aN\<bar> \<le> 360"
    and "moonNodePhase_d base = Num aP" "\<bar>aP\<bar> \<le> 360"
    and "moonAnomaly_d base = Num aM" "\<bar>aM\<bar> \<le> 360"
  shows
  "let returned = deriveSimulationState_double
         (deriveSimulationState_double base (Num h) start) (Num (- h)) start'
   in (\<exists>v. earthRotation_d returned = Num v \<and>
            (\<exists>k::int. \<bar>v - aE - 360 * of_int k\<bar> \<le> 1 / 10 ^ 6)) \<and>
      (\<exists>v. sunEclipticLon_d returned = Num v \<and>
            (\<exists>k::int. \<bar>v - aS - 360 * of_int k\<bar> \<le> 1 / 10 ^ 6)) \<and>
      (\<exists>v. ascendingNodeLon_d returned = Num v \<and>
            (\<exists>k::int. \<bar>v - aN - 360 * of_int k\<bar> \<le> 1 / 10 ^ 6)) \<and>
      (\<exists>v. moonNodePhase_d returned = Num v \<and>
            (\<exists>k::int. \<bar>v - aP - 360 * of_int k\<bar> \<le> 1 / 10 ^ 6)) \<and>
      (\<exists>v. moonAnomaly_d returned = Num v \<and>
            (\<exists>k::int. \<bar>v - aM - 360 * of_int k\<bar> \<le> 1 / 10 ^ 6))"
proof -
  let ?forth = "deriveSimulationState_double base (Num h) start"
  let ?returned = "deriveSimulationState_double ?forth (Num (- h)) start'"
  have earth: "\<exists>v. earthRotation_d ?returned = Num v \<and>
      (\<exists>k::int. \<bar>v - aE - 360 * of_int k\<bar> \<le> 1 / 10 ^ 6)"
  proof -
    obtain c where c: "EARTH_ROT_DEG_PER_HOUR_double = Num c" "\<bar>c\<bar> \<le> 16"
      using earth_rate by blast
    from round_trip_360_double [OF assms(3) assms(1) c(2)] show ?thesis
      unfolding derive_double_fields assms(2) c(1) by metis
  qed
  have sun: "\<exists>v. sunEclipticLon_d ?returned = Num v \<and>
      (\<exists>k::int. \<bar>v - aS - 360 * of_int k\<bar> \<le> 1 / 10 ^ 6)"
  proof -
    obtain c where c: "SUN_ECLIPTIC_DEG_PER_HOUR_double = Num c" "\<bar>c\<bar> \<le> 2"
      using sun_rate by blast
    then have "\<bar>c\<bar> \<le> 16" by linarith
    from round_trip_360_double [OF assms(5) assms(1) this] show ?thesis
      unfolding derive_double_fields assms(4) c(1) by metis
  qed
  have node: "\<exists>v. ascendingNodeLon_d ?returned = Num v \<and>
      (\<exists>k::int. \<bar>v - aN - 360 * of_int k\<bar> \<le> 1 / 10 ^ 6)"
  proof -
    obtain c where c: "NODE_REGRESSION_DEG_PER_HOUR_double = Num c" "\<bar>c\<bar> \<le> 2"
      using node_rate by blast
    then have "\<bar>c\<bar> \<le> 16" by linarith
    from round_trip_360_double [OF assms(7) assms(1) this] show ?thesis
      unfolding derive_double_fields assms(6) c(1) by metis
  qed
  have phase: "\<exists>v. moonNodePhase_d ?returned = Num v \<and>
      (\<exists>k::int. \<bar>v - aP - 360 * of_int k\<bar> \<le> 1 / 10 ^ 6)"
  proof -
    obtain c where c: "num_sub MOON_ECLIPTIC_DEG_PER_HOUR_double
        NODE_REGRESSION_DEG_PER_HOUR_double = Num c" "\<bar>c\<bar> \<le> 16"
      using phase_rate by blast
    from round_trip_180_double [OF assms(9) assms(1) c(2)] show ?thesis
      unfolding derive_double_fields assms(8) c(1) by metis
  qed
  have anomaly: "\<exists>v. moonAnomaly_d ?returned = Num v \<and>
      (\<exists>k::int. \<bar>v - aM - 360 * of_int k\<bar> \<le> 1 / 10 ^ 6)"
  proof -
    obtain c where c: "MOON_ANOMALY_DEG_PER_HOUR_double = Num c" "\<bar>c\<bar> \<le> 16"
      using anomaly_rate by blast
    from round_trip_360_double [OF assms(11) assms(1) c(2)] show ?thesis
      unfolding derive_double_fields assms(10) c(1) by metis
  qed
  show ?thesis
    unfolding Let_def using earth sun node phase anomaly by (intro conjI)
qed

theorem propagate_round_trip_witness:
  "\<bar>24 :: real\<bar> \<le> 500000000 \<and>
   earthRotation_d roundTripParams = Num (3602879701896397 / 2 ^ 55) \<and>
   \<bar>3602879701896397 / 2 ^ 55 :: real\<bar> \<le> 360 \<and>
   sunEclipticLon_d roundTripParams = Num 0 \<and>
   ascendingNodeLon_d roundTripParams = Num 0 \<and>
   moonNodePhase_d roundTripParams = Num 0 \<and>
   moonAnomaly_d roundTripParams = Num 0 \<and>
   (\<exists>v. earthRotation_d (deriveSimulationState_double
          (deriveSimulationState_double roundTripParams (Num 24) (Num 0)) (Num (- 24)) (Num 0))
        = Num v \<and>
        (\<exists>k::int. \<bar>v - 3602879701896397 / 2 ^ 55 - 360 * of_int k\<bar> \<le> 1 / 10 ^ 6)) \<and>
   (\<exists>v. moonNodePhase_d (deriveSimulationState_double
          (deriveSimulationState_double roundTripParams (Num 24) (Num 0)) (Num (- 24)) (Num 0))
        = Num v \<and>
        (\<exists>k::int. \<bar>v - 0 - 360 * of_int k\<bar> \<le> 1 / 10 ^ 6))"
proof -
  have h: "\<bar>24 :: real\<bar> \<le> 500000000"
    and a: "\<bar>3602879701896397 / 2 ^ 55 :: real\<bar> \<le> 360"
    and z: "\<bar>0 :: real\<bar> \<le> 360"
    by simp_all
  note T = propagate_round_trip [OF h roundTripParams_fields(1) a roundTripParams_fields(2) z
      roundTripParams_fields(3) z roundTripParams_fields(4) z roundTripParams_fields(5) z,
      of "Num 0" "Num 0", unfolded Let_def]
  show ?thesis
    using h a roundTripParams_fields T by (intro conjI) blast+
qed

text \<open>
  The claim as the specification states it, for every number of hours, fails in
  binary64. From the epoch, \<open>2e9\<close> hours lead to a valid date. The Earth's rotation
  then passes \<open>3e10\<close> degrees, where neighbouring Numbers are \<open>2^-18\<close> degrees apart:
  a rotation of 0.1 degrees returns as \<open>13107 / 2^17\<close>, which is more than
  \<open>1.5e-6\<close> degrees less, and no whole number of turns makes up for it.
\<close>

theorem round_trip_counterexample:
  "earthRotation_d roundTripParams = Num (3602879701896397 / 2 ^ 55) \<and>
   date_d (deriveSimulationState_double roundTripParams (Num 2000000000) (Num 0))
     = Num 7200000000000000 \<and>
   earthRotation_d (deriveSimulationState_double
       (deriveSimulationState_double roundTripParams (Num 2000000000) (Num 0))
       (Num (- 2000000000)) (Num 0))
     = Num (13107 / 2 ^ 17) \<and>
   1 / 10 ^ 6 < (3602879701896397 / 2 ^ 55 - 13107 / 2 ^ 17 :: real) \<and>
   \<not> (\<exists>k::int. \<bar>13107 / 2 ^ 17 - 3602879701896397 / 2 ^ 55 - 360 * of_int k :: real\<bar>
           \<le> 1 / 10 ^ 6)"
proof -
  have d: "date_d (deriveSimulationState_double roundTripParams (Num 2000000000) (Num 0))
      = Num 7200000000000000"
  proof -
    have "to_number (of_int 7200000000000000 * 2 powr of_int 0)
        = Num (of_int 7200000000000000 * 2 powr of_int 0)"
      by (rule to_number_representable) simp_all
    then have "to_number 7200000000000000 = Num 7200000000000000"
      by simp
    moreover have "js_trunc 7200000000000000 = 7200000000000000"
      using js_trunc_of_int [of 7200000000000000] by simp
    ultimately show ?thesis
      by (simp add: date_double_derive)
  qed
  have "earthRotation_d (deriveSimulationState_double roundTripParams (Num 2000000000) (Num 0))
      = Num (15741747 / 2 ^ 17)"
    by (simp only: derive_double_fields roundTripParams_fields product_value sum_forth
          angle_forth)
  then have e: "earthRotation_d (deriveSimulationState_double
       (deriveSimulationState_double roundTripParams (Num 2000000000) (Num 0))
       (Num (- 2000000000)) (Num 0))
     = Num (13107 / 2 ^ 17)"
    by (simp only: derive_double_fields(1) [of "deriveSimulationState_double _ _ _"]
          product_value_back sum_back angle_back)
  have gap: "1 / 10 ^ 6 < (3602879701896397 / 2 ^ 55 - 13107 / 2 ^ 17 :: real)"
    by simp
  have "\<not> (\<exists>k::int. \<bar>(13107 / 2 ^ 17 - 3602879701896397 / 2 ^ 55) - 360 * of_int k :: real\<bar>
      \<le> 1 / 10 ^ 6)"
    by (rule beyond_tolerance) simp_all
  with d e gap roundTripParams_fields(1) show ?thesis
    by (intro conjI)
qed

end
